(* ===== verification/Prelude.thy ===== *)
theory Prelude
  imports Main "HOL-Library.Word" "HOL-Library.Product_Lexorder"
begin

text \<open>
  Types and list lemmas shared by every component: identifiers, times, message texts, the
  update of the rows of a table that satisfy a condition, and lookups by key. The collections
  \<open>frame\<close> (an operation leaves a part of the state alone) and \<open>keeps\<close> (an operation
  preserves an invariant) are filled by the component theories.
\<close>

named_theorems frame \<open>an operation leaves a part of the state unchanged\<close>
named_theorems keeps \<open>an operation preserves an invariant\<close>

section \<open>Identifiers, times, texts\<close>

text \<open>
  A UUID is 128 bits and \<open>uuid.Nil\<close> is all zeros. A \<open>time.Time\<close> counts nanoseconds from Go's
  zero time, so \<open>IsZero\<close> is equality with 0; a \<open>time.Duration\<close> counts nanoseconds.
\<close>

type_synonym uuid = "128 word"
type_synonym time = int
type_synonym duration = int

abbreviation uuid_Nil :: uuid where "uuid_Nil \<equiv> 0"

abbreviation second :: duration where "second \<equiv> 1000000000"

text \<open>
  A text for humans (an error message, a reason) is a list of chunks: literal bytes, a string
  that \<open>%q\<close> quotes, an identifier in its canonical form, and a text that code outside the
  repository produced. Only the last three are left unrendered.
\<close>

datatype chunk = Plain string | Quoted string | Uuid uuid | Foreign string nat

type_synonym gotext = "chunk list"

section \<open>Decimal numerals (strconv.Itoa, the \<open>%d\<close> verb)\<close>

definition digit_char :: "nat \<Rightarrow> char" where
  "digit_char d = char_of (48 + d)"

fun show_nat :: "nat \<Rightarrow> string" where
  "show_nat n = (if n < 10 then [digit_char n] else show_nat (n div 10) @ [digit_char (n mod 10)])"

declare show_nat.simps [simp del]

definition itoa :: "int \<Rightarrow> string" where
  "itoa i = (if i < 0 then CHR ''-'' # show_nat (nat (- i)) else show_nat (nat i))"

lemma show_nat_nonempty [simp]: "show_nat n \<noteq> []"
  by (subst show_nat.simps) simp

section \<open>Updating the rows that satisfy a condition\<close>

definition update_where :: "('a \<Rightarrow> bool) \<Rightarrow> ('a \<Rightarrow> 'a) \<Rightarrow> 'a list \<Rightarrow> 'a list" where
  "update_where P f xs = map (\<lambda>x. if P x then f x else x) xs"

lemma update_where_Nil [simp]: "update_where P f [] = []"
  by (simp add: update_where_def)

lemma update_where_Cons [simp]:
  "update_where P f (x # xs) = (if P x then f x else x) # update_where P f xs"
  by (simp add: update_where_def)

lemma length_update_where [simp]: "length (update_where P f xs) = length xs"
  by (simp add: update_where_def)

lemma map_update_where [simp]:
  "(\<And>x. k (f x) = k x) \<Longrightarrow> map k (update_where P f xs) = map k xs"
  by (induction xs) auto

lemma update_where_none: "(\<And>x. x \<in> set xs \<Longrightarrow> \<not> P x) \<Longrightarrow> update_where P f xs = xs"
  by (induction xs) auto

lemma set_update_where:
  "set (update_where P f xs) = {if P x then f x else x | x. x \<in> set xs}"
  by (auto simp: update_where_def)

lemma in_update_whereE:
  assumes "y \<in> set (update_where P f xs)"
  obtains x where "x \<in> set xs" "P x" "y = f x" | "y \<in> set xs" "\<not> P y"
  using assms by (auto simp: set_update_where split: if_splits)

section \<open>Looking a row up by its key\<close>

definition find_by :: "('a \<Rightarrow> 'k) \<Rightarrow> 'k \<Rightarrow> 'a list \<Rightarrow> 'a option" where
  "find_by key k xs = find (\<lambda>x. key x = k) xs"

lemma find_by_Nil [simp]: "find_by key k [] = None"
  by (simp add: find_by_def)

lemma find_by_Cons [simp]:
  "find_by key k (x # xs) = (if key x = k then Some x else find_by key k xs)"
  by (simp add: find_by_def)

lemma find_by_append:
  "find_by key k (xs @ ys) = (case find_by key k xs of None \<Rightarrow> find_by key k ys | Some x \<Rightarrow> Some x)"
  by (induction xs) auto

lemma find_by_SomeD: "find_by key k xs = Some x \<Longrightarrow> x \<in> set xs \<and> key x = k"
  by (induction xs) (auto split: if_splits)

lemma find_by_None_iff: "find_by key k xs = None \<longleftrightarrow> (\<forall>x \<in> set xs. key x \<noteq> k)"
  by (induction xs) auto

lemma find_by_None_iff': "find_by key k xs = None \<longleftrightarrow> k \<notin> key ` set xs"
  by (auto simp: find_by_None_iff)

lemma find_by_unique:
  "distinct (map key xs) \<Longrightarrow> find_by key k xs = Some x \<longleftrightarrow> x \<in> set xs \<and> key x = k"
  by (induction xs) (auto simp: rev_image_eqI)

lemma find_by_update_where:
  assumes "\<And>x. key (f x) = key x"
  shows "find_by key k (update_where P f xs) =
    map_option (\<lambda>x. if P x then f x else x) (find_by key k xs)"
  using assms by (induction xs) auto

lemma filter_key_unique:
  "distinct (map key xs) \<Longrightarrow>
   filter (\<lambda>x. key x = k \<and> P x) xs =
     (case find_by key k xs of None \<Rightarrow> [] | Some x \<Rightarrow> if P x then [x] else [])"
proof (induction xs)
  case (Cons y ys)
  show ?case
  proof (cases "key y = k")
    case True
    with Cons.prems have "\<forall>x \<in> set ys. key x \<noteq> k" by (auto simp: rev_image_eqI)
    then have "filter (\<lambda>x. key x = k \<and> P x) ys = []" by (auto simp: filter_empty_conv)
    with True show ?thesis by simp
  next
    case False
    with Cons show ?thesis by simp
  qed
qed simp

section \<open>Lists\<close>

lemma take_set_subset: "x \<in> set (take n xs) \<Longrightarrow> x \<in> set xs"
  by (rule in_set_takeD)

lemma sum_list_count_partition:
  "length (filter P xs) + length (filter (\<lambda>x. \<not> P x) xs) = length xs"
  by (rule sum_length_filter_compl)

end
