(* ===== verification/Errors.thy ===== *)
theory Errors
  imports Prelude
begin

text \<open>
  Go's \<open>error\<close> values as the repository builds them: the sentinels and \<open>ValidationErrors\<close> of
  internal/domain/errors.go and template.go, \<open>SendError\<close> of internal/delivery/webhook.go, the
  errors that the PostgreSQL driver returns, opaque errors of other foreign code,
  \<open>fmt.Errorf\<close> without a wrapped error, and \<open>fmt.Errorf\<close> with a trailing \<open>: %w\<close> as \<open>Wrap\<close>. A nil error is \<open>None\<close> or the right injection
  of a sum. \<open>errors_is\<close> and the \<open>as_\<close> functions are \<open>errors.Is\<close> and \<open>errors.As\<close> on these.
\<close>

record field_error =
  fe_field :: string
  fe_message :: gotext

datatype error =
    ErrNotFound
  | ErrInvalidTransition
  | ErrDuplicateIdempotencyKey
  | ErrDuplicateTemplateName
  | ValidationErrors "field_error list"
  | SendError int bool gotext
  | PgError string string
  | ErrNoRows
  | Opaque string nat
  | Errorf gotext
  | GoPanic
  | Wrap gotext error

type_synonym 'a result = "error + 'a"

definition field_err :: "string \<Rightarrow> gotext \<Rightarrow> field_error" where
  "field_err f m = \<lparr>fe_field = f, fe_message = m\<rparr>"

text \<open>\<open>if err != nil { return err }\<close> between two steps.\<close>

definition bind :: "'a result \<Rightarrow> ('a \<Rightarrow> 'b result) \<Rightarrow> 'b result" where
  "bind r f = (case r of Inl e \<Rightarrow> Inl e | Inr x \<Rightarrow> f x)"

lemma bind_Inr: "bind r f = Inr y \<longleftrightarrow> (\<exists>x. r = Inr x \<and> f x = Inr y)"
  by (cases r) (auto simp: bind_def)

section \<open>errors.Is and errors.As\<close>

fun errors_is :: "error \<Rightarrow> error \<Rightarrow> bool" where
  "errors_is (Wrap m e) target = (Wrap m e = target \<or> errors_is e target)"
| "errors_is e target = (e = target)"

fun as_validation :: "error \<Rightarrow> field_error list option" where
  "as_validation (ValidationErrors v) = Some v"
| "as_validation (Wrap m e) = as_validation e"
| "as_validation e = None"

fun as_send :: "error \<Rightarrow> (int \<times> bool \<times> gotext) option" where
  "as_send (SendError c r m) = Some (c, r, m)"
| "as_send (Wrap m e) = as_send e"
| "as_send e = None"

fun as_pg :: "error \<Rightarrow> (string \<times> string) option" where
  "as_pg (PgError c k) = Some (c, k)"
| "as_pg (Wrap m e) = as_pg e"
| "as_pg e = None"

text \<open>The error at the end of a chain of wraps; the functions above only look there.\<close>

fun cause :: "error \<Rightarrow> error" where
  "cause (Wrap m e) = cause e"
| "cause e = e"

lemma errors_is_sentinel:
  "\<forall>m e'. t \<noteq> Wrap m e' \<Longrightarrow> errors_is e t \<longleftrightarrow> cause e = t"
  by (induction e) auto

lemma errors_is_simps [simp]:
  "errors_is e ErrNotFound \<longleftrightarrow> cause e = ErrNotFound"
  "errors_is e ErrInvalidTransition \<longleftrightarrow> cause e = ErrInvalidTransition"
  "errors_is e ErrDuplicateIdempotencyKey \<longleftrightarrow> cause e = ErrDuplicateIdempotencyKey"
  "errors_is e ErrDuplicateTemplateName \<longleftrightarrow> cause e = ErrDuplicateTemplateName"
  "errors_is e ErrNoRows \<longleftrightarrow> cause e = ErrNoRows"
  by (simp_all add: errors_is_sentinel)

declare errors_is.simps [simp del]

lemma as_validation_cause: "as_validation e = as_validation (cause e)"
  by (induction e) auto

lemma as_validation_iff: "as_validation e = Some v \<longleftrightarrow> cause e = ValidationErrors v"
  by (induction e) auto

lemma as_send_iff: "as_send e = Some (c, r, m) \<longleftrightarrow> cause e = SendError c r m"
  by (induction e) auto

lemma as_pg_iff: "as_pg e = Some (c, k) \<longleftrightarrow> cause e = PgError c k"
  by (induction e) auto

section \<open>The Error methods\<close>

fun join_semicolon :: "gotext list \<Rightarrow> gotext" where
  "join_semicolon [] = []"
| "join_semicolon [t] = t"
| "join_semicolon (t # ts) = t @ Plain ''; '' # join_semicolon ts"

definition ValidationErrors_Error :: "field_error list \<Rightarrow> gotext" where
  "ValidationErrors_Error v =
     Plain ''validation failed: '' #
       join_semicolon (map (\<lambda>f. Plain (fe_field f) # Plain '': '' # fe_message f) v)"

definition SendError_Error :: "int \<Rightarrow> gotext \<Rightarrow> gotext" where
  "SendError_Error code msg =
     (if code \<noteq> 0 then Plain ''provider returned '' # Plain (itoa code) # Plain '': '' # msg
      else msg)"

fun error_text :: "error \<Rightarrow> gotext" where
  "error_text ErrNotFound = [Plain ''not found'']"
| "error_text ErrInvalidTransition = [Plain ''invalid status transition'']"
| "error_text ErrDuplicateIdempotencyKey = [Plain ''duplicate idempotency key'']"
| "error_text ErrDuplicateTemplateName = [Plain ''duplicate template name'']"
| "error_text (ValidationErrors v) = ValidationErrors_Error v"
| "error_text (SendError c r m) = SendError_Error c m"
| "error_text (PgError c k) = [Foreign c 0]"
| "error_text ErrNoRows = [Foreign ''no rows'' 0]"
| "error_text (Opaque what k) = [Foreign what k]"
| "error_text (Errorf m) = m"
| "error_text GoPanic = [Foreign ''panic'' 0]"
| "error_text (Wrap m e) = m @ Plain '': '' # error_text e"

end
