(* ===== verification/GoRegexp.thy ===== *)
theory GoRegexp
  imports Prelude
begin

text \<open>
  Regular expressions as the repository uses Go's \<open>regexp\<close>: literal bytes, character classes,
  concatenation, alternation, star, plus and counted repetition, anchored at both ends. The
  meaning is the inductive relation \<open>denotes\<close>; \<open>matches\<close> is the executable matcher (Brzozowski
  derivatives), and \<open>matches_iff\<close> says that they agree. The patterns of the repository use ASCII
  classes and one negated ASCII class under \<open>+\<close>, so matching bytes and matching runes accept
  the same strings.
\<close>

datatype rexp =
    Never
  | Eps
  | Cls "char \<Rightarrow> bool"
  | Alt rexp rexp
  | Cat rexp rexp
  | Star rexp

section \<open>Meaning\<close>

inductive denotes :: "rexp \<Rightarrow> string \<Rightarrow> bool" where
  eps: "denotes Eps []"
| cls: "P c \<Longrightarrow> denotes (Cls P) [c]"
| altl: "denotes r s \<Longrightarrow> denotes (Alt r q) s"
| altr: "denotes q s \<Longrightarrow> denotes (Alt r q) s"
| cat: "denotes r s \<Longrightarrow> denotes q t \<Longrightarrow> denotes (Cat r q) (s @ t)"
| star0: "denotes (Star r) []"
| star1: "denotes r s \<Longrightarrow> denotes (Star r) t \<Longrightarrow> denotes (Star r) (s @ t)"

inductive_cases denotes_CatE: "denotes (Cat r q) s"
inductive_simps denotes_Never [simp]: "denotes Never s"
inductive_simps denotes_Eps [simp]: "denotes Eps s"
inductive_simps denotes_Cls [simp]: "denotes (Cls P) s"
inductive_simps denotes_Alt [simp]: "denotes (Alt r q) s"
inductive_simps denotes_Cat: "denotes (Cat r q) s"

section \<open>Matching\<close>

fun nullable :: "rexp \<Rightarrow> bool" where
  "nullable Never = False"
| "nullable Eps = True"
| "nullable (Cls P) = False"
| "nullable (Alt r q) = (nullable r \<or> nullable q)"
| "nullable (Cat r q) = (nullable r \<and> nullable q)"
| "nullable (Star r) = True"

fun deriv :: "char \<Rightarrow> rexp \<Rightarrow> rexp" where
  "deriv c Never = Never"
| "deriv c Eps = Never"
| "deriv c (Cls P) = (if P c then Eps else Never)"
| "deriv c (Alt r q) = Alt (deriv c r) (deriv c q)"
| "deriv c (Cat r q) =
     (if nullable r then Alt (Cat (deriv c r) q) (deriv c q) else Cat (deriv c r) q)"
| "deriv c (Star r) = Cat (deriv c r) (Star r)"

fun matches :: "rexp \<Rightarrow> string \<Rightarrow> bool" where
  "matches r [] = nullable r"
| "matches r (c # s) = matches (deriv c r) s"

lemma nullable_iff: "nullable r \<longleftrightarrow> denotes r []"
  by (induction r) (auto simp: denotes_Cat intro: denotes.star0)

lemma star_Cons:
  assumes "denotes (Star r) u" and "u = c # s"
  shows "\<exists>s1 s2. s = s1 @ s2 \<and> denotes r (c # s1) \<and> denotes (Star r) s2"
  using assms
proof (induction "Star r" u arbitrary: s rule: denotes.induct)
  case (star1 x t)
  show ?case
  proof (cases x)
    case Nil
    with star1 show ?thesis by simp
  next
    case (Cons d x')
    with star1 show ?thesis by auto
  qed
qed simp

lemma deriv_iff: "denotes (deriv c r) s \<longleftrightarrow> denotes r (c # s)"
proof (induction r arbitrary: s)
  case (Cat r q)
  then show ?case
    by (auto simp: denotes_Cat nullable_iff Cons_eq_append_conv)
next
  case (Star r)
  show ?case
  proof
    assume "denotes (deriv c (Star r)) s"
    then obtain s1 s2 where "s = s1 @ s2" "denotes r (c # s1)" "denotes (Star r) s2"
      by (auto simp: denotes_Cat Star)
    then show "denotes (Star r) (c # s)"
      using denotes.star1 [of r "c # s1" s2] by simp
  next
    assume "denotes (Star r) (c # s)"
    then show "denotes (deriv c (Star r)) s"
      using star_Cons [of r "c # s" c s] by (auto simp: denotes_Cat Star)
  qed
qed auto

lemma matches_iff: "matches r s \<longleftrightarrow> denotes r s"
  by (induction s arbitrary: r) (simp_all add: nullable_iff deriv_iff)

section \<open>Derived forms\<close>

definition Chr :: "char \<Rightarrow> rexp" where
  "Chr c = Cls (\<lambda>d. d = c)"

definition Plus1 :: "rexp \<Rightarrow> rexp" where
  "Plus1 r = Cat r (Star r)"

fun Exactly :: "nat \<Rightarrow> rexp \<Rightarrow> rexp" where
  "Exactly 0 r = Eps"
| "Exactly (Suc n) r = Cat r (Exactly n r)"

fun Upto :: "nat \<Rightarrow> rexp \<Rightarrow> rexp" where
  "Upto 0 r = Eps"
| "Upto (Suc n) r = Alt Eps (Cat r (Upto n r))"

definition Between :: "nat \<Rightarrow> nat \<Rightarrow> rexp \<Rightarrow> rexp" where
  "Between lo hi r = Cat (Exactly lo r) (Upto (hi - lo) r)"

lemma denotes_Chr [simp]: "denotes (Chr c) s \<longleftrightarrow> s = [c]"
  by (auto simp: Chr_def)

lemma denotes_Cat_Cls:
  "denotes (Cat (Cls P) r) s \<longleftrightarrow> (\<exists>c t. s = c # t \<and> P c \<and> denotes r t)"
  unfolding denotes_Cat by (metis append_Cons append_Nil denotes_Cls)

lemma denotes_Cat_Chr: "denotes (Cat (Chr c) r) s \<longleftrightarrow> (\<exists>t. s = c # t \<and> denotes r t)"
  by (auto simp: Chr_def denotes_Cat_Cls)

lemma denotes_Exactly_Cls: "denotes (Exactly n (Cls P)) s \<longleftrightarrow> length s = n \<and> list_all P s"
proof (induction n arbitrary: s)
  case (Suc n)
  then show ?case by (cases s) (simp_all add: denotes_Cat_Cls, blast)
qed auto

lemma denotes_Upto_Cls: "denotes (Upto n (Cls P)) s \<longleftrightarrow> length s \<le> n \<and> list_all P s"
proof (induction n arbitrary: s)
  case (Suc n)
  then show ?case by (cases s) (auto simp: denotes_Cat_Cls)
qed auto

lemma denotes_Between_Cls:
  assumes "lo \<le> hi"
  shows "denotes (Between lo hi (Cls P)) s \<longleftrightarrow> lo \<le> length s \<and> length s \<le> hi \<and> list_all P s"
proof
  assume "denotes (Between lo hi (Cls P)) s"
  then show "lo \<le> length s \<and> length s \<le> hi \<and> list_all P s"
    using assms by (auto simp: Between_def denotes_Cat denotes_Exactly_Cls denotes_Upto_Cls)
next
  assume a: "lo \<le> length s \<and> length s \<le> hi \<and> list_all P s"
  have "list_all P (take lo s)" "list_all P (drop lo s)"
    using a by (auto simp: list_all_iff dest: in_set_takeD in_set_dropD)
  moreover have "length s - lo \<le> hi - lo"
    using a by (intro diff_le_mono) simp
  ultimately have "denotes (Exactly lo (Cls P)) (take lo s)"
    and "denotes (Upto (hi - lo) (Cls P)) (drop lo s)"
    using a by (simp_all add: denotes_Exactly_Cls denotes_Upto_Cls)
  then show "denotes (Between lo hi (Cls P)) s"
    unfolding Between_def using denotes.cat by fastforce
qed

lemma denotes_Star_Cls: "denotes (Star (Cls P)) s \<longleftrightarrow> list_all P s"
proof
  assume "denotes (Star (Cls P)) s"
  then show "list_all P s"
    by (induction "Star (Cls P)" s rule: denotes.induct) auto
next
  assume "list_all P s"
  then show "denotes (Star (Cls P)) s"
  proof (induction s)
    case (Cons c s)
    then show ?case using denotes.star1 [of "Cls P" "[c]" s] by simp
  qed (rule denotes.star0)
qed

lemma denotes_Plus1_Cls: "denotes (Plus1 (Cls P)) s \<longleftrightarrow> s \<noteq> [] \<and> list_all P s"
  by (cases s) (auto simp: Plus1_def denotes_Cat_Cls denotes_Star_Cls)

section \<open>Interface\<close>

text \<open>
  What the validation code needs of a regular-expression engine: a decision procedure for the
  meaning of a pattern. The derivative matcher provides it.
\<close>

locale regexp_engine =
  fixes match :: "rexp \<Rightarrow> string \<Rightarrow> bool"
  assumes match_iff: "match r s \<longleftrightarrow> denotes r s"
begin

lemma match_Cat: "match (Cat r q) s \<longleftrightarrow> (\<exists>u v. s = u @ v \<and> match r u \<and> match q v)"
  by (simp add: match_iff denotes_Cat)

lemma match_Chr: "match (Chr c) s \<longleftrightarrow> s = [c]"
  by (simp add: match_iff)

lemma match_Cls: "match (Cls P) s \<longleftrightarrow> (\<exists>c. s = [c] \<and> P c)"
  by (auto simp: match_iff)

lemma match_Plus1_Cls: "match (Plus1 (Cls P)) s \<longleftrightarrow> s \<noteq> [] \<and> list_all P s"
  by (simp add: match_iff denotes_Plus1_Cls)

lemma match_Between_Cls:
  "lo \<le> hi \<Longrightarrow>
   match (Between lo hi (Cls P)) s \<longleftrightarrow> lo \<le> length s \<and> length s \<le> hi \<and> list_all P s"
  by (simp add: match_iff denotes_Between_Cls)

end

interpretation re: regexp_engine matches
  by unfold_locales (rule matches_iff)

end
