(* ===== verification/Utf8.thy ===== *)
theory Utf8
  imports Prelude
begin

text \<open>
  \<open>unicode/utf8.RuneCountInString\<close>, which \<open>validateContent\<close> uses for SMS, on byte strings: the
  table of lead bytes with their accept ranges, the size of the first rune, and the loop. An
  invalid byte counts as one rune of width one. \<open>utf8_encode\<close> is the encoding of a scalar value,
  used to state what the count means.
\<close>

abbreviation byte :: "char \<Rightarrow> nat" where "byte c \<equiv> of_char c"

text \<open>Size of the encoding and the range of the second byte, by lead byte (from 128 up).\<close>

definition lead :: "nat \<Rightarrow> (nat \<times> nat \<times> nat) option" where
  "lead b =
     (if b < 194 then None
      else if b < 224 then Some (2, 128, 191)
      else if b = 224 then Some (3, 160, 191)
      else if b < 237 then Some (3, 128, 191)
      else if b = 237 then Some (3, 128, 159)
      else if b < 240 then Some (3, 128, 191)
      else if b = 240 then Some (4, 144, 191)
      else if b < 244 then Some (4, 128, 191)
      else if b = 244 then Some (4, 128, 143)
      else None)"

definition continuation :: "char \<Rightarrow> bool" where
  "continuation c \<longleftrightarrow> 128 \<le> byte c \<and> byte c \<le> 191"

definition rune_size :: "char \<Rightarrow> string \<Rightarrow> nat" where
  "rune_size c rest =
     (if byte c < 128 then 1
      else case lead (byte c) of
        None \<Rightarrow> 1
      | Some (sz, lo, hi) \<Rightarrow>
          if Suc (length rest) < sz then 1
          else if byte (rest ! 0) < lo \<or> hi < byte (rest ! 0) then 1
          else if sz = 2 then 2
          else if \<not> continuation (rest ! 1) then 1
          else if sz = 3 then 3
          else if \<not> continuation (rest ! 2) then 1
          else 4)"

fun rune_count :: "string \<Rightarrow> nat" where
  "rune_count [] = 0"
| "rune_count (c # rest) = Suc (rune_count (drop (rune_size c rest - 1) rest))"

declare rune_count.simps(2) [simp del]

lemma rune_count_le_length: "rune_count s \<le> length s"
proof (induction s rule: rune_count.induct)
  case (2 c rest)
  then show ?case by (simp add: rune_count.simps(2))
qed simp

lemma rune_count_pos: "s \<noteq> [] \<Longrightarrow> 0 < rune_count s"
  by (cases s) (simp_all add: rune_count.simps(2))

lemma rune_count_ascii: "(\<forall>c \<in> set s. byte c < 128) \<Longrightarrow> rune_count s = length s"
  by (induction s) (simp_all add: rune_count.simps(2) rune_size_def)

text \<open>
  Well-formed UTF-8, by the same table: every byte from 128 up starts or continues a whole
  encoding. PostgreSQL checks text parameters against this table.
\<close>

fun utf8_valid :: "string \<Rightarrow> bool" where
  "utf8_valid [] = True"
| "utf8_valid (c # rest) =
     ((byte c < 128 \<or> rune_size c rest \<noteq> 1) \<and> utf8_valid (drop (rune_size c rest - 1) rest))"

declare utf8_valid.simps(2) [simp del]

lemma utf8_valid_ascii: "(\<forall>c \<in> set s. byte c < 128) \<Longrightarrow> utf8_valid s"
  by (induction s) (simp_all add: utf8_valid.simps(2) rune_size_def)

lemma utf8_valid_prefix: "\<forall>c \<in> set s. byte c < 128 \<Longrightarrow> utf8_valid (s @ t) = utf8_valid t"
  by (induction s) (simp_all add: utf8_valid.simps(2) rune_size_def)

section \<open>Encoded scalar values count one each\<close>

definition scalar :: "nat \<Rightarrow> bool" where
  "scalar n \<longleftrightarrow> n < 55296 \<or> 57343 < n \<and> n < 1114112"

definition utf8_encode :: "nat \<Rightarrow> string" where
  "utf8_encode n =
     (if n < 128 then [char_of n]
      else if n < 2048 then [char_of (192 + n div 64), char_of (128 + n mod 64)]
      else if n < 65536 then
        [char_of (224 + n div 4096), char_of (128 + n div 64 mod 64), char_of (128 + n mod 64)]
      else [char_of (240 + n div 262144), char_of (128 + n div 4096 mod 64),
            char_of (128 + n div 64 mod 64), char_of (128 + n mod 64)])"

lemma byte_char_of: "n < 256 \<Longrightarrow> byte (char_of (n::nat)) = n"
  by simp

lemma lead_3: "a < 16 \<Longrightarrow>
    lead (224 + a) = Some (3, if a = 0 then 160 else 128, if a = 13 then 159 else 191)"
  by (auto simp: lead_def)

lemma lead_4: "a < 5 \<Longrightarrow>
    lead (240 + a) = Some (4, if a = 0 then 144 else 128, if a = 4 then 143 else 191)"
  by (auto simp: lead_def)

lemma rune_size_3I:
  "lead (byte c) = Some (3, lo, hi) \<Longrightarrow> 128 \<le> byte c \<Longrightarrow>
   lo \<le> byte d \<Longrightarrow> byte d \<le> hi \<Longrightarrow> continuation e \<Longrightarrow> rune_size c (d # e # s) = 3"
  by (simp add: rune_size_def)

lemma rune_size_4I:
  "lead (byte c) = Some (4, lo, hi) \<Longrightarrow> 128 \<le> byte c \<Longrightarrow>
   lo \<le> byte d \<Longrightarrow> byte d \<le> hi \<Longrightarrow> continuation e \<Longrightarrow> continuation f \<Longrightarrow>
   rune_size c (d # e # f # s) = 4"
  by (simp add: rune_size_def)

lemma div_mod_64:
  fixes q :: nat
  obtains a b where "q div 64 = a" "q mod 64 = b" "q = 64 * a + b" "b < 64"
  by (metis mod_less_divisor mult_div_mod_eq zero_less_numeral)

lemma continuation_char_of: "continuation (char_of (128 + n mod 64 :: nat))"
proof -
  have "n mod 64 < 64" by simp
  then show ?thesis by (simp add: continuation_def byte_char_of)
qed

lemma rune_size_1: "n < 128 \<Longrightarrow> rune_size (char_of (n::nat)) s = 1"
  by (simp add: rune_size_def byte_char_of)

lemma rune_size_2:
  fixes n :: nat
  assumes "128 \<le> n" "n < 2048"
  shows "rune_size (char_of (192 + n div 64)) (char_of (128 + n mod 64) # s) = 2"
proof -
  have "2 \<le> n div 64" "n div 64 < 32" "n mod 64 < 64" using assms by auto
  then show ?thesis by (simp add: rune_size_def lead_def byte_char_of)
qed

lemma rune_size_3:
  fixes n :: nat
  assumes "2048 \<le> n" "n < 65536" "scalar n"
  shows "rune_size (char_of (224 + n div 4096))
    (char_of (128 + n div 64 mod 64) # char_of (128 + n mod 64) # s) = 3"
proof -
  define q where "q = n div 64"
  obtain a b where ab: "q div 64 = a" "q mod 64 = b" "q = 64 * a + b" "b < 64"
    by (rule div_mod_64)
  have "n div 4096 = q div 64" by (simp add: q_def div_mult2_eq [symmetric])
  then have eqs: "n div 4096 = a" "n div 64 mod 64 = b" using ab by (simp_all add: q_def)
  have "q < 1024" "32 \<le> q" "q < 864 \<or> 896 \<le> q"
    using assms by (auto simp: q_def scalar_def)
  then have "a < 16" "a = 0 \<longrightarrow> 32 \<le> b" "a = 13 \<longrightarrow> b < 32"
    using ab(3,4) by linarith+
  then show ?thesis unfolding eqs using ab(4)
    by (intro rune_size_3I [OF _ _ _ _ continuation_char_of])
      (auto simp: byte_char_of lead_3)
qed

lemma rune_size_4:
  fixes n :: nat
  assumes "65536 \<le> n" "scalar n"
  shows "rune_size (char_of (240 + n div 262144))
    (char_of (128 + n div 4096 mod 64) # char_of (128 + n div 64 mod 64) #
     char_of (128 + n mod 64) # s) = 4"
proof -
  define q where "q = n div 4096"
  obtain a b where ab: "q div 64 = a" "q mod 64 = b" "q = 64 * a + b" "b < 64"
    by (rule div_mod_64)
  have "n div 262144 = q div 64" by (simp add: q_def div_mult2_eq [symmetric])
  then have eqs: "n div 262144 = a" "n div 4096 mod 64 = b" using ab by (simp_all add: q_def)
  have "n < 1114112" using assms by (auto simp: scalar_def)
  then have "16 \<le> q" "q < 272" using assms by (auto simp: q_def)
  then have "a < 5" "a = 0 \<longrightarrow> 16 \<le> b" "a = 4 \<longrightarrow> b < 16"
    using ab(3,4) by linarith+
  then show ?thesis unfolding eqs using ab(4)
    by (intro rune_size_4I [OF _ _ _ _ continuation_char_of continuation_char_of])
      (auto simp: byte_char_of lead_4)
qed

lemma rune_count_encode_append:
  assumes "scalar n"
  shows "rune_count (utf8_encode n @ s) = Suc (rune_count s)"
proof -
  consider "n < 128" | "128 \<le> n" "n < 2048" | "2048 \<le> n" "n < 65536" | "65536 \<le> n"
    by linarith
  then show ?thesis
  proof cases
    case 1
    then show ?thesis by (simp add: utf8_encode_def rune_count.simps(2) rune_size_1)
  next
    case 2
    then show ?thesis by (simp add: utf8_encode_def rune_count.simps(2) rune_size_2)
  next
    case 3
    with assms show ?thesis by (simp add: utf8_encode_def rune_count.simps(2) rune_size_3)
  next
    case 4
    with assms show ?thesis by (simp add: utf8_encode_def rune_count.simps(2) rune_size_4)
  qed
qed

lemma rune_count_encode:
  "list_all scalar ns \<Longrightarrow> rune_count (concat (map utf8_encode ns)) = length ns"
  by (induction ns) (simp_all add: rune_count_encode_append)

lemma utf8_encode_nonempty [simp]: "utf8_encode n \<noteq> []"
  by (simp add: utf8_encode_def)

end
