(* ===== verification/Domain.thy ===== *)
theory Domain
  imports Errors GoRegexp Utf8
begin

text \<open>
  internal/domain: the notification and template data, the status state machine, validation of
  new notifications and templates, and the list query. \<open>Channel\<close> and \<open>Priority\<close> are Go strings
  that carry unvalidated input, so they are strings here with the declared constants; \<open>Status\<close>
  values only come from the declared constants, so they are a datatype, and \<open>status_string\<close>
  gives the database spelling. A list query's status filter is raw input and stays a string.
\<close>

section \<open>Channels, priorities, statuses (notification.go)\<close>

type_synonym channel = string
type_synonym priority = string

abbreviation ChannelSMS :: channel where "ChannelSMS \<equiv> ''sms''"
abbreviation ChannelEmail :: channel where "ChannelEmail \<equiv> ''email''"
abbreviation ChannelPush :: channel where "ChannelPush \<equiv> ''push''"

definition Channels :: "channel list" where
  "Channels = [ChannelSMS, ChannelEmail, ChannelPush]"

definition Channel_Valid :: "channel \<Rightarrow> bool" where
  "Channel_Valid c = (c \<in> set Channels)"

abbreviation PriorityHigh :: priority where "PriorityHigh \<equiv> ''high''"
abbreviation PriorityNormal :: priority where "PriorityNormal \<equiv> ''normal''"
abbreviation PriorityLow :: priority where "PriorityLow \<equiv> ''low''"

definition Priority_Valid :: "priority \<Rightarrow> bool" where
  "Priority_Valid p = (p = PriorityHigh \<or> p = PriorityNormal \<or> p = PriorityLow)"

datatype status =
    StatusPending
  | StatusScheduled
  | StatusQueued
  | StatusProcessing
  | StatusRetrying
  | StatusSent
  | StatusFailed
  | StatusCancelled

fun status_string :: "status \<Rightarrow> string" where
  "status_string StatusPending = ''pending''"
| "status_string StatusScheduled = ''scheduled''"
| "status_string StatusQueued = ''queued''"
| "status_string StatusProcessing = ''processing''"
| "status_string StatusRetrying = ''retrying''"
| "status_string StatusSent = ''sent''"
| "status_string StatusFailed = ''failed''"
| "status_string StatusCancelled = ''cancelled''"

lemma status_string_inject [simp]: "status_string s = status_string t \<longleftrightarrow> s = t"
  by (cases s; cases t) simp_all

lemma status_string_image [simp]: "status_string s \<in> status_string ` S \<longleftrightarrow> s \<in> S"
  by auto

fun transitions :: "status \<Rightarrow> status list" where
  "transitions StatusPending = [StatusQueued, StatusProcessing, StatusCancelled]"
| "transitions StatusScheduled = [StatusQueued, StatusCancelled]"
| "transitions StatusQueued = [StatusProcessing, StatusCancelled]"
| "transitions StatusProcessing = [StatusSent, StatusRetrying, StatusFailed]"
| "transitions StatusRetrying = [StatusProcessing, StatusFailed]"
| "transitions StatusSent = []"
| "transitions StatusFailed = []"
| "transitions StatusCancelled = []"

definition allStatuses :: "status list" where
  "allStatuses =
     [StatusPending, StatusScheduled, StatusQueued, StatusProcessing,
      StatusRetrying, StatusSent, StatusFailed, StatusCancelled]"

definition CanTransition :: "status \<Rightarrow> status \<Rightarrow> bool" where
  "CanTransition s t = list_ex (\<lambda>allowed. allowed = t) (transitions s)"

definition StatusesAllowedInto :: "status \<Rightarrow> status list" where
  "StatusesAllowedInto to = filter (\<lambda>s. CanTransition s to) allStatuses"

definition CancellableStatuses :: "status list" where
  "CancellableStatuses = StatusesAllowedInto StatusCancelled"

lemma UNIV_status: "UNIV = set allStatuses"
proof -
  have "s \<in> set allStatuses" for s by (cases s) (simp_all add: allStatuses_def)
  then show ?thesis by blast
qed

instantiation status :: enum
begin

definition enum_status :: "status list" where
  "enum_status = allStatuses"

definition enum_all_status :: "(status \<Rightarrow> bool) \<Rightarrow> bool" where
  "enum_all_status P = list_all P allStatuses"

definition enum_ex_status :: "(status \<Rightarrow> bool) \<Rightarrow> bool" where
  "enum_ex_status P = list_ex P allStatuses"

instance
  by standard
    (auto simp: enum_status_def enum_all_status_def enum_ex_status_def UNIV_status list_all_iff
      list_ex_iff, simp add: allStatuses_def)

end

lemma in_allStatuses [simp]: "s \<in> set allStatuses"
  using UNIV_status by blast

lemma CanTransition_iff: "CanTransition s t \<longleftrightarrow> t \<in> set (transitions s)"
  by (auto simp: CanTransition_def list_ex_iff)

lemma StatusesAllowedInto_iff [simp]: "s \<in> set (StatusesAllowedInto t) \<longleftrightarrow> CanTransition s t"
  by (simp add: StatusesAllowedInto_def)

definition terminal :: "status \<Rightarrow> bool" where
  "terminal s = (transitions s = [])"

lemma terminal_iff:
  "terminal s \<longleftrightarrow> s = StatusSent \<or> s = StatusFailed \<or> s = StatusCancelled"
  by (cases s) (simp_all add: terminal_def)

lemma terminal_no_transition: "terminal s \<Longrightarrow> \<not> CanTransition s t"
  by (simp add: terminal_def CanTransition_iff)

lemma no_self_transition: "\<not> CanTransition s s"
  by (cases s) (simp_all add: CanTransition_iff)

record status_count =
  sc_channel :: channel
  sc_status :: status
  sc_count :: nat

record notification =
  nid :: uuid
  batch_id :: "uuid option"
  recipient :: string
  channel :: channel
  content :: string
  priority :: priority
  status :: status
  idempotency_key :: "string option"
  scheduled_at :: "time option"
  attempts :: int
  last_error :: "gotext option"
  provider_message_id :: "string option"
  created_at :: time
  updated_at :: time
  sent_at :: "time option"

section \<open>Validation of a new notification (validate.go)\<close>

definition smsMaxRunes :: nat where "smsMaxRunes = 160"
definition pushMaxBytes :: nat where "pushMaxBytes = 512"
definition emailMaxBytes :: nat where "emailMaxBytes = 100 * 1024"

definition in_range :: "char \<Rightarrow> char \<Rightarrow> char \<Rightarrow> bool" where
  "in_range a b c \<longleftrightarrow> byte a \<le> byte c \<and> byte c \<le> byte b"

text \<open>Go's \<open>\s\<close>: tab, newline, form feed, carriage return, space.\<close>

definition re_space :: "char \<Rightarrow> bool" where
  "re_space c \<longleftrightarrow> byte c = 9 \<or> byte c = 10 \<or> byte c = 12 \<or> byte c = 13 \<or> byte c = 32"

definition not_at_space :: "char \<Rightarrow> bool" where
  "not_at_space c \<longleftrightarrow> c \<noteq> CHR ''@'' \<and> \<not> re_space c"

definition e164Pattern :: rexp where
  "e164Pattern =
     Cat (Chr (CHR ''+''))
       (Cat (Cls (in_range (CHR ''1'') (CHR ''9'')))
         (Between 6 14 (Cls (in_range (CHR ''0'') (CHR ''9'')))))"

definition emailPattern :: rexp where
  "emailPattern =
     Cat (Plus1 (Cls not_at_space))
       (Cat (Chr (CHR ''@''))
         (Cat (Plus1 (Cls not_at_space))
           (Cat (Chr (CHR ''.'')) (Plus1 (Cls not_at_space)))))"

definition validateRecipient :: "channel \<Rightarrow> string \<Rightarrow> field_error list" where
  "validateRecipient ch rcpt =
     (if rcpt = [] then [field_err ''recipient'' [Plain ''required'']]
      else if ch = ChannelSMS then
        (if \<not> matches e164Pattern rcpt
         then [field_err ''recipient''
                [Plain ''must be an E.164 phone number, e.g. +905551234567'']]
         else [])
      else if ch = ChannelEmail then
        (if \<not> matches emailPattern rcpt
         then [field_err ''recipient'' [Plain ''must be an email address'']]
         else [])
      else [])"

definition validateContent :: "channel \<Rightarrow> string \<Rightarrow> field_error list" where
  "validateContent ch body =
     (if body = [] then [field_err ''content'' [Plain ''required'']]
      else if ch = ChannelSMS then
        (if rune_count body > smsMaxRunes
         then [field_err ''content''
                [Plain ''sms content exceeds '', Plain (itoa (int smsMaxRunes)), Plain '' characters'']]
         else [])
      else if ch = ChannelPush then
        (if length body > pushMaxBytes
         then [field_err ''content''
                [Plain ''push content exceeds '', Plain (itoa (int pushMaxBytes)), Plain '' bytes'']]
         else [])
      else if ch = ChannelEmail then
        (if length body > emailMaxBytes
         then [field_err ''content''
                [Plain ''email content exceeds '', Plain (itoa (int emailMaxBytes)), Plain '' bytes'']]
         else [])
      else [])"

definition ValidateNew :: "notification \<Rightarrow> time \<Rightarrow> error option" where
  "ValidateNew n now =
     (let errs =
        (if \<not> Channel_Valid (channel n)
         then [field_err ''channel'' [Plain ''unknown channel '', Quoted (channel n)]] else []) @
        (if \<not> Priority_Valid (priority n)
         then [field_err ''priority'' [Plain ''unknown priority '', Quoted (priority n)]] else []) @
        validateRecipient (channel n) (recipient n) @
        validateContent (channel n) (content n) @
        (case scheduled_at n of
           Some t \<Rightarrow>
             (if \<not> now < t then [field_err ''scheduled_at'' [Plain ''must be in the future'']]
              else [])
         | None \<Rightarrow> [])
      in if errs \<noteq> [] then Some (ValidationErrors errs) else None)"

section \<open>Templates (template.go)\<close>

record template =
  t_id :: uuid
  t_name :: string
  t_channel :: channel
  t_body :: string
  t_created_at :: time
  t_updated_at :: time

definition name_head :: "char \<Rightarrow> bool" where
  "name_head c \<longleftrightarrow> in_range (CHR ''a'') (CHR ''z'') c \<or> in_range (CHR ''0'') (CHR ''9'') c"

definition name_tail :: "char \<Rightarrow> bool" where
  "name_tail c \<longleftrightarrow> name_head c \<or> c = CHR ''_'' \<or> c = CHR ''-''"

definition templateNamePattern :: rexp where
  "templateNamePattern = Cat (Cls name_head) (Between 1 63 (Cls name_tail))"

definition ValidateNewTemplate :: "template \<Rightarrow> error option" where
  "ValidateNewTemplate t =
     (let errs =
        (if \<not> matches templateNamePattern (t_name t)
         then [field_err ''name''
                [Plain ''must be 2-64 chars of lowercase letters, digits, hyphen or underscore'']]
         else []) @
        (if \<not> Channel_Valid (t_channel t)
         then [field_err ''channel'' [Plain ''unknown channel'']] else []) @
        (if t_body t = [] then [field_err ''body'' [Plain ''required'']] else [])
      in if errs \<noteq> [] then Some (ValidationErrors errs) else None)"

section \<open>List queries (list.go)\<close>

record list_query =
  q_status :: string
  q_channel :: channel
  q_batch_id :: "uuid option"
  q_from :: "time option"
  q_to :: "time option"
  q_limit :: int
  q_cursor_created_at :: "time option"
  q_cursor_id :: "uuid option"

definition statusValid :: "string \<Rightarrow> bool" where
  "statusValid s = list_ex (\<lambda>known. s = status_string known) allStatuses"

definition ListQuery_Validate :: "list_query \<Rightarrow> error option" where
  "ListQuery_Validate q =
     (let errs =
        (if q_status q \<noteq> [] \<and> \<not> statusValid (q_status q)
         then [field_err ''status'' [Plain ''unknown status '', Quoted (q_status q)]] else []) @
        (if q_channel q \<noteq> [] \<and> \<not> Channel_Valid (q_channel q)
         then [field_err ''channel'' [Plain ''unknown channel '', Quoted (q_channel q)]] else []) @
        (case (q_from q, q_to q) of
           (Some f, Some t) \<Rightarrow>
             (if t < f then [field_err ''to'' [Plain ''must not precede from'']] else [])
         | _ \<Rightarrow> [])
      in if errs \<noteq> [] then Some (ValidationErrors errs) else None)"

end
