(* ===== verification/Validation.thy ===== *)
theory Validation
  imports Domain
begin

text \<open>
  What the validation of internal/domain accepts, without patterns or error lists: the
  specification predicates \<open>valid_phone\<close>, \<open>valid_email\<close>, \<open>valid_name\<close>, \<open>recipient_ok\<close>,
  \<open>content_ok\<close>, \<open>new_ok\<close>, and the theorems that \<open>ValidateNew\<close>, \<open>ValidateNewTemplate\<close> and
  \<open>ListQuery_Validate\<close> decide them and name exactly the failing fields.
\<close>

section \<open>The patterns\<close>

definition digit :: "char \<Rightarrow> bool" where
  "digit = in_range (CHR ''0'') (CHR ''9'')"

definition valid_phone :: "string \<Rightarrow> bool" where
  "valid_phone s \<longleftrightarrow>
     (\<exists>d ds. s = CHR ''+'' # d # ds \<and> digit d \<and> d \<noteq> CHR ''0'' \<and>
             6 \<le> length ds \<and> length ds \<le> 14 \<and> list_all digit ds)"

definition valid_email :: "string \<Rightarrow> bool" where
  "valid_email s \<longleftrightarrow>
     (\<exists>user host tld. s = user @ ''@'' @ host @ ''.'' @ tld \<and>
        (\<forall>part \<in> {user, host, tld}. part \<noteq> [] \<and> list_all not_at_space part))"

definition valid_name :: "string \<Rightarrow> bool" where
  "valid_name s \<longleftrightarrow>
     2 \<le> length s \<and> length s \<le> 64 \<and> name_head (hd s) \<and> list_all name_tail (tl s)"

lemma in_range_19: "in_range (CHR ''1'') (CHR ''9'') d \<longleftrightarrow> digit d \<and> d \<noteq> CHR ''0''"
proof -
  have "byte d = byte (CHR ''0'') \<longleftrightarrow> d = CHR ''0''"
    by (simp only: of_char_eq_iff)
  then show ?thesis by (auto simp: digit_def in_range_def)
qed

lemma e164Pattern_iff: "matches e164Pattern s \<longleftrightarrow> valid_phone s"
  by (auto simp: e164Pattern_def valid_phone_def matches_iff denotes_Cat_Chr denotes_Cat_Cls
      denotes_Between_Cls in_range_19 digit_def [symmetric])

lemma emailPattern_iff: "matches emailPattern s \<longleftrightarrow> valid_email s"
  by (fastforce simp: emailPattern_def valid_email_def re.match_Cat re.match_Chr
      re.match_Plus1_Cls)

lemma templateNamePattern_iff: "matches templateNamePattern s \<longleftrightarrow> valid_name s"
  by (cases s) (auto simp: templateNamePattern_def valid_name_def matches_iff denotes_Cat_Cls
      denotes_Between_Cls)

text \<open>An address with two at signs is refused.\<close>

lemma valid_email_one_at:
  assumes "valid_email s"
  shows "count_list s (CHR ''@'') = 1"
proof -
  have none: "list_all not_at_space part \<Longrightarrow> count_list part (CHR ''@'') = 0" for part
    by (auto simp: list_all_iff not_at_space_def count_list_0_iff)
  show ?thesis using assms by (auto simp: valid_email_def none)
qed

section \<open>Recipients and contents\<close>

definition recipient_ok :: "channel \<Rightarrow> string \<Rightarrow> bool" where
  "recipient_ok ch rcpt \<longleftrightarrow> rcpt \<noteq> [] \<and>
     (ch = ChannelSMS \<longrightarrow> valid_phone rcpt) \<and> (ch = ChannelEmail \<longrightarrow> valid_email rcpt)"

definition content_ok :: "channel \<Rightarrow> string \<Rightarrow> bool" where
  "content_ok ch body \<longleftrightarrow> body \<noteq> [] \<and>
     (ch = ChannelSMS \<longrightarrow> rune_count body \<le> 160) \<and>
     (ch = ChannelPush \<longrightarrow> length body \<le> 512) \<and>
     (ch = ChannelEmail \<longrightarrow> length body \<le> 102400)"

definition new_ok :: "notification \<Rightarrow> time \<Rightarrow> bool" where
  "new_ok n now \<longleftrightarrow> channel n \<in> set Channels \<and> Priority_Valid (priority n) \<and>
     recipient_ok (channel n) (recipient n) \<and> content_ok (channel n) (content n) \<and>
     (\<forall>t. scheduled_at n = Some t \<longrightarrow> now < t)"

lemma validateRecipient_fields:
  "map fe_field (validateRecipient ch r) = (if recipient_ok ch r then [] else [''recipient''])"
  by (auto simp: validateRecipient_def recipient_ok_def field_err_def e164Pattern_iff
      emailPattern_iff)

lemma validateContent_fields:
  "map fe_field (validateContent ch b) = (if content_ok ch b then [] else [''content''])"
  by (auto simp: validateContent_def content_ok_def field_err_def smsMaxRunes_def
      pushMaxBytes_def emailMaxBytes_def)

text \<open>The fields of a notification that fail, in the order of the checks.\<close>

definition bad_fields :: "notification \<Rightarrow> time \<Rightarrow> string list" where
  "bad_fields n now =
     (if channel n \<in> set Channels then [] else [''channel'']) @
     (if Priority_Valid (priority n) then [] else [''priority'']) @
     (if recipient_ok (channel n) (recipient n) then [] else [''recipient'']) @
     (if content_ok (channel n) (content n) then [] else [''content'']) @
     (if \<exists>t. scheduled_at n = Some t \<and> t \<le> now then [''scheduled_at''] else [])"

lemma bad_fields_Nil: "bad_fields n now = [] \<longleftrightarrow> new_ok n now"
  by (auto simp: bad_fields_def new_ok_def)

lemma ValidateNew_bad_fields:
  "(ValidateNew n now = None \<and> bad_fields n now = []) \<or>
   (\<exists>errs. ValidateNew n now = Some (ValidationErrors errs) \<and> errs \<noteq> [] \<and>
           map fe_field errs = bad_fields n now)"
proof -
  define errs where "errs =
    (if \<not> Channel_Valid (channel n)
     then [field_err ''channel'' [Plain ''unknown channel '', Quoted (channel n)]] else []) @
    (if \<not> Priority_Valid (priority n)
     then [field_err ''priority'' [Plain ''unknown priority '', Quoted (priority n)]] else []) @
    validateRecipient (channel n) (recipient n) @
    validateContent (channel n) (content n) @
    (case scheduled_at n of
       Some t \<Rightarrow>
         (if \<not> now < t then [field_err ''scheduled_at'' [Plain ''must be in the future'']] else [])
     | None \<Rightarrow> [])"
  have "map fe_field errs = bad_fields n now"
    by (auto simp: errs_def bad_fields_def validateRecipient_fields validateContent_fields
        field_err_def Channel_Valid_def split: option.splits)
  moreover have "ValidateNew n now = (if errs \<noteq> [] then Some (ValidationErrors errs) else None)"
    by (simp only: ValidateNew_def errs_def Let_def)
  ultimately show ?thesis by (cases "errs = []") auto
qed

lemma ValidateNew_None_iff: "ValidateNew n now = None \<longleftrightarrow> new_ok n now"
  using ValidateNew_bad_fields [of n now] bad_fields_Nil [of n now] by fastforce

lemma ValidateNew_SomeE:
  assumes "ValidateNew n now = Some e"
  obtains errs where "e = ValidationErrors errs" "errs \<noteq> []" "map fe_field errs = bad_fields n now"
  using ValidateNew_bad_fields [of n now] assms by auto

text \<open>Validation does not read the identity or the bookkeeping fields.\<close>

lemma new_ok_cong:
  assumes "channel n = channel m" "priority n = priority m" "recipient n = recipient m"
    "content n = content m" "scheduled_at n = scheduled_at m"
  shows "new_ok n t \<longleftrightarrow> new_ok m t"
  using assms by (simp add: new_ok_def)

section \<open>Templates and list queries\<close>

lemma ValidateNewTemplate_None_iff:
  "ValidateNewTemplate t = None \<longleftrightarrow>
     valid_name (t_name t) \<and> t_channel t \<in> set Channels \<and> t_body t \<noteq> []"
  by (simp add: ValidateNewTemplate_def templateNamePattern_iff Channel_Valid_def)

lemma ValidateNewTemplate_Some:
  "ValidateNewTemplate t = Some e \<Longrightarrow> \<exists>v. e = ValidationErrors v \<and> v \<noteq> []"
  by (auto simp: ValidateNewTemplate_def Let_def split: if_splits)

lemma statusValid_iff: "statusValid s \<longleftrightarrow> s \<in> range status_string"
  by (auto simp: statusValid_def list_ex_iff)

definition query_ok :: "list_query \<Rightarrow> bool" where
  "query_ok q \<longleftrightarrow>
     (q_status q = [] \<or> q_status q \<in> range status_string) \<and>
     (q_channel q = [] \<or> q_channel q \<in> set Channels) \<and>
     (\<forall>f t. q_from q = Some f \<longrightarrow> q_to q = Some t \<longrightarrow> f \<le> t)"

lemma ListQuery_Validate_None_iff: "ListQuery_Validate q = None \<longleftrightarrow> query_ok q"
  by (auto simp: ListQuery_Validate_def query_ok_def statusValid_iff Channel_Valid_def
      split: option.splits)

lemma ListQuery_Validate_Some:
  "ListQuery_Validate q = Some e \<Longrightarrow> \<exists>v. e = ValidationErrors v \<and> v \<noteq> []"
  by (auto simp: ListQuery_Validate_def Let_def split: if_splits)

text \<open>The limit on SMS content counts characters, not bytes.\<close>

lemma sms_limit_counts_characters:
  assumes "list_all scalar ns" and "ns \<noteq> []"
  shows "validateContent ''sms'' (concat (map utf8_encode ns)) = [] \<longleftrightarrow> length ns \<le> 160"
proof -
  have "concat (map utf8_encode ns) \<noteq> []" using assms(2) by (cases ns) auto
  with rune_count_encode [OF assms(1)] show ?thesis
    by (simp add: validateContent_def smsMaxRunes_def)
qed

end
