(* ===== verification/Database.thy ===== *)
theory Database
  imports Validation
begin

text \<open>
  The tables of internal/storage/postgres (migrations and control.go) and the SQL statements that
  the repositories send, each as a function of the server's clock and the database. A statement
  is atomic: it returns its result and the new database, or an error and the same database. The
  list of rows is the table in storage order, which is arbitrary; where SQL leaves an order open
  (\<open>RETURNING\<close>, ties of an \<open>ORDER BY\<close>) the model uses storage order and no theorem depends on it.
\<close>

record worker_control =
  wc_paused :: bool
  wc_provider_url :: string
  wc_updated_at :: time

record database =
  notifications :: "notification list"
  templates :: "template list"
  control :: "worker_control option"

type_synonym 'a stmt = "time \<Rightarrow> database \<Rightarrow> 'a result \<times> database"

definition find_row :: "uuid \<Rightarrow> database \<Rightarrow> notification option" where
  "find_row i d = find_by nid i (notifications d)"

section \<open>Columns\<close>

text \<open>
  A TEXT parameter must be well-formed UTF-8 without a zero byte; the server refuses others with
  \<open>22021\<close>. In a text for humans the literal bytes between two chunks of another kind count
  together; quoted strings, identifiers and foreign texts are taken to be well formed.
\<close>

definition pg_text :: "string \<Rightarrow> bool" where
  "pg_text s \<longleftrightarrow> utf8_valid s \<and> list_all (\<lambda>c. byte c \<noteq> 0) s"

fun pg_run :: "string \<Rightarrow> gotext \<Rightarrow> bool" where
  "pg_run acc [] = pg_text acc"
| "pg_run acc (Plain s # t) = pg_run (acc @ s) t"
| "pg_run acc (_ # t) = (pg_text acc \<and> pg_run [] t)"

definition pg_gotext :: "gotext \<Rightarrow> bool" where
  "pg_gotext t = pg_run [] t"

abbreviation invalid_text :: "'a result" where
  "invalid_text \<equiv> Inl (PgError ''22021'' [])"

text \<open>A TIMESTAMPTZ parameter is sent in microseconds; the nanoseconds below are cut off.\<close>

definition timestamptz :: "time \<Rightarrow> time" where
  "timestamptz t = t - t mod 1000"

section \<open>Inserting notifications\<close>

text \<open>The INSERT and the COPY name eleven columns; the other four take their defaults.\<close>

definition in_columns :: "notification \<Rightarrow> notification" where
  "in_columns n =
     n\<lparr>scheduled_at := map_option timestamptz (scheduled_at n),
       created_at := timestamptz (created_at n), updated_at := timestamptz (updated_at n)\<rparr>"

definition inserted :: "notification \<Rightarrow> notification" where
  "inserted n =
     (in_columns n)\<lparr>attempts := 0, last_error := None, provider_message_id := None, sent_at := None\<rparr>"

definition texts_ok :: "notification \<Rightarrow> bool" where
  "texts_ok n \<longleftrightarrow> pg_text (recipient n) \<and> pg_text (content n) \<and>
     (case idempotency_key n of None \<Rightarrow> True | Some k \<Rightarrow> pg_text k)"

definition insert_row :: "notification \<Rightarrow> notification list \<Rightarrow> notification list result" where
  "insert_row n rows =
     (if \<not> Channel_Valid (channel n) \<or> \<not> Priority_Valid (priority n)
      then Inl (PgError ''22P02'' [])
      else if \<not> texts_ok n then invalid_text
      else if find_by nid (nid n) rows \<noteq> None
      then Inl (PgError ''23505'' ''notifications_pkey'')
      else if idempotency_key n \<noteq> None \<and> find_by idempotency_key (idempotency_key n) rows \<noteq> None
      then Inl (PgError ''23505'' ''ux_notifications_idem'')
      else Inr (rows @ [inserted n]))"

fun copy_rows :: "notification list \<Rightarrow> notification list \<Rightarrow> notification list result" where
  "copy_rows [] rows = Inr rows"
| "copy_rows (n # ns) rows =
     (case insert_row n rows of Inl e \<Rightarrow> Inl e | Inr rows' \<Rightarrow> copy_rows ns rows')"

definition sql_insert :: "notification \<Rightarrow> unit stmt" where
  "sql_insert n t d =
     (case insert_row n (notifications d) of
        Inl e \<Rightarrow> (Inl e, d)
      | Inr rows \<Rightarrow> (Inr (), d\<lparr>notifications := rows\<rparr>))"

definition sql_copy :: "notification list \<Rightarrow> unit stmt" where
  "sql_copy ns t d =
     (case copy_rows ns (notifications d) of
        Inl e \<Rightarrow> (Inl e, d)
      | Inr rows \<Rightarrow> (Inr (), d\<lparr>notifications := rows\<rparr>))"

section \<open>Reading notifications\<close>

definition sql_select_id :: "uuid \<Rightarrow> notification stmt" where
  "sql_select_id i t d =
     (case find_row i d of None \<Rightarrow> Inl ErrNoRows | Some n \<Rightarrow> Inr n, d)"

definition sql_select_key :: "string \<Rightarrow> notification stmt" where
  "sql_select_key k t d =
     (if \<not> pg_text k then invalid_text
      else case find_by idempotency_key (Some k) (notifications d) of
        None \<Rightarrow> Inl ErrNoRows | Some n \<Rightarrow> Inr n, d)"

definition sql_existing_keys :: "string list \<Rightarrow> (string \<times> uuid) list stmt" where
  "sql_existing_keys keys t d =
     (if \<not> list_all pg_text keys then invalid_text
      else Inr (List.map_filter
        (\<lambda>r. case idempotency_key r of
               None \<Rightarrow> None
             | Some k \<Rightarrow> if k \<in> set keys then Some (k, nid r) else None)
        (notifications d)), d)"

definition list_matches :: "list_query \<Rightarrow> notification \<Rightarrow> bool" where
  "list_matches q r \<longleftrightarrow>
     (q_status q \<noteq> [] \<longrightarrow> status_string (status r) = q_status q) \<and>
     (q_channel q \<noteq> [] \<longrightarrow> channel r = q_channel q) \<and>
     (case q_batch_id q of None \<Rightarrow> True | Some b \<Rightarrow> batch_id r = Some b) \<and>
     (case q_from q of None \<Rightarrow> True | Some f \<Rightarrow> timestamptz f \<le> created_at r) \<and>
     (case q_to q of None \<Rightarrow> True | Some u \<Rightarrow> created_at r \<le> timestamptz u) \<and>
     (case (q_cursor_created_at q, q_cursor_id q) of
        (Some c, Some i) \<Rightarrow> (created_at r, nid r) < (timestamptz c, i)
      | _ \<Rightarrow> True)"

definition newest_first :: "notification list \<Rightarrow> notification list" where
  "newest_first rows = rev (sort_key (\<lambda>r. (created_at r, nid r)) rows)"

definition sql_list :: "list_query \<Rightarrow> notification list stmt" where
  "sql_list q t d =
     (if q_status q \<noteq> [] \<and> q_status q \<notin> status_string ` set allStatuses \<or>
         q_channel q \<noteq> [] \<and> \<not> Channel_Valid (q_channel q)
      then Inl (PgError ''22P02'' [])
      else if q_limit q < 0 then Inl (PgError ''2201W'' [])
      else Inr (take (nat (q_limit q)) (newest_first (filter (list_matches q) (notifications d)))),
      d)"

definition sql_count_statuses :: "status_count list stmt" where
  "sql_count_statuses t d =
     (Inr (map (\<lambda>(c, s). \<lparr>sc_channel = c, sc_status = s,
                sc_count = length (filter (\<lambda>r. channel r = c \<and> status r = s) (notifications d))\<rparr>)
            (remdups (map (\<lambda>r. (channel r, status r)) (notifications d)))), d)"

section \<open>Guarded updates\<close>

text \<open>An UPDATE of the rows with condition \<open>P\<close>: the rows it returns, and the new table.\<close>

definition update_returning ::
  "(notification \<Rightarrow> bool) \<Rightarrow> (notification \<Rightarrow> notification) \<Rightarrow> database \<Rightarrow>
   notification list \<times> database" where
  "update_returning P f d =
     (map f (filter P (notifications d)), d\<lparr>notifications := update_where P f (notifications d)\<rparr>)"

definition sql_update_status :: "uuid \<Rightarrow> status \<Rightarrow> string list \<Rightarrow> nat stmt" where
  "sql_update_status i to allowed t d =
     (let (rows, d') =
        update_returning (\<lambda>r. nid r = i \<and> status_string (status r) \<in> set allowed)
          (\<lambda>r. r\<lparr>status := to, updated_at := t\<rparr>) d
      in (Inr (length rows), d'))"

definition max_int4 :: int where "max_int4 = 2147483647"

definition sql_claim :: "uuid \<Rightarrow> string list \<Rightarrow> notification stmt" where
  "sql_claim i allowed t d =
     (let P = (\<lambda>r. nid r = i \<and> status_string (status r) \<in> set allowed) in
      if list_ex (\<lambda>r. P r \<and> attempts r = max_int4) (notifications d)
      then (Inl (PgError ''22003'' []), d)
      else
        let (rows, d') =
          update_returning P
            (\<lambda>r. r\<lparr>status := StatusProcessing, attempts := attempts r + 1, updated_at := t\<rparr>) d
        in (case rows of [] \<Rightarrow> Inl ErrNoRows | r # _ \<Rightarrow> Inr r, d'))"

definition sql_record_outcome :: "uuid \<Rightarrow> status \<Rightarrow> gotext \<Rightarrow> nat stmt" where
  "sql_record_outcome i to err t d =
     (if \<not> pg_gotext err then (invalid_text, d)
      else let (rows, d') =
        update_returning (\<lambda>r. nid r = i \<and> status r = StatusProcessing)
          (\<lambda>r. r\<lparr>status := to, last_error := Some err, updated_at := t\<rparr>) d
      in (Inr (length rows), d'))"

definition sql_mark_sent :: "uuid \<Rightarrow> string \<Rightarrow> time \<Rightarrow> nat stmt" where
  "sql_mark_sent i pmid sentAt t d =
     (if \<not> pg_text pmid then (invalid_text, d)
      else let (rows, d') =
        update_returning (\<lambda>r. nid r = i \<and> status r = StatusProcessing)
          (\<lambda>r. r\<lparr>status := StatusSent, provider_message_id := Some pmid,
                 sent_at := Some (timestamptz sentAt), updated_at := t\<rparr>) d
      in (Inr (length rows), d'))"

definition sql_mark_queued_bulk :: "uuid list \<Rightarrow> unit stmt" where
  "sql_mark_queued_bulk ids t d =
     (Inr (), snd (update_returning (\<lambda>r. nid r \<in> set ids \<and> status r = StatusPending)
        (\<lambda>r. r\<lparr>status := StatusQueued, updated_at := t\<rparr>) d))"

definition sql_touch_queued :: "uuid \<Rightarrow> unit stmt" where
  "sql_touch_queued i t d =
     (Inr (), snd (update_returning (\<lambda>r. nid r = i \<and> status r = StatusQueued)
        (\<lambda>r. r\<lparr>updated_at := t\<rparr>) d))"

section \<open>The scheduler's statements\<close>

text \<open>
  \<open>SELECT id ... ORDER BY key LIMIT n FOR UPDATE SKIP LOCKED\<close>: rows that another transaction
  has locked are passed over and do not count toward the limit.
\<close>

definition select_ids ::
  "(notification \<Rightarrow> bool) \<Rightarrow> (notification \<Rightarrow> time) \<Rightarrow> int \<Rightarrow> (uuid \<Rightarrow> bool) \<Rightarrow>
   notification list \<Rightarrow> uuid list" where
  "select_ids P key limit locked rows =
     map nid (take (nat limit) (sort_key key (filter (\<lambda>r. P r \<and> \<not> locked (nid r)) rows)))"

definition due :: "duration \<Rightarrow> time \<Rightarrow> notification \<Rightarrow> bool" where
  "due staleAfter t r \<longleftrightarrow>
     status r = StatusScheduled \<and> (case scheduled_at r of None \<Rightarrow> False | Some s \<Rightarrow> s \<le> t) \<or>
     status r = StatusPending \<and> created_at r < t - staleAfter"

definition sql_claim_due :: "duration \<Rightarrow> int \<Rightarrow> (uuid \<Rightarrow> bool) \<Rightarrow> notification list stmt" where
  "sql_claim_due staleAfter limit locked t d =
     (let ids = select_ids (due staleAfter t) created_at limit locked (notifications d);
          (rows, d') =
        update_returning (\<lambda>r. nid r \<in> set ids)
          (\<lambda>r. r\<lparr>status := StatusQueued, updated_at := t\<rparr>) d
      in (Inr rows, d'))"

definition stale_in :: "status \<Rightarrow> duration \<Rightarrow> time \<Rightarrow> notification \<Rightarrow> bool" where
  "stale_in s staleAfter t r \<longleftrightarrow> status r = s \<and> updated_at r < t - staleAfter"

definition sql_recover_stale ::
  "duration \<Rightarrow> int \<Rightarrow> (uuid \<Rightarrow> bool) \<Rightarrow> notification list stmt" where
  "sql_recover_stale staleAfter limit locked t d =
     (let ids = select_ids (stale_in StatusProcessing staleAfter t) updated_at limit locked
                  (notifications d);
          (rows, d') =
        update_returning (\<lambda>r. nid r \<in> set ids)
          (\<lambda>r. r\<lparr>status := StatusRetrying,
                 last_error := Some [Plain ''recovered from stale processing''],
                 updated_at := t\<rparr>) d
      in (Inr rows, d'))"

definition sql_list_stale_queued :: "duration \<Rightarrow> int \<Rightarrow> notification list stmt" where
  "sql_list_stale_queued staleAfter limit t d =
     (Inr (take (nat limit)
        (sort_key updated_at (filter (stale_in StatusQueued staleAfter t) (notifications d)))), d)"

section \<open>Templates and worker control\<close>

definition sql_insert_template :: "template \<Rightarrow> unit stmt" where
  "sql_insert_template tm t d =
     (if \<not> Channel_Valid (t_channel tm) then (Inl (PgError ''22P02'' []), d)
      else if \<not> pg_text (t_name tm) \<or> \<not> pg_text (t_body tm) then (invalid_text, d)
      else if find_by t_id (t_id tm) (templates d) \<noteq> None
      then (Inl (PgError ''23505'' ''notification_templates_pkey''), d)
      else if find_by t_name (t_name tm) (templates d) \<noteq> None
      then (Inl (PgError ''23505'' ''notification_templates_name_key''), d)
      else (Inr (), d\<lparr>templates := templates d @
        [tm\<lparr>t_created_at := timestamptz (t_created_at tm),
            t_updated_at := timestamptz (t_updated_at tm)\<rparr>]\<rparr>))"

definition sql_select_template :: "string \<Rightarrow> template stmt" where
  "sql_select_template name t d =
     (if \<not> pg_text name then invalid_text
      else case find_by t_name name (templates d) of None \<Rightarrow> Inl ErrNoRows | Some tm \<Rightarrow> Inr tm, d)"

definition sql_list_templates :: "template list stmt" where
  "sql_list_templates t d = (Inr (rev (sort_key t_created_at (templates d))), d)"

definition sql_read_control :: "worker_control stmt" where
  "sql_read_control t d = (case control d of None \<Rightarrow> Inl ErrNoRows | Some c \<Rightarrow> Inr c, d)"

definition sql_set_paused :: "bool \<Rightarrow> unit stmt" where
  "sql_set_paused p t d =
     (Inr (), d\<lparr>control := map_option (\<lambda>c. c\<lparr>wc_paused := p, wc_updated_at := t\<rparr>) (control d)\<rparr>)"

definition sql_set_provider :: "string \<Rightarrow> unit stmt" where
  "sql_set_provider u t d =
     (if \<not> pg_text u then (invalid_text, d)
      else (Inr (), d\<lparr>control :=
        map_option (\<lambda>c. c\<lparr>wc_provider_url := u, wc_updated_at := t\<rparr>) (control d)\<rparr>))"

definition sql_ensure_control :: "unit stmt" where
  "sql_ensure_control t d =
     (Inr (), d\<lparr>control :=
        (case control d of
           None \<Rightarrow> Some \<lparr>wc_paused = False, wc_provider_url = [], wc_updated_at = t\<rparr>
         | Some c \<Rightarrow> Some c)\<rparr>)"

end
