(* ===== verification/Lifecycle.thy ===== *)
theory Lifecycle
  imports Database
begin

text \<open>
  The contract between the SQL statements and the state machine of internal/domain: what one
  statement may do to a row (\<open>row_step\<close>), what any number of statements may do (\<open>row_evolves\<close>,
  \<open>db_evolves\<close>), the invariant of the tables (\<open>db_ok\<close>), and the lemmas that every statement
  keeps both. The locale \<open>transition_store\<close> draws the consequences for arbitrary interleavings.
\<close>

section \<open>One statement, one row\<close>

definition same_identity :: "notification \<Rightarrow> notification \<Rightarrow> bool" where
  "same_identity r r' \<longleftrightarrow>
     nid r' = nid r \<and> batch_id r' = batch_id r \<and> recipient r' = recipient r \<and>
     channel r' = channel r \<and> content r' = content r \<and> priority r' = priority r \<and>
     idempotency_key r' = idempotency_key r \<and> scheduled_at r' = scheduled_at r \<and>
     created_at r' = created_at r"

text \<open>
  Either the status and the attempt count stay, or the status makes one legal transition and the
  count grows by one exactly when the new status is processing. A terminal row does not change.
\<close>

definition row_step :: "notification \<Rightarrow> notification \<Rightarrow> bool" where
  "row_step r r' \<longleftrightarrow> same_identity r r' \<and>
     (status r' = status r \<and> attempts r' = attempts r \<or>
      CanTransition (status r) (status r') \<and>
        attempts r' = attempts r + (if status r' = StatusProcessing then 1 else 0)) \<and>
     (terminal (status r) \<longrightarrow> r' = r)"

abbreviation row_evolves :: "notification \<Rightarrow> notification \<Rightarrow> bool" where
  "row_evolves \<equiv> row_step\<^sup>*\<^sup>*"

lemma same_identity_refl [simp]: "same_identity r r"
  by (simp add: same_identity_def)

lemma same_identity_trans: "same_identity a b \<Longrightarrow> same_identity b c \<Longrightarrow> same_identity a c"
  by (simp add: same_identity_def)

lemma row_step_refl [simp]: "row_step r r"
  by (simp add: row_step_def)

lemma row_step_identity: "row_step r r' \<Longrightarrow> same_identity r r'"
  by (simp add: row_step_def)

lemma row_step_status: "row_step r r' \<Longrightarrow> status r' = status r \<or> CanTransition (status r) (status r')"
  by (auto simp: row_step_def)

lemma row_step_attempts: "row_step r r' \<Longrightarrow> attempts r \<le> attempts r'"
  by (auto simp: row_step_def)

lemma row_step_terminal: "row_step r r' \<Longrightarrow> terminal (status r) \<Longrightarrow> r' = r"
  by (simp add: row_step_def)

lemma row_evolves_identity: "row_evolves r r' \<Longrightarrow> same_identity r r'"
  by (induction rule: rtranclp_induct) (auto dest: row_step_identity intro: same_identity_trans)

lemma row_evolves_attempts: "row_evolves r r' \<Longrightarrow> attempts r \<le> attempts r'"
  by (induction rule: rtranclp_induct) (auto dest: row_step_attempts)

lemma row_evolves_terminal:
  assumes "row_evolves r r'" and "terminal (status r)"
  shows "r' = r"
  using assms by (induction rule: rtranclp_induct) (auto dest: row_step_terminal)

lemma row_evolves_status: "row_evolves r r' \<Longrightarrow> CanTransition\<^sup>*\<^sup>* (status r) (status r')"
proof (induction rule: rtranclp_induct)
  case (step y z)
  then show ?case using row_step_status [of y z] by (metis rtranclp.rtrancl_into_rtrancl)
qed simp

section \<open>One statement, the whole table\<close>

definition db_step :: "database \<Rightarrow> database \<Rightarrow> bool" where
  "db_step d d' \<longleftrightarrow>
     (\<forall>i r. find_row i d = Some r \<longrightarrow> (\<exists>r'. find_row i d' = Some r' \<and> row_step r r'))"

definition db_evolves :: "database \<Rightarrow> database \<Rightarrow> bool" where
  "db_evolves d d' \<longleftrightarrow>
     (\<forall>i r. find_row i d = Some r \<longrightarrow> (\<exists>r'. find_row i d' = Some r' \<and> row_evolves r r'))"

lemma db_step_refl [simp]: "db_step d d"
  by (auto simp: db_step_def)

lemma db_evolves_refl [simp]: "db_evolves d d"
  by (auto simp: db_evolves_def)

lemma db_step_evolves: "db_step d d' \<Longrightarrow> db_evolves d d'"
  by (fastforce simp: db_step_def db_evolves_def)

lemma db_evolves_trans [trans]: "db_evolves a b \<Longrightarrow> db_evolves b c \<Longrightarrow> db_evolves a c"
  unfolding db_evolves_def by (meson rtranclp_trans)

lemma db_evolvesD:
  assumes "db_evolves d d'" "find_row i d = Some r"
  obtains r' where "find_row i d' = Some r'" "row_evolves r r'"
  using assms by (auto simp: db_evolves_def)

lemma db_evolves_terminal:
  "db_evolves d d' \<Longrightarrow> find_row i d = Some r \<Longrightarrow> terminal (status r) \<Longrightarrow> find_row i d' = Some r"
  by (metis db_evolvesD row_evolves_terminal)

lemma db_step_same_rows [intro]: "notifications d' = notifications d \<Longrightarrow> db_step d d'"
  by (auto simp: db_step_def find_row_def)

section \<open>The invariant of the tables\<close>

definition unstarted :: "status set" where
  "unstarted = {StatusPending, StatusScheduled, StatusQueued, StatusCancelled}"

definition row_ok :: "notification \<Rightarrow> bool" where
  "row_ok r \<longleftrightarrow>
     Channel_Valid (channel r) \<and> Priority_Valid (priority r) \<and>
     0 \<le> attempts r \<and> attempts r \<le> max_int4 \<and>
     (attempts r = 0 \<longleftrightarrow> status r \<in> unstarted) \<and>
     timestamptz (created_at r) = created_at r \<and>
     (status r = StatusScheduled \<longrightarrow> scheduled_at r \<noteq> None) \<and>
     (sent_at r \<noteq> None \<longleftrightarrow> status r = StatusSent) \<and>
     (provider_message_id r \<noteq> None \<longleftrightarrow> status r = StatusSent) \<and>
     (status r \<in> {StatusRetrying, StatusFailed} \<longrightarrow> last_error r \<noteq> None)"

definition template_ok :: "template list \<Rightarrow> bool" where
  "template_ok ts \<longleftrightarrow> distinct (map t_id ts) \<and> distinct (map t_name ts) \<and>
     (\<forall>t \<in> set ts. Channel_Valid (t_channel t))"

definition db_ok :: "database \<Rightarrow> bool" where
  "db_ok d \<longleftrightarrow>
     distinct (map nid (notifications d)) \<and>
     distinct (List.map_filter idempotency_key (notifications d)) \<and>
     (\<forall>r \<in> set (notifications d). row_ok r) \<and>
     template_ok (templates d)"

lemma db_ok_rowD: "db_ok d \<Longrightarrow> find_row i d = Some r \<Longrightarrow> row_ok r \<and> nid r = i"
  by (auto simp: db_ok_def find_row_def dest: find_by_SomeD)

lemma db_ok_whole: "db_ok d \<Longrightarrow> \<forall>r \<in> set (notifications d). timestamptz (created_at r) = created_at r"
  by (simp add: db_ok_def row_ok_def)

lemma db_ok_distinct: "db_ok d \<Longrightarrow> distinct (map nid (notifications d))"
  by (simp add: db_ok_def)

lemma find_row_iff:
  "db_ok d \<Longrightarrow> find_row i d = Some r \<longleftrightarrow> r \<in> set (notifications d) \<and> nid r = i"
  by (simp add: db_ok_def find_row_def find_by_unique)

lemma empty_db_ok: "db_ok \<lparr>notifications = [], templates = [], control = c\<rparr>"
  by (simp add: db_ok_def template_ok_def List.map_filter_simps)

section \<open>Updates\<close>

text \<open>The columns no UPDATE of the code touches.\<close>

definition keeps_identity :: "(notification \<Rightarrow> notification) \<Rightarrow> bool" where
  "keeps_identity f \<longleftrightarrow> (\<forall>r. same_identity r (f r))"

lemma keeps_identityD:
  assumes "keeps_identity f"
  shows "nid (f r) = nid r" "idempotency_key (f r) = idempotency_key r"
    "channel (f r) = channel r" "priority (f r) = priority r"
  using assms by (auto simp: keeps_identity_def same_identity_def)

lemma fst_update_returning [simp]:
  "fst (update_returning P f d) = map f (filter P (notifications d))"
  by (simp add: update_returning_def)

lemma templates_update_returning [simp]:
  "templates (snd (update_returning P f d)) = templates d"
  "control (snd (update_returning P f d)) = control d"
  by (simp_all add: update_returning_def)

lemma notifications_update_returning:
  "notifications (snd (update_returning P f d)) = update_where P f (notifications d)"
  by (simp add: update_returning_def)

lemma find_row_update:
  assumes "keeps_identity f"
  shows "find_row i (snd (update_returning P f d)) =
    map_option (\<lambda>r. if P r then f r else r) (find_row i d)"
  by (simp add: find_row_def notifications_update_returning find_by_update_where
      keeps_identityD [OF assms])

lemma db_step_update:
  assumes "keeps_identity f" and "\<And>r. P r \<Longrightarrow> row_step r (f r)"
  shows "db_step d (snd (update_returning P f d))"
  by (auto simp: db_step_def find_row_update [OF assms(1)] assms(2))

lemma map_filter_update_where:
  assumes "\<And>r. k (f r) = k r"
  shows "List.map_filter k (update_where P f xs) = List.map_filter k xs"
  using assms by (induction xs) (auto simp: List.map_filter_simps split: option.splits)

lemma db_ok_update:
  assumes ok: "db_ok d" and f: "keeps_identity f"
    and row: "\<And>r. P r \<Longrightarrow> r \<in> set (notifications d) \<Longrightarrow> row_ok r \<Longrightarrow> row_ok (f r)"
  shows "db_ok (snd (update_returning P f d))"
proof -
  have "row_ok r" if "r \<in> set (update_where P f (notifications d))" for r
    using that ok row by (auto simp: db_ok_def elim!: in_update_whereE)
  with ok show ?thesis
    by (simp add: db_ok_def notifications_update_returning map_filter_update_where
        keeps_identityD [OF f])
qed

text \<open>On a table with distinct identifiers an update by identifier meets one row.\<close>

lemma filter_by_id:
  assumes "db_ok d"
  shows "filter (\<lambda>r. nid r = i \<and> Q r) (notifications d) =
    (case find_row i d of None \<Rightarrow> [] | Some r \<Rightarrow> if Q r then [r] else [])"
  using filter_key_unique [OF db_ok_distinct [OF assms]] by (simp add: find_row_def)

section \<open>The statements\<close>

lemmas update_defs = sql_update_status_def sql_claim_def sql_record_outcome_def sql_mark_sent_def
  sql_mark_queued_bulk_def sql_touch_queued_def sql_claim_due_def sql_recover_stale_def

lemma keeps_identity_intros [simp]:
  "keeps_identity (\<lambda>r. r\<lparr>status := s, updated_at := t\<rparr>)"
  "keeps_identity (\<lambda>r. r\<lparr>updated_at := t\<rparr>)"
  "keeps_identity (\<lambda>r. r\<lparr>status := s, attempts := attempts r + 1, updated_at := t\<rparr>)"
  "keeps_identity (\<lambda>r. r\<lparr>status := s, last_error := e, updated_at := t\<rparr>)"
  "keeps_identity (\<lambda>r. r\<lparr>status := s, provider_message_id := p, sent_at := u, updated_at := t\<rparr>)"
  by (simp_all add: keeps_identity_def same_identity_def)

subsection \<open>Inserts\<close>

definition fresh_status :: "notification \<Rightarrow> bool" where
  "fresh_status n \<longleftrightarrow> status n = StatusPending \<or> status n = StatusScheduled \<and> scheduled_at n \<noteq> None"

lemma nid_inserted [simp]: "nid (inserted n) = nid n" "idempotency_key (inserted n) = idempotency_key n"
  by (simp_all add: inserted_def in_columns_def)

lemma timestamptz_idem [simp]: "timestamptz (timestamptz t) = timestamptz t"
proof -
  have "timestamptz t = 1000 * (t div 1000)" for t :: time
    unfolding timestamptz_def by (rule minus_mod_eq_mult_div)
  then show ?thesis by simp
qed

lemma timestamptz_0 [simp]: "timestamptz 0 = 0"
  by (simp add: timestamptz_def)

text \<open>The same notification, up to the nanoseconds that the columns cut off.\<close>

definition same_notification :: "notification \<Rightarrow> notification \<Rightarrow> bool" where
  "same_notification a b \<longleftrightarrow> same_identity (in_columns a) (in_columns b)"

lemma in_columns_idem [simp]: "in_columns (in_columns n) = in_columns n"
  by (cases n) (simp add: in_columns_def option.map_comp comp_def)

lemma in_columns_simps [simp]:
  "nid (in_columns n) = nid n" "status (in_columns n) = status n"
  "idempotency_key (in_columns n) = idempotency_key n"
  "in_columns (n\<lparr>status := s\<rparr>) = (in_columns n)\<lparr>status := s\<rparr>"
  by (simp_all add: in_columns_def)

lemma same_notification_refl [simp]: "same_notification n n"
  by (simp add: same_notification_def)

lemma same_identity_notification: "same_identity a b \<Longrightarrow> same_notification a b"
  by (simp add: same_notification_def same_identity_def in_columns_def)

lemma stored_notification: "same_identity (in_columns a) b \<Longrightarrow> same_notification a b"
  using same_identity_notification [of "in_columns a" b] by (simp add: same_notification_def)

lemma same_notification_trans:
  "same_notification a b \<Longrightarrow> same_notification b c \<Longrightarrow> same_notification a c"
  unfolding same_notification_def by (rule same_identity_trans)

lemma same_notification_fields:
  assumes "same_notification a b"
  shows "nid b = nid a" "idempotency_key b = idempotency_key a" "channel b = channel a"
    "priority b = priority a" "recipient b = recipient a" "content b = content a"
  using assms by (simp_all add: same_notification_def same_identity_def in_columns_def)

lemma insert_row_Inr:
  "insert_row n rows = Inr rows' \<longleftrightarrow>
     Channel_Valid (channel n) \<and> Priority_Valid (priority n) \<and> texts_ok n \<and>
     nid n \<notin> nid ` set rows \<and>
     (\<forall>k. idempotency_key n = Some k \<longrightarrow> Some k \<notin> idempotency_key ` set rows) \<and>
     rows' = rows @ [inserted n]"
  by (auto simp: insert_row_def find_by_None_iff')

lemma row_ok_inserted:
  "fresh_status n \<Longrightarrow> Channel_Valid (channel n) \<Longrightarrow> Priority_Valid (priority n) \<Longrightarrow> row_ok (inserted n)"
  by (auto simp: row_ok_def inserted_def in_columns_def fresh_status_def unstarted_def max_int4_def)

definition rows_ok :: "notification list \<Rightarrow> bool" where
  "rows_ok rows \<longleftrightarrow> distinct (map nid rows) \<and>
     distinct (List.map_filter idempotency_key rows) \<and> (\<forall>r \<in> set rows. row_ok r)"

lemma db_ok_rows: "db_ok d \<longleftrightarrow> rows_ok (notifications d) \<and> template_ok (templates d)"
  by (auto simp: db_ok_def rows_ok_def)

lemma set_map_filter: "set (List.map_filter k xs) = {y. Some y \<in> k ` set xs}"
  by (induction xs) (auto simp: List.map_filter_simps image_iff split: option.splits)

lemma map_filter_snoc:
  "List.map_filter k (xs @ [x]) = List.map_filter k xs @ (case k x of None \<Rightarrow> [] | Some y \<Rightarrow> [y])"
  by (induction xs) (auto simp: List.map_filter_simps split: option.splits)

lemma insert_row_ok:
  assumes "rows_ok rows" "insert_row n rows = Inr rows'" "fresh_status n"
  shows "rows_ok rows'"
  using assms row_ok_inserted [of n]
  by (auto simp: rows_ok_def insert_row_Inr map_filter_snoc set_map_filter split: option.splits)

lemma insert_row_find:
  assumes "insert_row n rows = Inr rows'" and "find_by nid i rows = Some r"
  shows "find_by nid i rows' = Some r"
  using assms by (auto simp: insert_row_Inr find_by_append)

lemma copy_rows_ok:
  "copy_rows ns rows = Inr rows' \<Longrightarrow> rows_ok rows \<Longrightarrow> (\<forall>n \<in> set ns. fresh_status n) \<Longrightarrow> rows_ok rows'"
  by (induction ns arbitrary: rows) (auto split: sum.splits intro: insert_row_ok)

lemma copy_rows_find:
  "copy_rows ns rows = Inr rows' \<Longrightarrow> find_by nid i rows = Some r \<Longrightarrow> find_by nid i rows' = Some r"
  by (induction ns arbitrary: rows) (auto split: sum.splits dest: insert_row_find)

lemma copy_rows_eq: "copy_rows ns rows = Inr rows' \<Longrightarrow> rows' = rows @ map inserted ns"
  by (induction ns arbitrary: rows) (fastforce simp: insert_row_Inr split: sum.splits)+

lemma sql_insert_step: "db_step d (snd (sql_insert n t d))"
  by (auto simp: sql_insert_def db_step_def find_row_def dest: insert_row_find split: sum.splits)

lemma sql_copy_step: "db_step d (snd (sql_copy ns t d))"
  by (auto simp: sql_copy_def db_step_def find_row_def dest: copy_rows_find split: sum.splits)

lemma sql_insert_ok [keeps]: "db_ok d \<Longrightarrow> fresh_status n \<Longrightarrow> db_ok (snd (sql_insert n t d))"
  by (auto simp: sql_insert_def db_ok_rows intro: insert_row_ok split: sum.splits)

lemma sql_copy_ok [keeps]:
  "db_ok d \<Longrightarrow> \<forall>n \<in> set ns. fresh_status n \<Longrightarrow> db_ok (snd (sql_copy ns t d))"
  by (auto simp: sql_copy_def db_ok_rows intro: copy_rows_ok split: sum.splits)

subsection \<open>Updates\<close>

lemma snd_update_status:
  "snd (sql_update_status i to allowed t d) =
   snd (update_returning (\<lambda>r. nid r = i \<and> status_string (status r) \<in> set allowed)
     (\<lambda>r. r\<lparr>status := to, updated_at := t\<rparr>) d)"
  by (simp add: sql_update_status_def split_def Let_def)

lemma row_step_status_update:
  "CanTransition (status r) s \<Longrightarrow> s \<noteq> StatusProcessing \<Longrightarrow> row_step r (r\<lparr>status := s, updated_at := t\<rparr>)"
  by (auto simp: row_step_def same_identity_def dest: terminal_no_transition)

lemma sql_update_status_step:
  assumes "\<And>s. s \<in> set src \<Longrightarrow> CanTransition s to" and "to \<noteq> StatusProcessing"
  shows "db_step d (snd (sql_update_status i to (map status_string src) t d))"
  unfolding snd_update_status using assms
  by (intro db_step_update) (auto intro!: row_step_status_update)

lemma sql_update_status_ok:
  assumes "db_ok d" and "set src \<subseteq> unstarted" and "to \<in> {StatusQueued, StatusCancelled}"
  shows "db_ok (snd (sql_update_status i to (map status_string src) t d))"
  unfolding snd_update_status using assms
  by (intro db_ok_update) (auto simp: row_ok_def unstarted_def)

lemma snd_claim:
  "snd (sql_claim i allowed t d) =
   (if \<exists>r \<in> set (notifications d). nid r = i \<and> status_string (status r) \<in> set allowed \<and>
        attempts r = max_int4
    then d
    else snd (update_returning (\<lambda>r. nid r = i \<and> status_string (status r) \<in> set allowed)
      (\<lambda>r. r\<lparr>status := StatusProcessing, attempts := attempts r + 1, updated_at := t\<rparr>) d))"
  by (auto simp: sql_claim_def split_def Let_def list_ex_iff)

lemma sql_claim_step:
  assumes "\<And>s. s \<in> set src \<Longrightarrow> CanTransition s StatusProcessing"
  shows "db_step d (snd (sql_claim i (map status_string src) t d))"
proof -
  have "row_step r (r\<lparr>status := StatusProcessing, attempts := attempts r + 1, updated_at := t\<rparr>)"
    if "CanTransition (status r) StatusProcessing" for r
    using that by (auto simp: row_step_def same_identity_def dest: terminal_no_transition)
  then show ?thesis
    unfolding snd_claim using assms by (auto intro!: db_step_update)
qed

lemma sql_claim_ok:
  assumes "db_ok d" and "\<And>s. s \<in> set src \<Longrightarrow> CanTransition s StatusProcessing"
  shows "db_ok (snd (sql_claim i (map status_string src) t d))"
proof (cases "\<exists>r \<in> set (notifications d). nid r = i \<and>
    status_string (status r) \<in> set (map status_string src) \<and> attempts r = max_int4")
  case False
  have row: "row_ok (r\<lparr>status := StatusProcessing, attempts := attempts r + 1, updated_at := t\<rparr>)"
    if "row_ok r" "CanTransition (status r) StatusProcessing" "attempts r \<noteq> max_int4" for r
    using that by (cases "status r") (simp_all add: row_ok_def unstarted_def CanTransition_iff)
  show ?thesis
    unfolding snd_claim if_not_P [OF False] using assms False
    by (intro db_ok_update row) auto
next
  case True
  with assms(1) show ?thesis unfolding snd_claim by (simp only: if_True)
qed

lemma snd_record_outcome:
  "snd (sql_record_outcome i to err t d) =
   (if pg_gotext err then
      snd (update_returning (\<lambda>r. nid r = i \<and> status r = StatusProcessing)
        (\<lambda>r. r\<lparr>status := to, last_error := Some err, updated_at := t\<rparr>) d)
    else d)"
  by (simp add: sql_record_outcome_def split_def Let_def)

lemma sql_record_outcome_step:
  "to \<in> {StatusRetrying, StatusFailed} \<Longrightarrow> db_step d (snd (sql_record_outcome i to err t d))"
  unfolding snd_record_outcome
  by (auto intro!: db_step_update simp: row_step_def same_identity_def CanTransition_iff terminal_iff)

lemma sql_record_outcome_ok:
  "db_ok d \<Longrightarrow> to \<in> {StatusRetrying, StatusFailed} \<Longrightarrow> db_ok (snd (sql_record_outcome i to err t d))"
  unfolding snd_record_outcome
  by (auto intro!: db_ok_update simp: row_ok_def unstarted_def)

lemma snd_mark_sent:
  "snd (sql_mark_sent i p u t d) =
   (if pg_text p then
      snd (update_returning (\<lambda>r. nid r = i \<and> status r = StatusProcessing)
        (\<lambda>r. r\<lparr>status := StatusSent, provider_message_id := Some p,
               sent_at := Some (timestamptz u), updated_at := t\<rparr>) d)
    else d)"
  by (simp add: sql_mark_sent_def split_def Let_def)

lemma sql_mark_sent_step: "db_step d (snd (sql_mark_sent i p u t d))"
  unfolding snd_mark_sent
  by (auto intro!: db_step_update simp: row_step_def same_identity_def CanTransition_iff terminal_iff)

lemma sql_mark_sent_ok [keeps]: "db_ok d \<Longrightarrow> db_ok (snd (sql_mark_sent i p u t d))"
  unfolding snd_mark_sent
  by (auto intro!: db_ok_update simp: row_ok_def unstarted_def)

lemma sql_mark_queued_bulk_step: "db_step d (snd (sql_mark_queued_bulk ids t d))"
  unfolding sql_mark_queued_bulk_def snd_conv
  by (intro db_step_update) (auto intro!: row_step_status_update simp: CanTransition_iff)

lemma sql_mark_queued_bulk_ok [keeps]: "db_ok d \<Longrightarrow> db_ok (snd (sql_mark_queued_bulk ids t d))"
  unfolding sql_mark_queued_bulk_def snd_conv
  by (intro db_ok_update) (auto simp: row_ok_def unstarted_def)

lemma sql_touch_queued_step: "db_step d (snd (sql_touch_queued i t d))"
  unfolding sql_touch_queued_def snd_conv
  by (intro db_step_update) (auto simp: row_step_def same_identity_def terminal_iff)

lemma sql_touch_queued_ok [keeps]: "db_ok d \<Longrightarrow> db_ok (snd (sql_touch_queued i t d))"
  unfolding sql_touch_queued_def snd_conv
  by (intro db_ok_update) (auto simp: row_ok_def)

subsection \<open>The scheduler's claims\<close>

text \<open>A selected identifier belongs to a row that satisfies the condition of the selection.\<close>

lemma select_ids_sound:
  assumes "db_ok d" "nid r \<in> set (select_ids P key limit locked (notifications d))"
    "r \<in> set (notifications d)"
  shows "P r \<and> \<not> locked (nid r)"
proof -
  from assms(2) obtain r' where r': "nid r' = nid r" "r' \<in> set (notifications d)" "P r'"
    "\<not> locked (nid r')"
    by (auto simp: select_ids_def dest!: in_set_takeD)
  then have "r' = r"
    using assms(1,3) by (auto simp: db_ok_def distinct_map dest: inj_onD)
  with r' show ?thesis by simp
qed

lemma length_select_ids: "length (select_ids P key limit locked rows) \<le> nat limit"
  by (simp add: select_ids_def)

lemma snd_claim_due:
  "snd (sql_claim_due stale limit locked t d) =
   snd (update_returning
     (\<lambda>r. nid r \<in> set (select_ids (due stale t) created_at limit locked (notifications d)))
     (\<lambda>r. r\<lparr>status := StatusQueued, updated_at := t\<rparr>) d)"
  by (simp add: sql_claim_due_def split_def Let_def)

lemma snd_recover_stale:
  "snd (sql_recover_stale stale limit locked t d) =
   snd (update_returning
     (\<lambda>r. nid r \<in> set (select_ids (stale_in StatusProcessing stale t) updated_at limit locked
            (notifications d)))
     (\<lambda>r. r\<lparr>status := StatusRetrying,
            last_error := Some [Plain ''recovered from stale processing''], updated_at := t\<rparr>) d)"
  by (simp add: sql_recover_stale_def split_def Let_def)

text \<open>
  The scheduler's updates are guarded by identifier alone, so that they respect the state
  machine rests on the identifiers being distinct: the row updated is the row selected.
\<close>

lemma db_step_update_in:
  assumes "keeps_identity f"
    and "\<And>r. P r \<Longrightarrow> r \<in> set (notifications d) \<Longrightarrow> row_step r (f r)"
  shows "db_step d (snd (update_returning P f d))"
  unfolding db_step_def
proof (intro allI impI)
  fix i r
  assume a: "find_row i d = Some r"
  then have "r \<in> set (notifications d)"
    unfolding find_row_def by (blast dest: find_by_SomeD)
  then have "row_step r (if P r then f r else r)"
    using assms(2) [of r] by (cases "P r") simp_all
  moreover have "find_row i (snd (update_returning P f d)) = Some (if P r then f r else r)"
    unfolding find_row_update [OF assms(1)] a by (rule option.map(2))
  ultimately show "\<exists>r'. find_row i (snd (update_returning P f d)) = Some r' \<and> row_step r r'"
    by blast
qed

lemma due_status: "due stale t r \<Longrightarrow> status r = StatusScheduled \<or> status r = StatusPending"
  by (auto simp: due_def)

lemma claim_due_row:
  assumes "db_ok d" "r \<in> set (notifications d)"
    "nid r \<in> set (select_ids (due stale t) key limit locked (notifications d))"
  shows "status r \<in> {StatusScheduled, StatusPending}"
  using select_ids_sound [OF assms(1,3,2)] due_status [of stale t r] by simp

lemma recover_stale_row:
  assumes "db_ok d" "r \<in> set (notifications d)"
    "nid r \<in> set (select_ids (stale_in s stale t) key limit locked (notifications d))"
  shows "status r = s"
  using select_ids_sound [OF assms(1,3,2)] by (simp add: stale_in_def)

lemma sql_claim_due_step: "db_ok d \<Longrightarrow> db_step d (snd (sql_claim_due stale limit locked t d))"
  unfolding snd_claim_due
  by (rule db_step_update_in, simp, rule row_step_status_update)
    (drule (2) claim_due_row, auto simp: CanTransition_iff)

lemma sql_claim_due_ok [keeps]: "db_ok d \<Longrightarrow> db_ok (snd (sql_claim_due stale limit locked t d))"
  unfolding snd_claim_due
  by (rule db_ok_update, assumption, simp)
    (drule (2) claim_due_row, auto simp: row_ok_def unstarted_def)

lemma sql_recover_stale_step: "db_ok d \<Longrightarrow> db_step d (snd (sql_recover_stale stale limit locked t d))"
  unfolding snd_recover_stale
  by (rule db_step_update_in, simp)
    (drule (2) recover_stale_row, simp add: row_step_def same_identity_def CanTransition_iff
      terminal_iff)

lemma sql_recover_stale_ok [keeps]:
  "db_ok d \<Longrightarrow> db_ok (snd (sql_recover_stale stale limit locked t d))"
  unfolding snd_recover_stale
  by (rule db_ok_update, assumption, simp)
    (drule (2) recover_stale_row, simp add: row_ok_def unstarted_def)

end
