(* ===== verification/Rabbit.thy ===== *)
theory Rabbit
  imports Validation
begin

text \<open>
  internal/queue/rabbit without the network: message bodies (as the values that the JSON encodes),
  AMQP priorities, retry tiers, queue names, and the topology that \<open>DeclareTopology\<close> declares.
  \<open>route\<close> and \<open>expire\<close> are the documented meaning of direct and fanout exchanges and of
  \<open>x-dead-letter-exchange\<close> without a dead-letter routing key, over a declared topology.
\<close>

section \<open>Messages (message.go)\<close>

record status_event =
  ev_notification_id :: uuid
  ev_status :: string
  ev_channel :: string
  ev_attempts :: int
  ev_last_error :: gotext
  ev_provider_message_id :: string
  ev_provider_status_code :: int
  ev_provider_response :: string
  ev_occurred_at :: time

datatype body =
    Message uuid
  | DeadLetterMessage uuid gotext
  | StatusEvent status_event
  | Malformed string

record publishing =
  p_persistent :: bool
  p_priority :: "8 word"
  p_correlation_id :: string
  p_body :: body

record publication =
  pub_exchange :: string
  pub_key :: string
  pub_message :: publishing

section \<open>Priorities (publisher.go)\<close>

definition amqpPriority :: "priority \<Rightarrow> 8 word" where
  "amqpPriority p = (if p = PriorityHigh then 9 else if p = PriorityLow then 1 else 5)"

section \<open>Names and tiers (topology.go)\<close>

definition DirectExchange :: string where "DirectExchange = ''notifications.direct''"
definition DeadLetterExchange :: string where "DeadLetterExchange = ''notifications.dlx''"
definition DeadLetterQueue :: string where "DeadLetterQueue = ''notifications.dlq''"
definition EventsExchange :: string where "EventsExchange = ''notifications.events''"

definition maxPriority :: int where "maxPriority = 10"

record retry_tier =
  tier_name :: string
  tier_ttl :: duration

definition RetryTiers :: "retry_tier list" where
  "RetryTiers =
     [\<lparr>tier_name = ''notifications.retry.5s'', tier_ttl = 5 * second\<rparr>,
      \<lparr>tier_name = ''notifications.retry.30s'', tier_ttl = 30 * second\<rparr>,
      \<lparr>tier_name = ''notifications.retry.120s'', tier_ttl = 120 * second\<rparr>]"

definition TierForAttempt :: "int \<Rightarrow> retry_tier" where
  "TierForAttempt attempt =
     (let index = attempt - 1;
          index = (if index < 0 then 0 else index);
          index = (if index \<ge> int (length RetryTiers) then int (length RetryTiers) - 1 else index)
      in RetryTiers ! nat index)"

definition WorkQueueName :: "channel \<Rightarrow> string" where
  "WorkQueueName c = ''notifications.'' @ c"

lemma tiers_nth: "i < 3 \<Longrightarrow> RetryTiers ! i \<in> set RetryTiers"
  by (rule nth_mem) (simp add: RetryTiers_def)

lemma TierForAttempt_nth: "TierForAttempt a = RetryTiers ! nat (min 2 (max 0 (a - 1)))"
  by (simp add: TierForAttempt_def Let_def RetryTiers_def max_def min_def)

lemma TierForAttempt_in: "TierForAttempt a \<in> set RetryTiers"
  unfolding TierForAttempt_nth by (rule tiers_nth) (simp add: nat_less_iff)

lemma TierForAttempt_ttl:
  "tier_ttl (TierForAttempt a) = (if a \<le> 1 then 5 else if a = 2 then 30 else 120) * second"
proof -
  consider "a \<le> 1" | "a = 2" | "a \<ge> 3" by linarith
  then show ?thesis
    by cases (simp_all add: TierForAttempt_def RetryTiers_def numeral_2_eq_2)
qed

section \<open>Topology\<close>

datatype exchange_kind = Direct | Fanout

record queue_decl =
  qd_name :: string
  qd_max_priority :: "int option"
  qd_ttl_ms :: "int option"
  qd_dead_letter_exchange :: "string option"

datatype declare_cmd =
    ExchangeDeclare string exchange_kind
  | QueueDeclare queue_decl
  | QueueBind string string string

record topology =
  exchanges :: "(string \<times> exchange_kind) list"
  queues :: "queue_decl list"
  bindings :: "(string \<times> string \<times> string) list"

text \<open>
  A declaration is idempotent; redeclaring with other arguments, or binding what is not
  declared, is refused.
\<close>

fun declare_one :: "declare_cmd \<Rightarrow> topology \<Rightarrow> topology option" where
  "declare_one (ExchangeDeclare x k) T =
     (case map_of (exchanges T) x of
        None \<Rightarrow> Some (T\<lparr>exchanges := exchanges T @ [(x, k)]\<rparr>)
      | Some k' \<Rightarrow> if k' = k then Some T else None)"
| "declare_one (QueueDeclare q) T =
     (case find_by qd_name (qd_name q) (queues T) of
        None \<Rightarrow> Some (T\<lparr>queues := queues T @ [q]\<rparr>)
      | Some q' \<Rightarrow> if q' = q then Some T else None)"
| "declare_one (QueueBind q k x) T =
     (if map_of (exchanges T) x = None \<or> find_by qd_name q (queues T) = None then None
      else if (q, k, x) \<in> set (bindings T) then Some T
      else Some (T\<lparr>bindings := bindings T @ [(q, k, x)]\<rparr>))"

definition declareRetryTier :: "retry_tier \<Rightarrow> declare_cmd list" where
  "declareRetryTier tier =
     [ExchangeDeclare (tier_name tier) Fanout,
      QueueDeclare \<lparr>qd_name = tier_name tier, qd_max_priority = None,
        qd_ttl_ms = Some (tier_ttl tier div 1000000),
        qd_dead_letter_exchange = Some DirectExchange\<rparr>,
      QueueBind (tier_name tier) [] (tier_name tier)]"

definition declareDeadLetter :: "declare_cmd list" where
  "declareDeadLetter =
     [ExchangeDeclare DeadLetterExchange Fanout,
      QueueDeclare \<lparr>qd_name = DeadLetterQueue, qd_max_priority = None, qd_ttl_ms = None,
        qd_dead_letter_exchange = None\<rparr>,
      QueueBind DeadLetterQueue [] DeadLetterExchange]"

definition topology_commands :: "declare_cmd list" where
  "topology_commands =
     ExchangeDeclare DirectExchange Direct #
     concat (map (\<lambda>c.
       [QueueDeclare \<lparr>qd_name = WorkQueueName c, qd_max_priority = Some maxPriority,
          qd_ttl_ms = None, qd_dead_letter_exchange = None\<rparr>,
        QueueBind (WorkQueueName c) c DirectExchange]) Channels) @
     concat (map declareRetryTier RetryTiers) @
     ExchangeDeclare EventsExchange Fanout # declareDeadLetter"

text \<open>
  The declarations run in order and stop at the first error; \<open>down k\<close> says that the broker
  cannot be reached for the \<open>k\<close>-th of them.
\<close>

fun run_declares ::
  "(nat \<Rightarrow> bool) \<Rightarrow> nat \<Rightarrow> declare_cmd list \<Rightarrow> topology \<Rightarrow> error option \<times> topology" where
  "run_declares down k [] T = (None, T)"
| "run_declares down k (c # cs) T =
     (if down k then (Some (Opaque ''declare'' k), T)
      else case declare_one c T of
        None \<Rightarrow> (Some (Opaque ''declare'' k), T)
      | Some T' \<Rightarrow> run_declares down (Suc k) cs T')"

definition DeclareTopology :: "(nat \<Rightarrow> bool) \<Rightarrow> topology \<Rightarrow> error option \<times> topology" where
  "DeclareTopology down T = run_declares down 0 topology_commands T"

definition empty_topology :: topology where
  "empty_topology = \<lparr>exchanges = [], queues = [], bindings = []\<rparr>"

definition declared :: topology where
  "declared = snd (DeclareTopology (\<lambda>_. False) empty_topology)"

section \<open>Routing over a topology\<close>

definition route :: "topology \<Rightarrow> string \<Rightarrow> string \<Rightarrow> string list" where
  "route T x key =
     (case map_of (exchanges T) x of
        None \<Rightarrow> []
      | Some Direct \<Rightarrow> map fst (filter (\<lambda>(q, k, y). y = x \<and> k = key) (bindings T))
      | Some Fanout \<Rightarrow> map fst (filter (\<lambda>(q, k, y). y = x) (bindings T)))"

definition expire :: "topology \<Rightarrow> string \<Rightarrow> string \<Rightarrow> string list" where
  "expire T q key =
     (case find_by qd_name q (queues T) of
        None \<Rightarrow> []
      | Some d \<Rightarrow> (case qd_dead_letter_exchange d of None \<Rightarrow> [] | Some x \<Rightarrow> route T x key))"

lemmas topology_defs = topology_commands_def declareRetryTier_def declareDeadLetter_def
  DirectExchange_def DeadLetterExchange_def DeadLetterQueue_def EventsExchange_def
  maxPriority_def RetryTiers_def WorkQueueName_def Channels_def

lemma run_declares_total: "fst (DeclareTopology (\<lambda>_. False) empty_topology) = None"
  by (simp add: DeclareTopology_def empty_topology_def topology_defs)

lemma declared_eq:
  "declared =
   \<lparr>exchanges =
      (DirectExchange, Direct) # map (\<lambda>t. (tier_name t, Fanout)) RetryTiers @
      [(EventsExchange, Fanout), (DeadLetterExchange, Fanout)],
    queues =
      map (\<lambda>c. \<lparr>qd_name = WorkQueueName c, qd_max_priority = Some 10, qd_ttl_ms = None,
        qd_dead_letter_exchange = None\<rparr>) Channels @
      map (\<lambda>t. \<lparr>qd_name = tier_name t, qd_max_priority = None,
        qd_ttl_ms = Some (tier_ttl t div 1000000),
        qd_dead_letter_exchange = Some DirectExchange\<rparr>) RetryTiers @
      [\<lparr>qd_name = DeadLetterQueue, qd_max_priority = None, qd_ttl_ms = None,
        qd_dead_letter_exchange = None\<rparr>],
    bindings =
      map (\<lambda>c. (WorkQueueName c, c, DirectExchange)) Channels @
      map (\<lambda>t. (tier_name t, [], tier_name t)) RetryTiers @
      [(DeadLetterQueue, [], DeadLetterExchange)]\<rparr>"
  by (simp add: declared_def DeclareTopology_def empty_topology_def topology_defs)

section \<open>Declaring again changes nothing\<close>

fun established :: "declare_cmd \<Rightarrow> topology \<Rightarrow> bool" where
  "established (ExchangeDeclare x k) T = (map_of (exchanges T) x = Some k)"
| "established (QueueDeclare q) T = (find_by qd_name (qd_name q) (queues T) = Some q)"
| "established (QueueBind q k x) T =
     ((q, k, x) \<in> set (bindings T) \<and> map_of (exchanges T) x \<noteq> None \<and>
      find_by qd_name q (queues T) \<noteq> None)"

lemma declare_established: "established c T \<Longrightarrow> declare_one c T = Some T"
  by (cases c) auto

lemma established_declared: "declare_one c T = Some T' \<Longrightarrow> established c T'"
  by (cases c) (auto split: option.splits if_splits simp: find_by_append map_add_def)

lemma established_mono:
  assumes "established c T" "declare_one d T = Some T'"
  shows "established c T'"
  using assms
  by (cases c; cases d) (auto split: option.splits if_splits simp: find_by_append map_add_def)

lemma run_declares_established:
  "run_declares down k cs T = (None, T') \<Longrightarrow>
   (\<forall>c \<in> set cs. established c T') \<and> (\<forall>c. established c T \<longrightarrow> established c T')"
proof (induction cs arbitrary: k T)
  case (Cons c cs)
  then obtain T1 where T1: "declare_one c T = Some T1" "run_declares down (Suc k) cs T1 = (None, T')"
    by (auto split: if_splits option.splits)
  with Cons.IH [OF T1(2)] show ?case
    by (auto intro: established_mono dest: established_declared)
qed simp

lemma run_declares_again:
  assumes "\<forall>c \<in> set cs. established c T" and "\<And>j. \<not> down j"
  shows "run_declares down k cs T = (None, T)"
  using assms by (induction cs arbitrary: k) (simp_all add: declare_established)

lemma DeclareTopology_again:
  assumes "DeclareTopology down T = (None, T')"
  shows "DeclareTopology (\<lambda>_. False) T' = (None, T')"
  using run_declares_established [of down 0 topology_commands T T'] assms
  by (simp add: DeclareTopology_def run_declares_again)

section \<open>Where messages go\<close>

text \<open>
  What publishing and consuming rely on: the direct exchange reaches the channel's work queue
  and only it, a retry tier's exchange feeds the tier's queue whatever the key, a message
  expiring there goes where the direct exchange sends its own key, and dead letters stay put.
\<close>

locale message_routing =
  fixes routes :: "string \<Rightarrow> string \<Rightarrow> string list"
    and expires :: "string \<Rightarrow> string \<Rightarrow> string list"
  assumes direct: "c \<in> set Channels \<Longrightarrow> routes DirectExchange c = [WorkQueueName c]"
    and tier: "t \<in> set RetryTiers \<Longrightarrow> routes (tier_name t) key = [tier_name t]"
    and tier_expiry: "t \<in> set RetryTiers \<Longrightarrow> expires (tier_name t) key = routes DirectExchange key"
    and dead_letter: "routes DeadLetterExchange key = [DeadLetterQueue]"
    and dead_letter_expiry: "expires DeadLetterQueue key = []"
    and work_expiry: "c \<in> set Channels \<Longrightarrow> expires (WorkQueueName c) key = []"
begin

lemma retry_round_trip:
  assumes "c \<in> set Channels"
  shows "concat (map (\<lambda>q. expires q c) (routes (tier_name (TierForAttempt a)) c)) = [WorkQueueName c]"
  by (simp add: tier [OF TierForAttempt_in] tier_expiry [OF TierForAttempt_in] direct [OF assms])

lemma channel_isolation:
  assumes "c \<in> set Channels" "c' \<in> set Channels" "WorkQueueName c' \<in> set (routes DirectExchange c)"
  shows "c' = c"
  using assms by (simp add: direct WorkQueueName_def)

end

lemma exchanges_declared:
  "exchanges declared =
   [(''notifications.direct'', Direct), (''notifications.retry.5s'', Fanout),
    (''notifications.retry.30s'', Fanout), (''notifications.retry.120s'', Fanout),
    (''notifications.events'', Fanout), (''notifications.dlx'', Fanout)]"
  by (simp add: declared_eq topology_defs)

lemma bindings_declared:
  "bindings declared =
   [(''notifications.sms'', ''sms'', ''notifications.direct''),
    (''notifications.email'', ''email'', ''notifications.direct''),
    (''notifications.push'', ''push'', ''notifications.direct''),
    (''notifications.retry.5s'', [], ''notifications.retry.5s''),
    (''notifications.retry.30s'', [], ''notifications.retry.30s''),
    (''notifications.retry.120s'', [], ''notifications.retry.120s''),
    (''notifications.dlq'', [], ''notifications.dlx'')]"
  by (simp add: declared_eq topology_defs)

lemma dead_letter_exchange_declared:
  "t \<in> set RetryTiers \<Longrightarrow>
   map_option qd_dead_letter_exchange (find_by qd_name (tier_name t) (queues declared)) =
     Some (Some DirectExchange)"
  "c \<in> set Channels \<Longrightarrow>
   map_option qd_dead_letter_exchange (find_by qd_name (WorkQueueName c) (queues declared)) =
     Some None"
  "map_option qd_dead_letter_exchange (find_by qd_name DeadLetterQueue (queues declared)) =
     Some None"
  by (auto simp: declared_eq RetryTiers_def Channels_def WorkQueueName_def DeadLetterQueue_def)

lemma declared_direct: "c \<in> set Channels \<Longrightarrow> route declared DirectExchange c = [WorkQueueName c]"
  by (auto simp: route_def exchanges_declared bindings_declared DirectExchange_def
      WorkQueueName_def Channels_def)

lemma declared_tier: "t \<in> set RetryTiers \<Longrightarrow> route declared (tier_name t) key = [tier_name t]"
proof -
  have "\<forall>t \<in> set RetryTiers. route declared (tier_name t) key = [tier_name t]"
    by (simp add: route_def exchanges_declared bindings_declared RetryTiers_def)
  then show "t \<in> set RetryTiers \<Longrightarrow> route declared (tier_name t) key = [tier_name t]" by blast
qed

lemma expire_eq:
  "map_option qd_dead_letter_exchange (find_by qd_name q (queues T)) = Some x \<Longrightarrow>
   expire T q key = (case x of None \<Rightarrow> [] | Some y \<Rightarrow> route T y key)"
  by (auto simp: expire_def)

lemma declared_dead_letter: "route declared DeadLetterExchange key = [DeadLetterQueue]"
  by (simp add: route_def exchanges_declared bindings_declared DeadLetterExchange_def
      DeadLetterQueue_def)

interpretation mq: message_routing "route declared" "expire declared"
  by unfold_locales
    (simp_all add: declared_direct declared_tier declared_dead_letter
      dead_letter_exchange_declared [THEN expire_eq])

end
