(* ===== verification/Metrics.thy ===== *)
theory Metrics
  imports Prelude
begin

text \<open>
  internal/observability/metrics.go: the counters and histograms of the service, as functions
  from label values. A histogram keeps its observations in order; a gauge keeps its last value.
\<close>

record metrics =
  m_created :: "string \<times> string \<Rightarrow> nat"
  m_delivered :: "string \<times> string \<Rightarrow> nat"
  m_attempts :: "string \<times> string \<Rightarrow> nat"
  m_delivery_duration :: "string \<Rightarrow> duration list"
  m_http_duration :: "string \<times> string \<times> string \<Rightarrow> duration list"
  m_queue_depth :: "string \<Rightarrow> int"

definition NewMetrics :: metrics where
  "NewMetrics =
     \<lparr>m_created = (\<lambda>_. 0), m_delivered = (\<lambda>_. 0), m_attempts = (\<lambda>_. 0),
      m_delivery_duration = (\<lambda>_. []), m_http_duration = (\<lambda>_. []), m_queue_depth = (\<lambda>_. 0)\<rparr>"

definition NotificationCreated :: "string \<Rightarrow> string \<Rightarrow> metrics \<Rightarrow> metrics" where
  "NotificationCreated ch pr m =
     m\<lparr>m_created := (m_created m)((ch, pr) := m_created m (ch, pr) + 1)\<rparr>"

definition NotificationDelivered :: "string \<Rightarrow> string \<Rightarrow> metrics \<Rightarrow> metrics" where
  "NotificationDelivered ch st m =
     m\<lparr>m_delivered := (m_delivered m)((ch, st) := m_delivered m (ch, st) + 1)\<rparr>"

definition DeliveryAttempt :: "string \<Rightarrow> string \<Rightarrow> duration \<Rightarrow> metrics \<Rightarrow> metrics" where
  "DeliveryAttempt ch oc dur m =
     m\<lparr>m_attempts := (m_attempts m)((ch, oc) := m_attempts m (ch, oc) + 1),
       m_delivery_duration :=
         (m_delivery_duration m)(ch := m_delivery_duration m ch @ [dur])\<rparr>"

definition ObserveHTTPRequest :: "string \<Rightarrow> string \<Rightarrow> int \<Rightarrow> duration \<Rightarrow> metrics \<Rightarrow> metrics" where
  "ObserveHTTPRequest rt meth code dur m =
     m\<lparr>m_http_duration := (m_http_duration m)((rt, meth, itoa code) :=
         m_http_duration m (rt, meth, itoa code) @ [dur])\<rparr>"

definition SetQueueDepth :: "string \<Rightarrow> int \<Rightarrow> metrics \<Rightarrow> metrics" where
  "SetQueueDepth q ready m = m\<lparr>m_queue_depth := (m_queue_depth m)(q := ready)\<rparr>"

end
