(* ===== verification/World.thy ===== *)
theory World
  imports Lifecycle Rabbit Metrics
begin

text \<open>
  The state that the processes share (database, accepted publications, metrics, requests made to
  the provider) and the environment they run in. Every interaction with something outside the
  repository takes the next number from \<open>steps\<close> and asks the environment what happens at that
  number: whether a database call succeeds, is refused, or is carried out with its reply lost;
  what becomes of a publication; what a clock, the UUID generator, the rate limiter or the
  provider answers. The environment is arbitrary, so a theorem about all worlds covers every
  pattern of failures.
\<close>

datatype fate = Succeeds | Refused | Unreported

text \<open>
  A publication on a confirm-mode channel: confirmed; refused locally; taken by nobody (negative
  confirm, or no confirm at all); or taken by the broker with the confirm lost.
\<close>

datatype publish_fate = Confirmed | Rejected | Nacked | Lost | Unconfirmed

definition taken :: "publish_fate \<Rightarrow> bool" where
  "taken f \<longleftrightarrow> f = Confirmed \<or> f = Unconfirmed"

text \<open>
  What an HTTP request to a provider meets: no response, or a status, the bytes of the body that
  arrive, and whether the body ends properly (\<open>False\<close>: reading it stops with an error).
\<close>

datatype http_reply = Unreachable gotext | Reply int string bool

record provider_request =
  rq_url :: string
  rq_to :: string
  rq_channel :: string
  rq_content :: string

record environment =
  db_fate :: "nat \<Rightarrow> fate"
  publish_fate :: "nat \<Rightarrow> publish_fate"
  clock :: "nat \<Rightarrow> time"
  db_clock :: "nat \<Rightarrow> time"
  fresh_uuid :: "nat \<Rightarrow> uuid"
  row_locked :: "nat \<Rightarrow> uuid \<Rightarrow> bool"
  limiter_ok :: "nat \<Rightarrow> bool"
  provider_reply :: "nat \<Rightarrow> provider_request \<Rightarrow> http_reply"
  url_ok :: "string \<Rightarrow> bool"
  json_message_id :: "string \<Rightarrow> string option"
  uuid_text :: "uuid \<Rightarrow> string"
  tmpl_parse :: "string \<Rightarrow> gotext option"
  tmpl_execute :: "string \<Rightarrow> (string \<times> string) list \<Rightarrow> gotext + string"

record world = environment +
  db :: database
  published :: "publication list"
  metrics :: metrics
  requests :: "provider_request list"
  steps :: nat

type_synonym ctx = string

section \<open>Interactions\<close>

definition Now :: "world \<Rightarrow> time \<times> world" where
  "Now w = (clock w (steps w), w\<lparr>steps := Suc (steps w)\<rparr>)"

definition uuid_New :: "world \<Rightarrow> uuid \<times> world" where
  "uuid_New w = (fresh_uuid w (steps w), w\<lparr>steps := Suc (steps w)\<rparr>)"

definition db_call :: "'a stmt \<Rightarrow> world \<Rightarrow> 'a result \<times> world" where
  "db_call f w =
     (let k = steps w; (r, d) = f (db_clock w k) (db w); w1 = w\<lparr>steps := Suc k\<rparr>
      in case db_fate w k of
           Succeeds \<Rightarrow> (r, w1\<lparr>db := d\<rparr>)
         | Refused \<Rightarrow> (Inl (Opaque ''database'' k), w1)
         | Unreported \<Rightarrow> (Inl (Opaque ''database'' k), w1\<lparr>db := d\<rparr>))"

definition broker_publish :: "string \<Rightarrow> string \<Rightarrow> publishing \<Rightarrow> world \<Rightarrow> publish_fate \<times> world" where
  "broker_publish x key p w =
     (let k = steps w; f = publish_fate w k; w1 = w\<lparr>steps := Suc k\<rparr>
      in (f, if taken f
             then w1\<lparr>published := published w1 @
                    [\<lparr>pub_exchange = x, pub_key = key, pub_message = p\<rparr>]\<rparr>
             else w1))"

section \<open>What an operation may do to the world\<close>

text \<open>
  \<open>later w w'\<close>: the same environment, no step taken back. \<open>world_le w w'\<close>: moreover from a
  consistent database to a consistent database along legal transitions, with nothing published
  or requested taken back.
\<close>

definition later :: "world \<Rightarrow> world \<Rightarrow> bool" where
  "later w w' \<longleftrightarrow> environment.truncate w' = environment.truncate w \<and> steps w \<le> steps w'"

definition world_le :: "world \<Rightarrow> world \<Rightarrow> bool" where
  "world_le w w' \<longleftrightarrow>
     (db_ok (db w) \<longrightarrow> db_ok (db w') \<and> db_evolves (db w) (db w')) \<and>
     (\<exists>ps. published w' = published w @ ps) \<and> (\<exists>rs. requests w' = requests w @ rs) \<and> later w w'"

lemma later_refl [simp, intro]: "later w w"
  by (simp add: later_def)

lemma later_trans [trans]: "later a b \<Longrightarrow> later b c \<Longrightarrow> later a c"
  by (simp add: later_def)

lemma later_update [simp, intro]:
  "later v w \<Longrightarrow> steps w \<le> k \<Longrightarrow> later v (w\<lparr>steps := k\<rparr>)" "later v w \<Longrightarrow> later v (w\<lparr>db := d\<rparr>)"
  "later v w \<Longrightarrow> later v (w\<lparr>published := p\<rparr>)" "later v w \<Longrightarrow> later v (w\<lparr>requests := q\<rparr>)"
  "later v w \<Longrightarrow> later v (w\<lparr>metrics := m\<rparr>)"
  by (simp_all add: later_def environment.truncate_def)

lemma laterD:
  assumes "later w w'"
  shows "db_fate w' = db_fate w" "publish_fate w' = publish_fate w" "clock w' = clock w"
    "db_clock w' = db_clock w" "fresh_uuid w' = fresh_uuid w" "row_locked w' = row_locked w"
    "limiter_ok w' = limiter_ok w" "provider_reply w' = provider_reply w" "url_ok w' = url_ok w"
    "json_message_id w' = json_message_id w" "uuid_text w' = uuid_text w"
    "tmpl_parse w' = tmpl_parse w" "tmpl_execute w' = tmpl_execute w" "steps w \<le> steps w'"
  using assms by (auto simp: later_def environment.truncate_def)

lemma world_le_later: "world_le w w' \<Longrightarrow> later w w'"
  by (simp add: world_le_def)

named_theorems le_dest \<open>what an operation does to the world, as destruction rules\<close>

lemma world_le_refl [simp, intro]: "world_le w w"
  by (simp add: world_le_def)

lemma world_le_trans [trans]: "world_le a b \<Longrightarrow> world_le b c \<Longrightarrow> world_le a c"
  by (auto simp: world_le_def intro: db_evolves_trans later_trans)

lemma world_le_db_ok: "world_le w w' \<Longrightarrow> db_ok (db w) \<Longrightarrow> db_ok (db w')"
  by (simp add: world_le_def)

lemma world_le_evolves: "world_le w w' \<Longrightarrow> db_ok (db w) \<Longrightarrow> db_evolves (db w) (db w')"
  by (simp add: world_le_def)

lemma world_le_terminal:
  "world_le w w' \<Longrightarrow> db_ok (db w) \<Longrightarrow> find_row i (db w) = Some r \<Longrightarrow> terminal (status r) \<Longrightarrow>
   find_row i (db w') = Some r"
  by (meson world_le_evolves db_evolves_terminal)

text \<open>Changes outside the shared state.\<close>

lemma world_le_same:
  "db w' = db w \<Longrightarrow> published w' = published w \<Longrightarrow> requests w' = requests w \<Longrightarrow> later w w' \<Longrightarrow>
   world_le w w'"
  by (simp add: world_le_def)

lemma world_le_update [simp, intro]:
  "steps w \<le> k \<Longrightarrow> world_le w (w\<lparr>steps := k\<rparr>)" "world_le w (w\<lparr>metrics := m\<rparr>)"
  by (simp_all add: world_le_same)

lemma Now_le [le_dest]: "Now w = (t, w') \<Longrightarrow> world_le w w'"
  by (auto simp: Now_def)

lemma uuid_New_le [le_dest]: "uuid_New w = (t, w') \<Longrightarrow> world_le w w'"
  by (auto simp: uuid_New_def)

lemma broker_publish_le [le_dest]: "broker_publish x k p w = (f, w') \<Longrightarrow> world_le w w'"
  by (auto simp: broker_publish_def Let_def world_le_def split: if_splits)

text \<open>A statement that keeps the invariant and the state machine gives a call that does.\<close>

definition legal_stmt :: "'a stmt \<Rightarrow> bool" where
  "legal_stmt f \<longleftrightarrow> (\<forall>t d. db_ok d \<longrightarrow> db_ok (snd (f t d)) \<and> db_step d (snd (f t d)))"

lemma legal_stmtD: "legal_stmt f \<Longrightarrow> f t d = (r, d') \<Longrightarrow> db_ok d \<Longrightarrow> db_ok d' \<and> db_evolves d d'"
  unfolding legal_stmt_def by (metis db_step_evolves snd_conv)

lemma db_call_le: "legal_stmt f \<Longrightarrow> db_call f w = (r, w') \<Longrightarrow> world_le w w'"
  by (auto simp: db_call_def Let_def world_le_def dest: legal_stmtD
      split: prod.splits fate.splits)

lemma db_call_later: "db_call f w = (r, w') \<Longrightarrow> later w w'"
  by (auto simp: db_call_def Let_def split: prod.splits fate.splits)

lemma db_call_frame:
  assumes "db_call f w = (r, w')"
  shows "published w' = published w" "requests w' = requests w" "metrics w' = metrics w"
  using assms by (auto simp: db_call_def Let_def split: prod.splits fate.splits)

lemma db_call_quiet:
  "db_call f w = (r, w') \<Longrightarrow> published w' = published w \<and> requests w' = requests w \<and> metrics w' = metrics w"
  by (simp add: db_call_frame)

text \<open>The three outcomes of a call, for case analysis.\<close>

lemma db_call_cases:
  assumes "db_call f w = (r, w')"
  obtains
    (applied) d where "f (db_clock w (steps w)) (db w) = (r, d)" "db w' = d"
  | (refused) "r = Inl (Opaque ''database'' (steps w))" "db w' = db w"
  | (unreported) r' d where "f (db_clock w (steps w)) (db w) = (r', d)" "db w' = d"
      "r = Inl (Opaque ''database'' (steps w))"
  using assms by (auto simp: db_call_def Let_def split: prod.splits fate.splits)

lemma db_call_Inr:
  assumes "db_call f w = (Inr x, w')"
  shows "f (db_clock w (steps w)) (db w) = (Inr x, db w')"
  using assms by (auto elim: db_call_cases)

section \<open>Legal statements\<close>

lemma legal_query: "(\<And>t d. snd (f t d) = d) \<Longrightarrow> legal_stmt f"
  by (simp add: legal_stmt_def)

lemma legal_reads [simp]:
  "legal_stmt (sql_select_id i)" "legal_stmt (sql_select_key k)" "legal_stmt (sql_existing_keys ks)"
  "legal_stmt (sql_list q)" "legal_stmt sql_count_statuses" "legal_stmt (sql_select_template n)"
  "legal_stmt sql_list_templates" "legal_stmt sql_read_control"
  "legal_stmt (sql_list_stale_queued s l)" "legal_stmt (\<lambda>t d. (g t d, d))"
  by (auto intro!: legal_query simp: sql_select_id_def sql_select_key_def sql_existing_keys_def
      sql_list_def sql_count_statuses_def sql_select_template_def sql_list_templates_def
      sql_read_control_def sql_list_stale_queued_def)

lemma legal_control [simp]:
  "legal_stmt (sql_set_paused p)" "legal_stmt (sql_set_provider u)" "legal_stmt sql_ensure_control"
  by (auto simp: legal_stmt_def sql_set_paused_def sql_set_provider_def sql_ensure_control_def
      db_ok_def)

lemma legal_insert [simp]: "fresh_status n \<Longrightarrow> legal_stmt (sql_insert n)"
  by (simp add: legal_stmt_def keeps sql_insert_step)

lemma legal_copy [simp]: "\<forall>n \<in> set ns. fresh_status n \<Longrightarrow> legal_stmt (sql_copy ns)"
  by (simp add: legal_stmt_def keeps sql_copy_step)

lemma legal_cancel [simp]:
  "legal_stmt (sql_update_status i StatusCancelled (map status_string CancellableStatuses))"
  by (auto simp: legal_stmt_def CancellableStatuses_def CanTransition_iff unstarted_def
      intro!: sql_update_status_ok sql_update_status_step)
    (rename_tac x, case_tac x, auto)

lemma legal_mark_queued [simp]:
  "legal_stmt (sql_update_status i StatusQueued (map status_string [StatusPending]))"
  unfolding legal_stmt_def
  by (intro allI impI conjI sql_update_status_ok sql_update_status_step)
    (auto simp: CanTransition_iff unstarted_def)

lemma legal_claim [simp]:
  "legal_stmt (sql_claim i (map status_string (StatusesAllowedInto StatusProcessing)))"
  by (auto simp: legal_stmt_def intro!: sql_claim_ok sql_claim_step)

lemma legal_outcomes [simp]:
  "legal_stmt (sql_record_outcome i StatusRetrying e)"
  "legal_stmt (sql_record_outcome i StatusFailed e)"
  "legal_stmt (sql_mark_sent i p u)" "legal_stmt (sql_mark_queued_bulk ids)"
  "legal_stmt (sql_touch_queued i)"
  by (simp_all add: legal_stmt_def sql_record_outcome_ok sql_record_outcome_step keeps
      sql_mark_sent_step sql_mark_queued_bulk_step sql_touch_queued_step)

lemma legal_scheduler [simp]:
  "legal_stmt (sql_claim_due s l k)" "legal_stmt (sql_recover_stale s l k)"
  by (simp_all add: legal_stmt_def keeps sql_claim_due_step sql_recover_stale_step)

lemma legal_insert_template [simp]: "legal_stmt (sql_insert_template tm)"
  by (auto simp: legal_stmt_def sql_insert_template_def db_ok_def template_ok_def
      find_by_None_iff')

section \<open>Steps that only read\<close>

text \<open>\<open>quiet w w'\<close>: nothing but the step counter has changed.\<close>

definition quiet :: "world \<Rightarrow> world \<Rightarrow> bool" where
  "quiet w w' \<longleftrightarrow> (\<exists>k \<ge> steps w. w' = w\<lparr>steps := k\<rparr>)"

lemma quietD:
  assumes "quiet w w'"
  shows "db w' = db w" "published w' = published w" "requests w' = requests w"
    "metrics w' = metrics w" "world_le w w'"
  using assms by (auto simp: quiet_def)

lemma quiet_refl [simp, intro]: "quiet w w"
  unfolding quiet_def by (rule exI [of _ "steps w"]) simp

lemma quiet_trans [trans]: "quiet a b \<Longrightarrow> quiet b c \<Longrightarrow> quiet a c"
proof -
  assume "quiet a b" "quiet b c"
  then obtain k m where "b = a\<lparr>steps := k\<rparr>" "steps a \<le> k" "c = b\<lparr>steps := m\<rparr>" "k \<le> m"
    by (auto simp: quiet_def)
  then have "steps a \<le> m \<and> c = a\<lparr>steps := m\<rparr>" by simp
  then show "quiet a c" unfolding quiet_def by blast
qed

lemma quiet_steps [simp, intro]: "steps w \<le> k \<Longrightarrow> quiet w (w\<lparr>steps := k\<rparr>)"
  by (auto simp: quiet_def)

lemma quiet_Suc [dest]: "quiet (w\<lparr>steps := Suc (steps w)\<rparr>) w' \<Longrightarrow> quiet w w'"
  using quiet_trans [OF quiet_steps] le_Suc_eq by blast

lemma quiet_after [intro]: "quiet v w \<Longrightarrow> quiet v (w\<lparr>steps := Suc (steps w)\<rparr>)"
  using quiet_trans [OF _ quiet_steps] le_Suc_eq by blast

lemma Now_quiet: "Now w = (t, w') \<Longrightarrow> quiet w w'"
  by (auto simp: Now_def)

lemma uuid_New_quiet: "uuid_New w = (i, w') \<Longrightarrow> quiet w w'"
  by (auto simp: uuid_New_def)

definition query :: "'a stmt \<Rightarrow> bool" where
  "query f \<longleftrightarrow> (\<forall>t d. snd (f t d) = d)"

lemma query_reads [simp]:
  "query (sql_select_id i)" "query (sql_select_key k)" "query (sql_existing_keys ks)"
  "query (sql_list q)" "query sql_count_statuses" "query (sql_select_template n)"
  "query sql_list_templates" "query sql_read_control"
  "query (sql_list_stale_queued s l)" "query (\<lambda>t d. (g t d, d))"
  by (auto simp: query_def sql_select_id_def sql_select_key_def sql_existing_keys_def
      sql_list_def sql_count_statuses_def sql_select_template_def sql_list_templates_def
      sql_read_control_def sql_list_stale_queued_def)

lemma query_quiet: "query f \<Longrightarrow> db_call f w = (r, w') \<Longrightarrow> quiet w w'"
proof -
  assume q: "query f" and c: "db_call f w = (r, w')"
  obtain x d where f: "f (db_clock w (steps w)) (db w) = (x, d)" by fastforce
  with q have "d = db w" unfolding query_def by (metis snd_conv)
  with f c show "quiet w w'"
    by (auto simp: db_call_def Let_def quiet_def split: fate.splits
        intro!: exI [of _ "Suc (steps w)"])
qed

end
