(* ===== verification/RepositoryFacts.thy ===== *)
theory RepositoryFacts
  imports Repository
begin

text \<open>
  What the methods of the repositories guarantee to their callers: every method is a legal move
  of the world (\<open>le_dest\<close>), touches nothing but the database, and its outcome says which guarded
  write happened. The locale \<open>delivery_store\<close> states the part that the worker relies on.
\<close>

section \<open>Guarded updates of one row\<close>

lemma update_none:
  "filter P (notifications d) = [] \<Longrightarrow> update_returning P f d = ([], d)"
  by (simp add: update_returning_def filter_empty_conv update_where_none)

lemma guarded_update:
  assumes ok: "db_ok d" and f: "keeps_identity f"
    and u: "update_returning (\<lambda>r. nid r = i \<and> Q r) f d = (rows, d')"
  obtains
    (hit) r where "find_row i d = Some r" "Q r" "rows = [f r]" "find_row i d' = Some (f r)"
  | (miss) "rows = []" "d' = d" "\<And>r. find_row i d = Some r \<Longrightarrow> \<not> Q r"
proof -
  have fl: "filter (\<lambda>r. nid r = i \<and> Q r) (notifications d) =
      (case find_row i d of None \<Rightarrow> [] | Some r \<Rightarrow> if Q r then [r] else [])"
    by (rule filter_by_id [OF ok])
  have d': "d' = snd (update_returning (\<lambda>r. nid r = i \<and> Q r) f d)" using u by simp
  have rows: "rows = map f (filter (\<lambda>r. nid r = i \<and> Q r) (notifications d))"
    using u by (simp add: update_returning_def)
  show thesis
  proof (cases "\<exists>r. find_row i d = Some r \<and> Q r")
    case True
    then obtain r where r: "find_row i d = Some r" "Q r" by blast
    moreover have "nid r = i" using db_ok_rowD [OF ok r(1)] by simp
    ultimately show thesis
      using fl rows by (intro hit [of r]) (simp_all add: d' find_row_update [OF f])
  next
    case False
    then have "filter (\<lambda>r. nid r = i \<and> Q r) (notifications d) = []"
      using fl by (auto split: option.splits)
    with u update_none have "rows = []" "d' = d" by auto
    with False show thesis by (auto intro: miss)
  qed
qed

lemma guarded_update_other:
  assumes "db_ok d" "keeps_identity f" "j \<noteq> i"
    and "update_returning (\<lambda>r. nid r = i \<and> Q r) f d = (rows, d')"
  shows "find_row j d' = find_row j d"
proof -
  have "d' = snd (update_returning (\<lambda>r. nid r = i \<and> Q r) f d)" using assms(4) by simp
  then show ?thesis
    using db_ok_rowD [OF assms(1), of j] assms(3)
    by (cases "find_row j d") (auto simp: find_row_update [OF assms(2)])
qed

definition claimed :: "time \<Rightarrow> notification \<Rightarrow> notification" where
  "claimed t r = r\<lparr>status := StatusProcessing, attempts := attempts r + 1, updated_at := t\<rparr>"

lemma claimed_simps [simp]:
  "nid (claimed t r) = nid r" "status (claimed t r) = StatusProcessing"
  "attempts (claimed t r) = attempts r + 1" "channel (claimed t r) = channel r"
  "content (claimed t r) = content r" "recipient (claimed t r) = recipient r"
  "priority (claimed t r) = priority r"
  by (simp_all add: claimed_def)

lemma keeps_claimed: "keeps_identity (claimed t)"
  by (simp add: keeps_identity_def same_identity_def claimed_def)

lemma sql_claim_alt:
  "sql_claim i allowed t d =
   (if \<exists>r \<in> set (notifications d). nid r = i \<and> status_string (status r) \<in> set allowed \<and>
        attempts r = max_int4
    then (Inl (PgError ''22003'' []), d)
    else case update_returning (\<lambda>r. nid r = i \<and> status_string (status r) \<in> set allowed)
           (claimed t) d of
      (rows, d') \<Rightarrow> (case rows of [] \<Rightarrow> Inl ErrNoRows | r # _ \<Rightarrow> Inr r, d'))"
  by (auto simp: sql_claim_def Let_def list_ex_iff claimed_def [abs_def] split: prod.splits)

lemma sql_claim_Inr:
  assumes "db_ok d" "sql_claim i allowed t d = (Inr n, d')"
  shows "\<exists>r. find_row i d = Some r \<and> status_string (status r) \<in> set allowed \<and>
    attempts r \<noteq> max_int4 \<and> n = claimed t r \<and> find_row i d' = Some n"
proof -
  obtain rows d1 where u: "update_returning (\<lambda>r. nid r = i \<and> status_string (status r) \<in> set allowed)
      (claimed t) d = (rows, d1)" by fastforce
  have n: "\<not> (\<exists>r \<in> set (notifications d). nid r = i \<and> status_string (status r) \<in> set allowed \<and>
        attempts r = max_int4)"
    using assms(2) by (auto simp: sql_claim_alt split: if_splits)
  have r: "(case rows of [] \<Rightarrow> Inl ErrNoRows | r # _ \<Rightarrow> Inr r) = Inr n" "d' = d1"
    using assms(2) n u by (auto simp: sql_claim_alt)
  from assms(1) keeps_claimed u show ?thesis
  proof (cases rule: guarded_update)
    case (hit r)
    with r n show ?thesis
      using find_row_iff [OF assms(1), of i r] by auto
  next
    case miss
    with r show ?thesis by simp
  qed
qed

lemma sql_claim_Inl:
  assumes "db_ok d" "sql_claim i allowed t d = (Inl e, d')"
  shows "d' = d \<and> (e = ErrNoRows \<and>
      (\<forall>r. find_row i d = Some r \<longrightarrow> status_string (status r) \<notin> set allowed) \<or>
    e = PgError ''22003'' [])"
proof (cases "\<exists>r \<in> set (notifications d). nid r = i \<and> status_string (status r) \<in> set allowed \<and>
    attempts r = max_int4")
  case True
  with assms(2) show ?thesis by (simp add: sql_claim_alt)
next
  case False
  obtain rows d1 where u: "update_returning (\<lambda>r. nid r = i \<and> status_string (status r) \<in> set allowed)
      (claimed t) d = (rows, d1)" by fastforce
  have r: "(case rows of [] \<Rightarrow> Inl ErrNoRows | r # _ \<Rightarrow> Inr r) = Inl e" "d' = d1"
    using assms(2) u False by (auto simp: sql_claim_alt)
  from assms(1) keeps_claimed u show ?thesis
  proof (cases rule: guarded_update)
    case (hit r)
    with r show ?thesis by simp
  next
    case miss
    with r show ?thesis by auto
  qed
qed

text \<open>The writes that report a number of rows, in one shape.\<close>

definition counted ::
  "(notification \<Rightarrow> bool) \<Rightarrow> (notification \<Rightarrow> notification) \<Rightarrow> uuid \<Rightarrow> nat \<Rightarrow>
   database \<Rightarrow> database \<Rightarrow> bool" where
  "counted Q f i k d d' \<longleftrightarrow>
     (k \<noteq> 0 \<and> (\<exists>r. find_row i d = Some r \<and> Q r \<and> find_row i d' = Some (f r)) \<or>
      k = 0 \<and> d' = d \<and> (\<forall>r. find_row i d = Some r \<longrightarrow> \<not> Q r))"

lemma counted_update:
  assumes "db_ok d" "keeps_identity f"
    and "update_returning (\<lambda>r. nid r = i \<and> Q r) f d = (rows, d')"
  shows "counted Q f i (length rows) d d'"
  using assms by (cases rule: guarded_update) (auto simp: counted_def)

lemma sql_update_status_counted:
  assumes "db_ok d" "sql_update_status i to allowed t d = (Inr k, d')"
  shows "counted (\<lambda>r. status_string (status r) \<in> set allowed)
    (\<lambda>r. r\<lparr>status := to, updated_at := t\<rparr>) i k d d'"
  using assms counted_update [OF assms(1)]
  by (auto simp: sql_update_status_def Let_def split: prod.splits)

lemma sql_record_outcome_counted:
  assumes "db_ok d" "sql_record_outcome i to err t d = (Inr k, d')"
  shows "counted (\<lambda>r. status r = StatusProcessing)
    (\<lambda>r. r\<lparr>status := to, last_error := Some err, updated_at := t\<rparr>) i k d d'"
  using assms counted_update [OF assms(1)]
  by (auto simp: sql_record_outcome_def Let_def split: prod.splits if_splits)

lemma sql_mark_sent_counted:
  assumes "db_ok d" "sql_mark_sent i p u t d = (Inr k, d')"
  shows "counted (\<lambda>r. status r = StatusProcessing)
    (\<lambda>r. r\<lparr>status := StatusSent, provider_message_id := Some p,
           sent_at := Some (timestamptz u), updated_at := t\<rparr>) i k d d'"
  using assms counted_update [OF assms(1)]
  by (auto simp: sql_mark_sent_def Let_def split: prod.splits if_splits)

section \<open>Legal moves\<close>

lemmas method_splits = prod.splits sum.splits option.splits if_splits

lemma read_rows_quiet: "read_rows s m rows w = (r, w') \<Longrightarrow> quiet w w'"
  by (auto simp: read_rows_def Let_def split: fate.splits if_splits)

lemma read_rows_Inr: "read_rows s m rows w = (Inr xs, w') \<Longrightarrow> xs = rows"
  by (auto simp: read_rows_def Let_def split: fate.splits if_splits)

lemma read_rows_le [le_dest]: "read_rows s m rows w = (r, w') \<Longrightarrow> world_le w w'"
  using read_rows_quiet quietD(5) by blast

lemma collect_quiet: "collectNotifications l rows w = (r, w') \<Longrightarrow> quiet w w'"
  by (simp add: collectNotifications_def read_rows_quiet)

lemma collect_Inr: "collectNotifications l rows w = (Inr xs, w') \<Longrightarrow> xs = rows"
  by (simp add: collectNotifications_def read_rows_Inr)

lemma collect_le [le_dest]: "collectNotifications l rows w = (r, w') \<Longrightarrow> world_le w w'"
  using collect_quiet quietD(5) by blast

lemma GetByID_le [le_dest]: "GetByID i w = (r, w') \<Longrightarrow> world_le w w'"
  by (auto simp: GetByID_def split: method_splits dest: db_call_le [rotated])

lemma GetByIdempotencyKey_le [le_dest]: "GetByIdempotencyKey k w = (r, w') \<Longrightarrow> world_le w w'"
  by (auto simp: GetByIdempotencyKey_def split: method_splits dest: db_call_le [rotated])

lemma Create_le: "fresh_status n \<Longrightarrow> Create n w = (r, w') \<Longrightarrow> world_le w w'"
  by (auto simp: Create_def split: method_splits dest: db_call_le [rotated])

lemma Repo_CreateBatch_le:
  "\<forall>n \<in> set ns. fresh_status n \<Longrightarrow> Repo_CreateBatch ns w = (r, w') \<Longrightarrow> world_le w w'"
  by (auto simp: Repo_CreateBatch_def split: method_splits dest!: db_call_le [rotated]
      intro: world_le_trans)

lemma MarkQueuedBulk_le [le_dest]: "MarkQueuedBulk ids w = (r, w') \<Longrightarrow> world_le w w'"
  by (auto simp: MarkQueuedBulk_def split: method_splits dest: db_call_le [rotated])

lemma ExistingIdempotencyKeys_le [le_dest]: "ExistingIdempotencyKeys ks w = (r, w') \<Longrightarrow> world_le w w'"
  by (auto simp: ExistingIdempotencyKeys_def split: method_splits dest!: db_call_le [rotated] read_rows_le
      collect_le intro: world_le_trans)

lemma UpdateStatus_le:
  assumes "legal_stmt (sql_update_status i to (map status_string src))"
    and "UpdateStatus i to src w = (r, w')"
  shows "world_le w w'"
  using assms
  by (auto simp: UpdateStatus_def split: method_splits dest!: db_call_le [rotated] GetByID_le
      intro: world_le_trans)

lemmas UpdateStatus_cancel_le [le_dest] =
  UpdateStatus_le [OF legal_cancel]
lemmas UpdateStatus_queued_le [le_dest] =
  UpdateStatus_le [OF legal_mark_queued]

lemma ClaimForProcessing_le [le_dest]:
  "ClaimForProcessing i (StatusesAllowedInto StatusProcessing) w = (r, w') \<Longrightarrow> world_le w w'"
  by (auto simp: ClaimForProcessing_def split: method_splits dest!: db_call_le [rotated] GetByID_le
      intro: world_le_trans)

lemma MarkRetrying_le [le_dest]: "MarkRetrying i e w = (r, w') \<Longrightarrow> world_le w w'"
  by (auto simp: MarkRetrying_def recordOutcome_def split: method_splits
      dest: db_call_le [rotated])

lemma MarkFailed_le [le_dest]: "MarkFailed i e w = (r, w') \<Longrightarrow> world_le w w'"
  by (auto simp: MarkFailed_def recordOutcome_def split: method_splits
      dest: db_call_le [rotated])

lemma MarkSent_le [le_dest]: "MarkSent i p t w = (r, w') \<Longrightarrow> world_le w w'"
  by (auto simp: MarkSent_def split: method_splits dest: db_call_le [rotated])

lemma Repo_List_le [le_dest]: "Repo_List q w = (r, w') \<Longrightarrow> world_le w w'"
  by (auto simp: Repo_List_def split: method_splits dest!: db_call_le [rotated] read_rows_le
      collect_le intro: world_le_trans)

lemma ClaimDueForQueue_le [le_dest]: "ClaimDueForQueue s l w = (r, w') \<Longrightarrow> world_le w w'"
  by (auto simp: ClaimDueForQueue_def split: method_splits dest!: db_call_le [rotated] read_rows_le
      collect_le intro: world_le_trans)

lemma RecoverStaleProcessing_le [le_dest]:
  "RecoverStaleProcessing s l w = (r, w') \<Longrightarrow> world_le w w'"
  by (auto simp: RecoverStaleProcessing_def split: method_splits dest!: db_call_le [rotated] read_rows_le
      collect_le intro: world_le_trans)

lemma ListStaleQueued_le [le_dest]: "ListStaleQueued s l w = (r, w') \<Longrightarrow> world_le w w'"
  by (auto simp: ListStaleQueued_def split: method_splits dest!: db_call_le [rotated] read_rows_le
      collect_le intro: world_le_trans)

lemma TouchQueued_le [le_dest]: "TouchQueued i w = (r, w') \<Longrightarrow> world_le w w'"
  by (auto simp: TouchQueued_def split: method_splits dest: db_call_le [rotated])

lemma control_le [le_dest]:
  "ProviderOverride w = (r1, w') \<Longrightarrow> world_le w w'"
  "SetProviderOverride u w = (r2, w') \<Longrightarrow> world_le w w'"
  "WorkerPaused w = (r3, w') \<Longrightarrow> world_le w w'"
  "SetWorkerPaused p w = (r4, w') \<Longrightarrow> world_le w w'"
  by (auto simp: ProviderOverride_def SetProviderOverride_def WorkerPaused_def SetWorkerPaused_def
      split: method_splits dest: db_call_le [rotated])

lemma template_le [le_dest]:
  "Repo_CreateTemplate tm w = (r1, w') \<Longrightarrow> world_le w w'"
  "GetTemplateByName n w = (r2, w') \<Longrightarrow> world_le w w'"
  "Repo_ListTemplates w = (r3, w') \<Longrightarrow> world_le w w'"
  by (auto simp: Repo_CreateTemplate_def GetTemplateByName_def Repo_ListTemplates_def
      split: method_splits dest!: db_call_le [rotated] read_rows_le intro: world_le_trans)

section \<open>Methods that only read\<close>

lemma reads_quiet:
  "GetByID i w = (r1, w') \<Longrightarrow> quiet w w'"
  "GetByIdempotencyKey k w = (r1, w') \<Longrightarrow> quiet w w'"
  "ExistingIdempotencyKeys ks w = (r2, w') \<Longrightarrow> quiet w w'"
  "Repo_List q w = (r3, w') \<Longrightarrow> quiet w w'"
  "ListStaleQueued s l w = (r3, w') \<Longrightarrow> quiet w w'"
  "CountNotificationStatuses w = (r4, w') \<Longrightarrow> quiet w w'"
  "ProviderOverride w = (r5, w') \<Longrightarrow> quiet w w'"
  "WorkerPaused w = (r6, w') \<Longrightarrow> quiet w w'"
  "GetTemplateByName n w = (r7, w') \<Longrightarrow> quiet w w'"
  "Repo_ListTemplates w = (r8, w') \<Longrightarrow> quiet w w'"
  by (auto simp: GetByID_def GetByIdempotencyKey_def ExistingIdempotencyKeys_def Repo_List_def
      ListStaleQueued_def CountNotificationStatuses_def ProviderOverride_def WorkerPaused_def
      GetTemplateByName_def Repo_ListTemplates_def split: method_splits
      dest!: query_quiet [rotated] read_rows_quiet collect_quiet intro: quiet_trans)

section \<open>What an outcome says\<close>

text \<open>
  The errors of a call are the driver's: they never have one of the repository's sentinels as
  their cause, so a sentinel in a method's result means what the method decided.
\<close>

definition foreign_error :: "error \<Rightarrow> bool" where
  "foreign_error e \<longleftrightarrow> (\<exists>what k. e = Opaque what k) \<or> (\<exists>c k. e = PgError c k) \<or> e = ErrNoRows"

lemma foreign_error_cause:
  "foreign_error e \<Longrightarrow> cause e = e"
  "foreign_error e \<Longrightarrow> e \<noteq> ErrInvalidTransition"
  "foreign_error e \<Longrightarrow> e \<noteq> ErrNotFound"
  "foreign_error e \<Longrightarrow> e \<noteq> ErrDuplicateIdempotencyKey"
  by (auto simp: foreign_error_def)

lemma db_call_counted:
  assumes "db_call f w = (Inr k, w')"
    and "\<And>t d d'. f t (db w) = (Inr k, d') \<Longrightarrow> counted Q (g t) i k (db w) d'"
  shows "\<exists>t. counted Q (g t) i k (db w) (db w')"
  using assms(2) db_call_Inr [OF assms(1)] by blast

text \<open>The four methods that send a statement and collect its rows, in one shape.\<close>

definition collected ::
  "gotext \<Rightarrow> string \<Rightarrow> notification list stmt \<Rightarrow> world \<Rightarrow> notification list result \<times> world" where
  "collected m label f w =
     (case db_call f w of
        (Inl e, w1) \<Rightarrow> (Inl (Wrap m e), w1)
      | (Inr rows, w1) \<Rightarrow> collectNotifications label rows w1)"

lemmas collecting = Repo_List_def ClaimDueForQueue_def RecoverStaleProcessing_def ListStaleQueued_def
  collected_def [symmetric]

lemma collected_Inr:
  assumes "collected m l f w = (Inr ns, w')"
  shows "f (db_clock w (steps w)) (db w) = (Inr ns, db w')"
proof -
  from assms obtain rows w1 where c: "db_call f w = (Inr rows, w1)"
      "collectNotifications l rows w1 = (Inr ns, w')"
    by (auto simp: collected_def split: method_splits)
  from db_call_Inr [OF c(1)] collect_Inr [OF c(2)] quietD(1) [OF collect_quiet [OF c(2)]]
  show ?thesis by simp
qed

lemma collected_db:
  assumes "collected m l f w = (r, w')"
  shows "db w' = db w \<or> db w' = snd (f (db_clock w (steps w)) (db w))"
    and "published w' = published w" "requests w' = requests w" "metrics w' = metrics w"
proof -
  obtain x w1 where c: "db_call f w = (x, w1)" by fastforce
  then have "db w1 = db w \<or> db w1 = snd (f (db_clock w (steps w)) (db w))"
    by (auto elim!: db_call_cases)
  moreover have "w' = w1 \<or> quiet w1 w'"
    using assms c by (auto simp: collected_def collect_quiet split: method_splits)
  ultimately show "db w' = db w \<or> db w' = snd (f (db_clock w (steps w)) (db w))"
      "published w' = published w" "requests w' = requests w" "metrics w' = metrics w"
    using db_call_frame [OF c] by (auto dest: quietD)
qed

lemma collected_answers:
  assumes "collected m l f w = (r, w')"
    and "db_fate w (steps w) = Succeeds" "db_fate w (Suc (steps w)) = Succeeds"
    and "f (db_clock w (steps w)) (db w) = (Inr rows, d)"
  shows "r = Inr rows"
  using assms
  by (auto simp: collected_def db_call_def collectNotifications_def read_rows_def Let_def)

lemma collected_environment:
  assumes "collected m l f w = (r, w')"
  shows "publish_fate w' = publish_fate w"
  using assms
  by (auto simp: collected_def db_call_def collectNotifications_def read_rows_def Let_def
      split: prod.splits sum.splits fate.splits if_splits)

lemma GetByID_Inr: "GetByID i w = (Inr n, w') \<Longrightarrow> find_row i (db w) = Some n \<and> db w' = db w"
  by (auto simp: GetByID_def sql_select_id_def split: method_splits dest!: db_call_Inr)

lemma GetByID_db: "GetByID i w = (r, w') \<Longrightarrow> db w' = db w"
  by (auto simp: GetByID_def sql_select_id_def split: method_splits elim!: db_call_cases)

lemma GetByID_NotFound:
  "GetByID i w = (Inl e, w') \<Longrightarrow> cause e = ErrNotFound \<Longrightarrow> find_row i (db w) = None"
  by (auto simp: GetByID_def sql_select_id_def split: method_splits elim!: db_call_cases)

lemma GetByIdempotencyKey_Inr:
  "GetByIdempotencyKey k w = (Inr n, w') \<Longrightarrow>
     n \<in> set (notifications (db w)) \<and> idempotency_key n = Some k \<and> db w' = db w"
  by (auto simp: GetByIdempotencyKey_def sql_select_key_def split: method_splits
      dest!: db_call_Inr find_by_SomeD)

text \<open>The claim.\<close>

lemma ClaimForProcessing_Inr:
  assumes "db_ok (db w)" "ClaimForProcessing i src w = (Inr n, w')"
  shows "\<exists>r t. find_row i (db w) = Some r \<and> status r \<in> set src \<and> n = claimed t r \<and>
    find_row i (db w') = Some n"
proof -
  have "db_call (sql_claim i (map status_string src)) w = (Inr n, w')"
    using assms(2) by (auto simp: ClaimForProcessing_def split: method_splits)
  from sql_claim_Inr [OF assms(1) db_call_Inr [OF this]] show ?thesis by auto
qed

lemma sql_claim_foreign:
  assumes "db_call (sql_claim i allowed) w = (Inl e, w')"
  shows "foreign_error e"
  using assms
  by (auto simp: sql_claim_def Let_def foreign_error_def split: if_splits list.splits prod.splits
      elim!: db_call_cases)

lemma ClaimForProcessing_refused:
  assumes "db_ok (db w)" "ClaimForProcessing i src w = (Inl e, w')"
    and "cause e \<in> {ErrNotFound, ErrInvalidTransition}"
  shows "db w' = db w \<and> (\<forall>r. find_row i (db w) = Some r \<longrightarrow> status r \<notin> set src) \<and>
    (cause e = ErrNotFound \<longrightarrow> find_row i (db w) = None)"
proof -
  obtain e1 w1 where c: "db_call (sql_claim i (map status_string src)) w = (Inl e1, w1)"
    using assms(2) by (auto simp: ClaimForProcessing_def split: method_splits)
  note f = sql_claim_foreign [OF c]
  have e1: "e1 = ErrNoRows"
    using assms(2,3) c foreign_error_cause [OF f]
    by (auto simp: ClaimForProcessing_def split: method_splits)
  have d: "db w1 = db w \<and> (\<forall>r. find_row i (db w) = Some r \<longrightarrow> status r \<notin> set src)"
  proof -
    from c e1 obtain t where "sql_claim i (map status_string src) t (db w) = (Inl ErrNoRows, db w1)"
      by (auto elim!: db_call_cases)
    from sql_claim_Inl [OF assms(1) this] show ?thesis by auto
  qed
  show ?thesis
    using assms(2,3) c e1 d
    by (auto simp: ClaimForProcessing_def split: method_splits dest: GetByID_db GetByID_NotFound)
qed

text \<open>The outcome writes: success is the guarded write, a refusal leaves the database alone.\<close>

definition settles ::
  "(world \<Rightarrow> unit result \<times> world) \<Rightarrow> (time \<Rightarrow> notification \<Rightarrow> notification) \<Rightarrow> uuid \<Rightarrow> bool" where
  "settles op f i \<longleftrightarrow> (\<forall>w r w'. db_ok (db w) \<longrightarrow> op w = (r, w') \<longrightarrow>
     (r = Inr () \<longrightarrow> (\<exists>row t. find_row i (db w) = Some row \<and> status row = StatusProcessing \<and>
        find_row i (db w') = Some (f t row))) \<and>
     (\<forall>e. r = Inl e \<longrightarrow> cause e = ErrInvalidTransition \<longrightarrow> db w' = db w \<and>
        (\<forall>row. find_row i (db w) = Some row \<longrightarrow> status row \<noteq> StatusProcessing)) \<and>
     published w' = published w \<and> requests w' = requests w \<and> metrics w' = metrics w)"

lemma settlesD:
  assumes "settles op f i" "db_ok (db w)" "op w = (r, w')"
  shows "r = Inr () \<Longrightarrow> \<exists>row t. find_row i (db w) = Some row \<and> status row = StatusProcessing \<and>
      find_row i (db w') = Some (f t row)"
    and "r = Inl e \<Longrightarrow> cause e = ErrInvalidTransition \<Longrightarrow> db w' = db w \<and>
      (\<forall>row. find_row i (db w) = Some row \<longrightarrow> status row \<noteq> StatusProcessing)"
    and "published w' = published w" "requests w' = requests w" "metrics w' = metrics w"
  using assms unfolding settles_def by blast+

lemma settlesI:
  assumes stmt: "\<And>t d k d'. db_ok d \<Longrightarrow> stmt t d = (Inr k, d') \<Longrightarrow>
      counted (\<lambda>r. status r = StatusProcessing) (f t) i k d d'"
    and err: "\<And>t d e d'. stmt t d = (Inl e, d') \<Longrightarrow> foreign_error e"
    and op: "\<And>w. op w = (case db_call stmt w of
        (Inl e, w1) \<Rightarrow> (Inl (Wrap m e), w1)
      | (Inr rows, w1) \<Rightarrow> if rows = 0 then (Inl ErrInvalidTransition, w1) else (Inr (), w1))"
  shows "settles op f i"
proof -
  have "(r = Inr () \<longrightarrow> (\<exists>row t. find_row i (db w) = Some row \<and> status row = StatusProcessing \<and>
        find_row i (db w') = Some (f t row))) \<and>
     (\<forall>e. r = Inl e \<longrightarrow> cause e = ErrInvalidTransition \<longrightarrow> db w' = db w \<and>
        (\<forall>row. find_row i (db w) = Some row \<longrightarrow> status row \<noteq> StatusProcessing)) \<and>
     published w' = published w \<and> requests w' = requests w \<and> metrics w' = metrics w"
    if ok: "db_ok (db w)" and w: "op w = (r, w')" for w r w'
  proof -
    obtain x w1 where c: "db_call stmt w = (x, w1)" by fastforce
    show ?thesis
    proof (cases x)
      case (Inl e)
      with c err have "foreign_error e"
        by (elim db_call_cases) (auto simp: foreign_error_def)
      with Inl c w show ?thesis
        using db_call_frame [OF c] foreign_error_cause(1,2) by (auto simp: op)
    next
      case (Inr k)
      with c have "db_call stmt w = (Inr k, w1)" by simp
      from stmt [OF ok db_call_Inr [OF this]] Inr c w show ?thesis
        using db_call_frame [OF c] by (auto simp: op counted_def split: if_splits)
    qed
  qed
  then show ?thesis unfolding settles_def by blast
qed

definition outcome_row :: "status \<Rightarrow> gotext \<Rightarrow> time \<Rightarrow> notification \<Rightarrow> notification" where
  "outcome_row s e t r = r\<lparr>status := s, last_error := Some e, updated_at := t\<rparr>"

definition sent_row :: "string \<Rightarrow> time \<Rightarrow> time \<Rightarrow> notification \<Rightarrow> notification" where
  "sent_row p u t r =
     r\<lparr>status := StatusSent, provider_message_id := Some p, sent_at := Some (timestamptz u),
       updated_at := t\<rparr>"

lemma recordOutcome_settles: "settles (recordOutcome i to e) (outcome_row to e) i"
  by (rule settlesI [of "sql_record_outcome i to e"])
    (auto simp: recordOutcome_def outcome_row_def [abs_def] sql_record_outcome_def
      foreign_error_def intro: sql_record_outcome_counted split: prod.splits if_splits)

lemma MarkRetrying_settles: "settles (MarkRetrying i e) (outcome_row StatusRetrying e) i"
  using recordOutcome_settles [of i StatusRetrying e] by (simp add: MarkRetrying_def [abs_def])

lemma MarkFailed_settles: "settles (MarkFailed i e) (outcome_row StatusFailed e) i"
  using recordOutcome_settles [of i StatusFailed e] by (simp add: MarkFailed_def [abs_def])

lemma MarkSent_settles: "settles (MarkSent i p u) (sent_row p u) i"
  by (rule settlesI [of "sql_mark_sent i p u"])
    (auto simp: MarkSent_def sent_row_def [abs_def] sql_mark_sent_def
      foreign_error_def intro: sql_mark_sent_counted split: prod.splits if_splits)

section \<open>The store that the worker relies on\<close>

text \<open>
  The worker's interface \<open>Repository\<close> (internal/worker/worker.go): a claim that succeeds takes a
  claimable row into processing and counts the attempt; an outcome is written only to a row in
  processing; everything moves the database along the state machine.
\<close>

locale delivery_store =
  fixes claim :: "uuid \<Rightarrow> world \<Rightarrow> notification result \<times> world"
    and mark_sent :: "uuid \<Rightarrow> string \<Rightarrow> time \<Rightarrow> world \<Rightarrow> unit result \<times> world"
    and mark_retrying mark_failed :: "uuid \<Rightarrow> gotext \<Rightarrow> world \<Rightarrow> unit result \<times> world"
  assumes claim_le: "claim i w = (r, w') \<Longrightarrow> world_le w w'"
    and claim_Inr: "db_ok (db w) \<Longrightarrow> claim i w = (Inr n, w') \<Longrightarrow>
      \<exists>r t. find_row i (db w) = Some r \<and> CanTransition (status r) StatusProcessing \<and>
        n = claimed t r \<and> find_row i (db w') = Some n"
    and mark_le: "mark_sent i p u w = (m, w') \<Longrightarrow> world_le w w'"
      "mark_retrying i e w = (m, w') \<Longrightarrow> world_le w w'"
      "mark_failed i e w = (m, w') \<Longrightarrow> world_le w w'"
    and marks: "settles (mark_sent i p u) (sent_row p u) i"
      "settles (mark_retrying i e) (outcome_row StatusRetrying e) i"
      "settles (mark_failed i e) (outcome_row StatusFailed e) i"
begin

text \<open>While a claimed row is in processing nobody else can claim it.\<close>

lemma claim_exclusive:
  assumes "db_ok (db w)" "find_row i (db w) = Some r" "status r = StatusProcessing"
  shows "isl (fst (claim i w))"
proof (rule ccontr)
  assume "\<not> isl (fst (claim i w))"
  then obtain n w' where "claim i w = (Inr n, w')"
    by (cases "claim i w"; cases "fst (claim i w)") auto
  from claim_Inr [OF assms(1) this] assms(2,3) show False by (simp add: no_self_transition)
qed

text \<open>After a final outcome no claim ever succeeds again, whatever happens in between.\<close>

lemma final_never_claimed:
  assumes "db_ok (db w)" "find_row i (db w) = Some r" "terminal (status r)"
    and "world_le w w1" "claim i w1 = (x, w2)"
  shows "isl x"
proof (cases x)
  case (Inr n)
  have "find_row i (db w1) = Some r" using world_le_terminal [OF assms(4,1,2,3)] .
  with claim_Inr [OF world_le_db_ok [OF assms(4,1)] assms(5) [unfolded Inr]] assms(3)
  show ?thesis by (auto dest: terminal_no_transition)
qed simp

lemma sent_is_final:
  assumes "db_ok (db w)" "mark_sent i p u w = (Inr (), w1)" "world_le w1 w2" "claim i w2 = (x, w3)"
  shows "isl x"
proof -
  from settlesD(1) [OF marks(1) assms(1,2)] obtain r where
    "find_row i (db w1) = Some r" "terminal (status r)"
    by (auto simp: sent_row_def terminal_iff)
  then show ?thesis
    using final_never_claimed world_le_db_ok [OF mark_le(1) [OF assms(2)] assms(1)] assms(3,4)
    by blast
qed

lemma failed_is_final:
  assumes "db_ok (db w)" "mark_failed i e w = (Inr (), w1)" "world_le w1 w2" "claim i w2 = (x, w3)"
  shows "isl x"
proof -
  from settlesD(1) [OF marks(3) assms(1,2)] obtain r where
    "find_row i (db w1) = Some r" "terminal (status r)"
    by (auto simp: outcome_row_def terminal_iff)
  then show ?thesis
    using final_never_claimed world_le_db_ok [OF mark_le(3) [OF assms(2)] assms(1)] assms(3,4)
    by blast
qed

end

interpretation pg: delivery_store
  "\<lambda>i. ClaimForProcessing i (StatusesAllowedInto StatusProcessing)" MarkSent MarkRetrying MarkFailed
proof
  fix i w n w'
  assume "db_ok (db w)" "ClaimForProcessing i (StatusesAllowedInto StatusProcessing) w = (Inr n, w')"
  from ClaimForProcessing_Inr [OF this]
  show "\<exists>r t. find_row i (db w) = Some r \<and> CanTransition (status r) StatusProcessing \<and>
      n = claimed t r \<and> find_row i (db w') = Some n"
    by simp
qed (auto intro: ClaimForProcessing_le MarkSent_le MarkRetrying_le MarkFailed_le MarkSent_settles
    MarkRetrying_settles MarkFailed_settles)

end
