(* ===== verification/Publisher.thy ===== *)
theory Publisher
  imports World
begin

text \<open>
  internal/queue/rabbit/publisher.go: the publisher's methods. The context of a Go call is its
  correlation identifier (\<open>ctx\<close>). The lock around a publish and its confirm makes a method
  atomic with respect to other publishes of the process.
\<close>

definition publishConfirmed ::
  "ctx \<Rightarrow> string \<Rightarrow> string \<Rightarrow> publishing \<Rightarrow> world \<Rightarrow> unit result \<times> world" where
  "publishConfirmed ctx exchange routingKey p w =
     (case broker_publish exchange routingKey (p\<lparr>p_correlation_id := ctx\<rparr>) w of
        (Rejected, w1) \<Rightarrow>
          (Inl (Wrap [Plain ''publish to '', Plain exchange] (Opaque ''amqp'' (steps w))), w1)
      | (Lost, w1) \<Rightarrow>
          (Inl (Wrap [Plain ''await publish confirm from '', Plain exchange]
                 (Opaque ''amqp'' (steps w))), w1)
      | (Unconfirmed, w1) \<Rightarrow>
          (Inl (Wrap [Plain ''await publish confirm from '', Plain exchange]
                 (Opaque ''amqp'' (steps w))), w1)
      | (Nacked, w1) \<Rightarrow> (Inl (Errorf [Plain ''broker nacked publish to '', Plain exchange]), w1)
      | (Confirmed, w1) \<Rightarrow> (Inr (), w1))"

definition notification_message :: "notification \<Rightarrow> publishing" where
  "notification_message n =
     \<lparr>p_persistent = True, p_priority = amqpPriority (priority n), p_correlation_id = [],
      p_body = Message (nid n)\<rparr>"

definition publishNotification ::
  "ctx \<Rightarrow> string \<Rightarrow> notification \<Rightarrow> world \<Rightarrow> unit result \<times> world" where
  "publishNotification ctx exchange n w =
     publishConfirmed ctx exchange (channel n) (notification_message n) w"

definition PublishCreated :: "ctx \<Rightarrow> notification \<Rightarrow> world \<Rightarrow> unit result \<times> world" where
  "PublishCreated ctx n w = publishNotification ctx DirectExchange n w"

definition PublishRetry :: "ctx \<Rightarrow> notification \<Rightarrow> int \<Rightarrow> world \<Rightarrow> unit result \<times> world" where
  "PublishRetry ctx n attempt w = publishNotification ctx (tier_name (TierForAttempt attempt)) n w"

definition PublishDeadLetter :: "ctx \<Rightarrow> notification \<Rightarrow> gotext \<Rightarrow> world \<Rightarrow> unit result \<times> world" where
  "PublishDeadLetter ctx n reason w =
     publishConfirmed ctx DeadLetterExchange []
       \<lparr>p_persistent = True, p_priority = 0, p_correlation_id = [],
        p_body = DeadLetterMessage (nid n) reason\<rparr> w"

text \<open>The events channel is not in confirm mode: only a local refusal is an error.\<close>

definition PublishEvent :: "status_event \<Rightarrow> world \<Rightarrow> unit result \<times> world" where
  "PublishEvent ev w =
     (case broker_publish EventsExchange []
        \<lparr>p_persistent = False, p_priority = 0, p_correlation_id = [], p_body = StatusEvent ev\<rparr> w of
        (Rejected, w1) \<Rightarrow>
          (Inl (Wrap [Plain ''publish status event''] (Opaque ''amqp'' (steps w))), w1)
      | (_, w1) \<Rightarrow> (Inr (), w1))"

text \<open>\<open>Close\<close> closes both channels whatever happens, and reports the first that failed.\<close>

definition Publisher_Close :: "error option \<Rightarrow> error option \<Rightarrow> error option" where
  "Publisher_Close eventErr channelErr = (case channelErr of Some err \<Rightarrow> Some err | None \<Rightarrow> eventErr)"

text \<open>
  The burst: publish until the first local refusal, then collect the confirms of what is in
  flight. The fate of a publication is drawn when it is sent; the confirm reports it.
\<close>

fun publish_burst :: "ctx \<Rightarrow> notification list \<Rightarrow> world \<Rightarrow> (uuid \<times> bool) list \<times> world" where
  "publish_burst ctx [] w = ([], w)"
| "publish_burst ctx (n # ns) w =
     (case broker_publish DirectExchange (channel n)
        ((notification_message n)\<lparr>p_correlation_id := ctx\<rparr>) w of
        (f, w1) \<Rightarrow>
          if f = Rejected then ([], w1)
          else case publish_burst ctx ns w1 of
            (pending, w2) \<Rightarrow> ((nid n, f = Confirmed) # pending, w2))"

definition PublishCreatedAll :: "ctx \<Rightarrow> notification list \<Rightarrow> world \<Rightarrow> uuid list result \<times> world" where
  "PublishCreatedAll ctx ns w =
     (if ns = [] then (Inr [], w)
      else case publish_burst ctx ns w of
        (pending, w1) \<Rightarrow> (Inr (map fst (filter snd pending)), w1))"

section \<open>Frame and effect\<close>

lemma broker_publish_frame [simp]:
  "db (snd (broker_publish x k p w)) = db w"
  "requests (snd (broker_publish x k p w)) = requests w"
  "metrics (snd (broker_publish x k p w)) = metrics w"
  by (simp_all add: broker_publish_def Let_def)

lemma broker_publish_eq:
  "broker_publish x k p w = (f, w') \<Longrightarrow>
     f = publish_fate w (steps w) \<and> db w' = db w \<and> requests w' = requests w \<and>
     metrics w' = metrics w \<and>
     published w' = published w @
       (if taken f then [\<lparr>pub_exchange = x, pub_key = k, pub_message = p\<rparr>] else [])"
  by (auto simp: broker_publish_def Let_def split: if_splits)

lemma publishConfirmed_effect:
  assumes "publishConfirmed ctx x k p w = (r, w')"
  shows "db w' = db w" "requests w' = requests w" "metrics w' = metrics w" "world_le w w'"
    "r = Inr () \<Longrightarrow> published w' = published w @
       [\<lparr>pub_exchange = x, pub_key = k, pub_message = p\<lparr>p_correlation_id := ctx\<rparr>\<rparr>]"
  using assms
  by (auto simp: publishConfirmed_def taken_def split: prod.splits publish_fate.splits
      dest: broker_publish_eq broker_publish_le)

text \<open>A publication that reports success is in the broker's log; one that fails may be or not.\<close>

lemma publishConfirmed_published:
  assumes "publishConfirmed ctx x k p w = (r, w')"
  shows "published w' = published w \<or> published w' = published w @
       [\<lparr>pub_exchange = x, pub_key = k, pub_message = p\<lparr>p_correlation_id := ctx\<rparr>\<rparr>]"
  using assms
  by (auto simp: publishConfirmed_def taken_def split: prod.splits publish_fate.splits
      dest: broker_publish_eq)

lemmas publishNotification_effect = publishConfirmed_effect [where k = "channel n"
  and p = "notification_message n" for n, folded publishNotification_def]

lemmas PublishCreated_effect =
  publishNotification_effect [where x = DirectExchange, folded PublishCreated_def]

lemmas PublishRetry_effect =
  publishNotification_effect [where x = "tier_name (TierForAttempt a)" for a,
    folded PublishRetry_def]

lemma PublishDeadLetter_effect:
  assumes "PublishDeadLetter ctx n reason w = (r, w')"
  shows "db w' = db w" "requests w' = requests w" "metrics w' = metrics w" "world_le w w'"
  using assms unfolding PublishDeadLetter_def by (auto dest: publishConfirmed_effect)

lemma PublishEvent_effect:
  assumes "PublishEvent ev w = (r, w')"
  shows "db w' = db w" "requests w' = requests w" "metrics w' = metrics w" "world_le w w'"
  using assms
  by (auto simp: PublishEvent_def split: prod.splits publish_fate.splits
      dest: broker_publish_eq broker_publish_le)

lemma publish_burst_effect:
  "publish_burst ctx ns w = (pending, w') \<Longrightarrow>
     db w' = db w \<and> requests w' = requests w \<and> metrics w' = metrics w \<and> world_le w w'"
proof (induction ns arbitrary: w pending)
  case (Cons n ns)
  obtain f w1 where b: "broker_publish DirectExchange (channel n)
      ((notification_message n)\<lparr>p_correlation_id := ctx\<rparr>) w = (f, w1)"
    by fastforce
  show ?case
  proof (cases "f = Rejected")
    case True
    with b Cons.prems show ?thesis
      by (auto dest: broker_publish_eq broker_publish_le)
  next
    case False
    with b Cons.prems obtain p2 where "publish_burst ctx ns w1 = (p2, w')"
      by (auto split: prod.splits)
    from Cons.IH [OF this] broker_publish_eq [OF b] broker_publish_le [OF b] show ?thesis
      by (auto intro: world_le_trans)
  qed
qed simp

text \<open>
  The publications a burst hands over: a prefix of the notifications, and each confirmed
  identifier belongs to one of them that the broker took.
\<close>

definition created_publication :: "ctx \<Rightarrow> notification \<Rightarrow> publication" where
  "created_publication ctx n =
     \<lparr>pub_exchange = DirectExchange, pub_key = channel n,
      pub_message = (notification_message n)\<lparr>p_correlation_id := ctx\<rparr>\<rparr>"

lemma publish_burst_confirmed:
  "publish_burst ctx ns w = (pending, w') \<Longrightarrow>
   (\<exists>ps. published w' = published w @ map (created_publication ctx) ps \<and> set ps \<subseteq> set ns \<and>
      (\<forall>i. (i, True) \<in> set pending \<longrightarrow> i \<in> nid ` set ps)) \<and>
   map fst pending = map nid (take (length pending) ns)"
proof (induction ns arbitrary: w pending)
  case (Cons n ns)
  obtain f w1 where b: "broker_publish DirectExchange (channel n)
      ((notification_message n)\<lparr>p_correlation_id := ctx\<rparr>) w = (f, w1)"
    by fastforce
  show ?case
  proof (cases "f = Rejected")
    case True
    with b Cons.prems broker_publish_eq [OF b] show ?thesis
      by (auto simp: taken_def)
  next
    case False
    with b Cons.prems obtain p2 where p2: "publish_burst ctx ns w1 = (p2, w')"
      "pending = (nid n, f = Confirmed) # p2"
      by (auto split: prod.splits)
    from Cons.IH [OF p2(1)] obtain ps where
      ps: "published w' = published w1 @ map (created_publication ctx) ps" "set ps \<subseteq> set ns"
        "\<forall>i. (i, True) \<in> set p2 \<longrightarrow> i \<in> nid ` set ps"
        "map fst p2 = map nid (take (length p2) ns)"
      by blast
    define ps' where "ps' = (if taken f then [n] else []) @ ps"
    have "published w' = published w @ map (created_publication ctx) ps'"
      using ps(1) broker_publish_eq [OF b] by (simp add: ps'_def created_publication_def)
    moreover have "\<forall>i. (i, True) \<in> set pending \<longrightarrow> i \<in> nid ` set ps'"
      using ps(3) p2(2) by (auto simp: ps'_def taken_def)
    ultimately show ?thesis
      using ps(2,4) p2(2) by (intro conjI exI [of _ ps']) (auto simp: ps'_def)
  qed
qed simp

lemma PublishCreatedAll_effect:
  assumes "PublishCreatedAll ctx ns w = (r, w')"
  shows "db w' = db w" "requests w' = requests w" "metrics w' = metrics w" "world_le w w'"
  using assms
  by (auto simp: PublishCreatedAll_def split: if_splits prod.splits dest: publish_burst_effect)

lemma PublishCreatedAll_confirmed:
  assumes "PublishCreatedAll ctx ns w = (r, w')"
  obtains ids where "r = Inr ids" "set ids \<subseteq> nid ` set ns"
    "\<forall>i \<in> set ids. \<exists>n \<in> set ns. nid n = i \<and> created_publication ctx n \<in> set (published w')"
proof (cases "ns = []")
  case True
  with assms that show ?thesis by (auto simp: PublishCreatedAll_def)
next
  case False
  with assms obtain pending where p: "publish_burst ctx ns w = (pending, w')"
    "r = Inr (map fst (filter snd pending))"
    by (auto simp: PublishCreatedAll_def split: prod.splits)
  from publish_burst_confirmed [OF p(1)] obtain ps where
    "published w' = published w @ map (created_publication ctx) ps" "set ps \<subseteq> set ns"
    "\<forall>i. (i, True) \<in> set pending \<longrightarrow> i \<in> nid ` set ps"
    by blast
  with p(2) that show ?thesis by (fastforce simp: image_iff)
qed

end
