(* ===== verification/Scheduler.thy ===== *)
theory Scheduler
  imports RepositoryFacts Publisher
begin

text \<open>
  internal/scheduler/scheduler.go: one poll queues what is due, republishes what was queued but
  never consumed, and recovers what a dead worker left in processing.
\<close>

definition claimBatchLimit :: int where "claimBatchLimit = 100"

record scheduler =
  sc_poll_interval :: duration
  sc_stale_after :: duration

definition queued_event :: "notification \<Rightarrow> time \<Rightarrow> status_event" where
  "queued_event n t =
     \<lparr>ev_notification_id = nid n, ev_status = status_string StatusQueued,
      ev_channel = channel n, ev_attempts = attempts n, ev_last_error = [],
      ev_provider_message_id = [], ev_provider_status_code = 0, ev_provider_response = [],
      ev_occurred_at = t\<rparr>"

definition New_scheduler :: "duration \<Rightarrow> duration \<Rightarrow> scheduler" where
  "New_scheduler pollInterval staleAfter = \<lparr>sc_poll_interval = pollInterval, sc_stale_after = staleAfter\<rparr>"

text \<open>The three loops; the first also counts what it published.\<close>

fun publish_due :: "ctx \<Rightarrow> notification list \<Rightarrow> nat \<Rightarrow> world \<Rightarrow> nat \<times> world" where
  "publish_due ctx [] k w = (k, w)"
| "publish_due ctx (n # ns) k w =
     (case PublishCreated ctx n w of
        (Inl e, w1) \<Rightarrow> publish_due ctx ns k w1
      | (Inr _, w1) \<Rightarrow>
          (case Now w1 of (t, w2) \<Rightarrow>
             publish_due ctx ns (Suc k) (snd (PublishEvent (queued_event n t) w2))))"

definition queueDue :: "scheduler \<Rightarrow> ctx \<Rightarrow> world \<Rightarrow> world" where
  "queueDue sc ctx w =
     (case ClaimDueForQueue (sc_stale_after sc) claimBatchLimit w of
        (Inl e, w1) \<Rightarrow> w1
      | (Inr ns, w1) \<Rightarrow> snd (publish_due ctx ns 0 w1))"

fun republish_all :: "ctx \<Rightarrow> notification list \<Rightarrow> world \<Rightarrow> world" where
  "republish_all ctx [] w = w"
| "republish_all ctx (n # ns) w =
     (case PublishCreated ctx n w of
        (Inl e, w1) \<Rightarrow> republish_all ctx ns w1
      | (Inr _, w1) \<Rightarrow> (case TouchQueued (nid n) w1 of (_, w2) \<Rightarrow> republish_all ctx ns w2))"

definition republishStale :: "scheduler \<Rightarrow> ctx \<Rightarrow> world \<Rightarrow> world" where
  "republishStale sc ctx w =
     (case ListStaleQueued (sc_stale_after sc) claimBatchLimit w of
        (Inl e, w1) \<Rightarrow> w1
      | (Inr ns, w1) \<Rightarrow> republish_all ctx ns w1)"

fun publish_recovered :: "ctx \<Rightarrow> notification list \<Rightarrow> world \<Rightarrow> world" where
  "publish_recovered ctx [] w = w"
| "publish_recovered ctx (n # ns) w =
     (case PublishCreated ctx n w of (_, w1) \<Rightarrow> publish_recovered ctx ns w1)"

definition recoverStaleProcessing :: "scheduler \<Rightarrow> ctx \<Rightarrow> world \<Rightarrow> world" where
  "recoverStaleProcessing sc ctx w =
     (case RecoverStaleProcessing (sc_stale_after sc) claimBatchLimit w of
        (Inl e, w1) \<Rightarrow> w1
      | (Inr ns, w1) \<Rightarrow> publish_recovered ctx ns w1)"

definition RunOnce :: "scheduler \<Rightarrow> ctx \<Rightarrow> world \<Rightarrow> world" where
  "RunOnce sc ctx w = recoverStaleProcessing sc ctx (republishStale sc ctx (queueDue sc ctx w))"

text \<open>
  \<open>Run\<close>: the ticker panics on an interval that is not positive; otherwise one poll per tick
  until the context ends, here after a given number of ticks.
\<close>

definition Scheduler_Run :: "scheduler \<Rightarrow> ctx \<Rightarrow> nat \<Rightarrow> world \<Rightarrow> unit result \<times> world" where
  "Scheduler_Run sc ctx ticks w =
     (if sc_poll_interval sc \<le> 0 then (Inl GoPanic, w)
      else (Inr (), (RunOnce sc ctx ^^ ticks) w))"

section \<open>Legal moves\<close>

lemma publish_due_le: "world_le w (snd (publish_due ctx ns k w))"
proof (induction ns arbitrary: k w)
  case (Cons n ns)
  obtain x w1 where p: "PublishCreated ctx n w = (x, w1)" by fastforce
  obtain t w2 where t: "Now w1 = (t, w2)" by fastforce
  have "world_le w w1" using PublishCreated_effect(4) [OF p] .
  moreover have "world_le w1 (snd (PublishEvent (queued_event n t) w2))"
    using Now_le [OF t] PublishEvent_effect(4) [OF surjective_pairing] by (rule world_le_trans)
  ultimately show ?case
    using p t Cons.IH by (cases x) (auto intro: world_le_trans)
qed simp

lemma republish_all_le: "world_le w (republish_all ctx ns w)"
proof (induction ns arbitrary: w)
  case (Cons n ns)
  obtain x w1 where p: "PublishCreated ctx n w = (x, w1)" by fastforce
  obtain y w2 where t: "TouchQueued (nid n) w1 = (y, w2)" by fastforce
  from p t Cons.IH PublishCreated_effect(4) [OF p] TouchQueued_le [OF t] show ?case
    by (cases x) (auto intro: world_le_trans)
qed simp

lemma publish_recovered_le: "world_le w (publish_recovered ctx ns w)"
proof (induction ns arbitrary: w)
  case (Cons n ns)
  obtain x w1 where p: "PublishCreated ctx n w = (x, w1)" by fastforce
  with Cons.IH PublishCreated_effect(4) [OF p] show ?case by (auto intro: world_le_trans)
qed simp

lemma queueDue_le: "world_le w (queueDue sc ctx w)"
  by (auto simp: queueDue_def split: method_splits dest!: ClaimDueForQueue_le
      intro: world_le_trans publish_due_le)

lemma republishStale_le: "world_le w (republishStale sc ctx w)"
  by (auto simp: republishStale_def split: method_splits dest!: ListStaleQueued_le
      intro: world_le_trans republish_all_le)

lemma recoverStaleProcessing_le: "world_le w (recoverStaleProcessing sc ctx w)"
  by (auto simp: recoverStaleProcessing_def split: method_splits dest!: RecoverStaleProcessing_le
      intro: world_le_trans publish_recovered_le)

lemma RunOnce_le: "world_le w (RunOnce sc ctx w)"
  unfolding RunOnce_def
  using queueDue_le republishStale_le recoverStaleProcessing_le by (blast intro: world_le_trans)

lemma Scheduler_Run_le: "Scheduler_Run sc ctx k w = (r, w') \<Longrightarrow> world_le w w'"
proof -
  have "world_le w ((RunOnce sc ctx ^^ k) w)"
    by (induction k) (auto intro: world_le_trans RunOnce_le)
  then show "Scheduler_Run sc ctx k w = (r, w') \<Longrightarrow> world_le w w'"
    by (auto simp: Scheduler_Run_def split: if_splits)
qed

end
