(* ===== verification/Delivery.thy ===== *)
theory Delivery
  imports RepositoryFacts
begin

text \<open>
  internal/delivery: the webhook sender with its classification of provider replies, the log
  sender, and the switchable sender with its cached override, plus \<open>newSender\<close> of
  cmd/notifier/main.go. The locale \<open>sender\<close> is the worker's interface \<open>Sender\<close>.
\<close>

record send_result =
  sr_message_id :: string
  sr_status_code :: int
  sr_body :: string

section \<open>The webhook sender (webhook.go)\<close>

definition IsRetryable :: "error \<Rightarrow> bool" where
  "IsRetryable e = (case as_send e of Some (code, retryable, msg) \<Rightarrow> retryable | None \<Rightarrow> True)"

record webhook_sender =
  ws_url :: string
  ws_timeout :: duration

definition NewWebhookSender :: "string \<Rightarrow> duration \<Rightarrow> webhook_sender" where
  "NewWebhookSender u timeout = \<lparr>ws_url = u, ws_timeout = timeout\<rparr>"

definition maxResponseSnapshotBytes :: nat where "maxResponseSnapshotBytes = 300"
definition maxErrorBytes :: nat where "maxErrorBytes = 512"

definition readBodySnapshot :: "string \<Rightarrow> string" where
  "readBodySnapshot body = take maxResponseSnapshotBytes body"

text \<open>A read error counts only when it comes before the limit is reached.\<close>

definition readErrorBody :: "string \<Rightarrow> bool \<Rightarrow> string" where
  "readErrorBody body complete =
     (let raw = take maxErrorBytes body in
      if (\<not> complete \<and> length body < maxErrorBytes) \<or> raw = [] then ''no response body'' else raw)"

definition parseProviderMessageID :: "world \<Rightarrow> string \<Rightarrow> string" where
  "parseProviderMessageID w body =
     (case json_message_id w body of None \<Rightarrow> [] | Some i \<Rightarrow> i)"

definition request_for :: "webhook_sender \<Rightarrow> notification \<Rightarrow> provider_request" where
  "request_for s n =
     \<lparr>rq_url = ws_url s, rq_to = recipient n, rq_channel = channel n, rq_content = content n\<rparr>"

text \<open>
  \<open>client.Do\<close>: the request is on its way whatever comes back; exceeding the client's timeout is
  one of the ways to be unreachable.
\<close>

definition client_Do :: "provider_request \<Rightarrow> world \<Rightarrow> http_reply \<times> world" where
  "client_Do rq w =
     (provider_reply w (steps w) rq,
      w\<lparr>requests := requests w @ [rq], steps := Suc (steps w)\<rparr>)"

definition Webhook_Send ::
  "webhook_sender \<Rightarrow> notification \<Rightarrow> world \<Rightarrow> send_result result \<times> world" where
  "Webhook_Send s n w =
     (if \<not> url_ok w (ws_url s)
      then (Inl (Wrap [Plain ''build provider request''] (Opaque ''url'' 0)), w)
      else case client_Do (request_for s n) w of
        (Unreachable why, w1) \<Rightarrow>
          (Inl (SendError 0 True (Plain ''provider unreachable: '' # why)), w1)
      | (Reply code body complete, w1) \<Rightarrow>
          if 200 \<le> code \<and> code < 300 then
            let snapshot = readBodySnapshot body in
            (Inr \<lparr>sr_message_id = parseProviderMessageID w1 snapshot, sr_status_code = code,
                  sr_body = snapshot\<rparr>, w1)
          else if code = 429 \<or> 500 \<le> code
          then (Inl (SendError code True [Plain (readErrorBody body complete)]), w1)
          else (Inl (SendError code False [Plain (readErrorBody body complete)]), w1))"

section \<open>The log sender (logsender.go)\<close>

text \<open>Quoting with \<open>%q\<close> only adds the quotes: a UUID has hexadecimal digits and hyphens.\<close>

definition Log_Send :: "notification \<Rightarrow> world \<Rightarrow> send_result result \<times> world" where
  "Log_Send n w =
     (case uuid_New w of (i, w1) \<Rightarrow>
        (Inr \<lparr>sr_message_id = uuid_text w1 i, sr_status_code = 202,
              sr_body = ''{\"messageId\":\"'' @ uuid_text w1 i @
                ''\",\"status\":\"accepted\",\"simulated\":true}''\<rparr>, w1))"

section \<open>The switchable sender (switchable.go)\<close>

definition overrideCacheTTL :: duration where "overrideCacheTTL = 2 * second"

datatype fallback = LogFallback | WebhookFallback webhook_sender

record switchable =
  sw_fallback :: fallback
  sw_timeout :: duration
  sw_cached_url :: string
  sw_cached_at :: time
  sw_webhook :: "webhook_sender option"

definition NewSwitchableSender :: "fallback \<Rightarrow> duration \<Rightarrow> switchable" where
  "NewSwitchableSender fb timeout =
     \<lparr>sw_fallback = fb, sw_timeout = timeout, sw_cached_url = [], sw_cached_at = 0,
      sw_webhook = None\<rparr>"

definition newSender :: "string \<Rightarrow> duration \<Rightarrow> switchable" where
  "newSender providerURL timeout =
     NewSwitchableSender
       (if providerURL = [] then LogFallback
        else WebhookFallback (NewWebhookSender providerURL timeout)) timeout"

definition currentTarget ::
  "switchable \<Rightarrow> world \<Rightarrow> webhook_sender option \<times> switchable \<times> world" where
  "currentTarget s w =
     (case Now w of (t, w1) \<Rightarrow>
        if t - sw_cached_at s > overrideCacheTTL then
          (case ProviderOverride w1 of
             (Inl e, w2) \<Rightarrow> (sw_webhook s, s, w2)
           | (Inr u, w2) \<Rightarrow>
               let s1 = (if u \<noteq> sw_cached_url s then
                           s\<lparr>sw_cached_url := u,
                             sw_webhook := (if u \<noteq> [] then Some (NewWebhookSender u (sw_timeout s))
                                            else None)\<rparr>
                         else s)
               in case Now w2 of (t2, w3) \<Rightarrow> (sw_webhook s1, s1\<lparr>sw_cached_at := t2\<rparr>, w3))
        else (sw_webhook s, s, w1))"

definition fallback_Send :: "fallback \<Rightarrow> notification \<Rightarrow> world \<Rightarrow> send_result result \<times> world" where
  "fallback_Send fb n w =
     (case fb of LogFallback \<Rightarrow> Log_Send n w | WebhookFallback s \<Rightarrow> Webhook_Send s n w)"

definition Switchable_Send ::
  "switchable \<Rightarrow> notification \<Rightarrow> world \<Rightarrow> send_result result \<times> switchable \<times> world" where
  "Switchable_Send s n w =
     (case currentTarget s w of
        (None, s1, w1) \<Rightarrow> (case fallback_Send (sw_fallback s1) n w1 of (r, w2) \<Rightarrow> (r, s1, w2))
      | (Some target, s1, w1) \<Rightarrow> (case Webhook_Send target n w1 of (r, w2) \<Rightarrow> (r, s1, w2)))"

section \<open>What sending does and does not do\<close>

text \<open>A request carries the notification's recipient, channel and content.\<close>

definition request_of :: "notification \<Rightarrow> provider_request \<Rightarrow> bool" where
  "request_of n rq \<longleftrightarrow>
     rq_to rq = recipient n \<and> rq_channel rq = channel n \<and> rq_content rq = content n"

definition sends_only :: "notification \<Rightarrow> world \<Rightarrow> world \<Rightarrow> bool" where
  "sends_only n w w' \<longleftrightarrow>
     db w' = db w \<and> published w' = published w \<and> metrics w' = metrics w \<and> later w w' \<and>
     (requests w' = requests w \<or> (\<exists>rq. requests w' = requests w @ [rq] \<and> request_of n rq))"

text \<open>The worker's interface \<open>Sender\<close>.\<close>

locale sender =
  fixes send :: "'s \<Rightarrow> notification \<Rightarrow> world \<Rightarrow> send_result result \<times> 's \<times> world"
  assumes send_only: "send s n w = (r, s', w') \<Longrightarrow> sends_only n w w'"
begin

lemma send_db: "send s n w = (r, s', w') \<Longrightarrow> db w' = db w"
  using send_only by (auto simp: sends_only_def)

lemma send_published: "send s n w = (r, s', w') \<Longrightarrow> published w' = published w"
  using send_only by (auto simp: sends_only_def)

lemma send_le: "send s n w = (r, s', w') \<Longrightarrow> world_le w w'"
  using send_only by (fastforce simp: sends_only_def world_le_def)

lemma send_one_request:
  "send s n w = (r, s', w') \<Longrightarrow>
     length (requests w') \<le> Suc (length (requests w)) \<and>
     (\<forall>rq \<in> set (drop (length (requests w)) (requests w')). request_of n rq)"
  using send_only by (fastforce simp: sends_only_def)

end

lemma Webhook_only: "Webhook_Send s n w = (r, w') \<Longrightarrow> sends_only n w w'"
  by (auto simp: Webhook_Send_def client_Do_def sends_only_def request_of_def
      request_for_def Let_def split: if_splits http_reply.splits)

lemma Log_only: "Log_Send n w = (r, w') \<Longrightarrow> sends_only n w w'"
  by (auto simp: Log_Send_def uuid_New_def sends_only_def)

lemma ProviderOverride_quiet: "ProviderOverride w = (r, w') \<Longrightarrow> quiet w w'"
  by (auto simp: ProviderOverride_def split: method_splits dest: query_quiet [rotated])

lemma currentTarget_quiet: "currentTarget s w = (x, s', w') \<Longrightarrow> quiet w w'"
  by (auto simp: currentTarget_def Now_def Let_def split: method_splits
      dest!: ProviderOverride_quiet)

lemma fallback_only: "fallback_Send fb n w = (r, w') \<Longrightarrow> sends_only n w w'"
  by (auto simp: fallback_Send_def split: fallback.splits dest: Webhook_only Log_only)

lemma Switchable_only:
  assumes "Switchable_Send s n w = (r, s', w')"
  shows "sends_only n w w'"
proof -
  obtain x s1 w1 where c: "currentTarget s w = (x, s1, w1)"
    by (cases "currentTarget s w") auto
  with assms have "sends_only n w1 w'"
    by (auto simp: Switchable_Send_def split: option.splits prod.splits
        dest: Webhook_only fallback_only)
  with currentTarget_quiet [OF c] show ?thesis
    by (auto simp: sends_only_def quietD dest!: quietD(5) world_le_later intro: later_trans)
qed

interpretation webhook: sender "\<lambda>s n w. case Webhook_Send s n w of (r, w') \<Rightarrow> (r, s, w')"
  by unfold_locales (auto split: prod.splits dest: Webhook_only)

interpretation simulated: sender "\<lambda>s n w. case Log_Send n w of (r, w') \<Rightarrow> (r, s, w')"
  by unfold_locales (auto split: prod.splits dest: Log_only)

interpretation switch: sender Switchable_Send
  by unfold_locales (rule Switchable_only)

section \<open>Classification of replies\<close>

lemma Webhook_Send_code:
  assumes "url_ok w (ws_url s)"
    and "provider_reply w (steps w) (request_for s n) = Reply code body complete"
  shows "fst (Webhook_Send s n w) =
    (if 200 \<le> code \<and> code < 300
     then Inr \<lparr>sr_message_id = parseProviderMessageID w (readBodySnapshot body),
               sr_status_code = code, sr_body = readBodySnapshot body\<rparr>
     else Inl (SendError code (code = 429 \<or> 500 \<le> code) [Plain (readErrorBody body complete)]))"
  using assms by (simp add: Webhook_Send_def client_Do_def parseProviderMessageID_def Let_def)

lemma Webhook_Send_fails:
  "\<not> url_ok w (ws_url s) \<or>
   (\<exists>why. provider_reply w (steps w) (request_for s n) = Unreachable why) \<Longrightarrow>
   \<exists>e. fst (Webhook_Send s n w) = Inl e \<and> IsRetryable e"
  by (auto simp: Webhook_Send_def client_Do_def IsRetryable_def split: if_splits)

lemma readErrorBody_bounds: "readErrorBody b c \<noteq> []" "length (readErrorBody b c) \<le> 512"
  by (auto simp: readErrorBody_def maxErrorBytes_def Let_def)

lemma readBodySnapshot_bound: "length (readBodySnapshot b) \<le> 300"
  by (simp add: readBodySnapshot_def maxResponseSnapshotBytes_def)

section \<open>The override\<close>

text \<open>The cached sender is the one for the cached URL; the empty URL means none.\<close>

definition switch_ok :: "switchable \<Rightarrow> bool" where
  "switch_ok s \<longleftrightarrow> sw_webhook s =
     (if sw_cached_url s = [] then None
      else Some (NewWebhookSender (sw_cached_url s) (sw_timeout s)))"

lemma newSender_ok: "switch_ok (newSender u t)"
  by (simp add: switch_ok_def newSender_def NewSwitchableSender_def)

lemma currentTarget_ok:
  "currentTarget s w = (x, s', w') \<Longrightarrow> switch_ok s \<Longrightarrow> switch_ok s' \<and> x = sw_webhook s'"
  by (auto simp: currentTarget_def switch_ok_def Let_def split: prod.splits sum.splits if_splits)

lemma Switchable_Send_ok:
  "Switchable_Send s n w = (r, s', w') \<Longrightarrow> switch_ok s \<Longrightarrow> switch_ok s'"
  by (auto simp: Switchable_Send_def split: prod.splits option.splits dest: currentTarget_ok)

text \<open>
  With the cache older than its lifetime and a readable control row, the target is the override
  that the database holds now; within the lifetime, or when the row cannot be read, it stays.
\<close>

lemma currentTarget_fresh:
  assumes "switch_ok s" "clock w (steps w) - sw_cached_at s > overrideCacheTTL"
    and "control (db w) = Some c" "db_fate w (Suc (steps w)) = Succeeds"
  shows "fst (currentTarget s w) =
    (if wc_provider_url c = [] then None
     else Some (NewWebhookSender (wc_provider_url c) (sw_timeout s)))"
  using assms
  by (auto simp: currentTarget_def Now_def ProviderOverride_def db_call_def sql_read_control_def
      switch_ok_def Let_def split: if_splits)

lemma currentTarget_cached:
  "clock w (steps w) - sw_cached_at s \<le> overrideCacheTTL \<or>
   db_fate w (Suc (steps w)) \<noteq> Succeeds \<Longrightarrow> fst (currentTarget s w) = sw_webhook s"
  by (auto simp: currentTarget_def Now_def ProviderOverride_def db_call_def sql_read_control_def
      Let_def split: if_splits fate.splits prod.splits)

lemma a_send_is_one_request:
  assumes "Switchable_Send s n w = (r, s', w')"
  shows "db w' = db w \<and> published w' = published w \<and>
    (requests w' = requests w \<or>
     (\<exists>rq. requests w' = requests w @ [rq] \<and> rq_to rq = recipient n \<and> rq_channel rq = channel n \<and>
        rq_content rq = content n))"
  using switch.send_only [OF assms] by (auto simp: sends_only_def request_of_def)

end
