(* ===== verification/Worker.thy ===== *)
theory Worker
  imports Delivery Publisher
begin

text \<open>
  internal/worker/worker.go and the delivery handler of consume.go: claim, throttle, send,
  record the outcome, settle the message. The worker's own state is its sender's cache and the
  last pause flag it read; contexts are correlation identifiers.
\<close>

record worker =
  wk_sender :: switchable
  wk_last_paused :: bool
  wk_max_attempts :: int
  wk_concurrency :: int
  wk_limiters :: "channel \<rightharpoonup> int"
  wk_instrumented :: bool

definition New_worker :: "switchable \<Rightarrow> bool \<Rightarrow> int \<Rightarrow> int \<Rightarrow> int \<Rightarrow> worker" where
  "New_worker snder instrumented maxAttempts ratePerChannel concurrency =
     \<lparr>wk_sender = snder, wk_last_paused = False, wk_max_attempts = maxAttempts,
      wk_concurrency = concurrency,
      wk_limiters = foldl (\<lambda>m c. m(c \<mapsto> ratePerChannel)) Map.empty Channels,
      wk_instrumented = instrumented\<rparr>"

section \<open>Metrics and events\<close>

definition recordAttempt :: "worker \<Rightarrow> channel \<Rightarrow> string \<Rightarrow> duration \<Rightarrow> world \<Rightarrow> world" where
  "recordAttempt wk ch outcome dur w =
     (if wk_instrumented wk then w\<lparr>metrics := DeliveryAttempt ch outcome dur (metrics w)\<rparr> else w)"

definition recordDelivered :: "worker \<Rightarrow> channel \<Rightarrow> status \<Rightarrow> world \<Rightarrow> world" where
  "recordDelivered wk ch s w =
     (if wk_instrumented wk
      then w\<lparr>metrics := NotificationDelivered ch (status_string s) (metrics w)\<rparr> else w)"

definition emitEvent :: "notification \<Rightarrow> status \<Rightarrow> gotext \<Rightarrow> world \<Rightarrow> world" where
  "emitEvent n s lastError w =
     (case Now w of (t, w1) \<Rightarrow>
        snd (PublishEvent
          \<lparr>ev_notification_id = nid n, ev_status = status_string s, ev_channel = channel n,
           ev_attempts = attempts n, ev_last_error = lastError, ev_provider_message_id = [],
           ev_provider_status_code = 0, ev_provider_response = [], ev_occurred_at = t\<rparr> w1))"

definition emitSentEvent :: "notification \<Rightarrow> send_result \<Rightarrow> world \<Rightarrow> world" where
  "emitSentEvent n sr w =
     (case Now w of (t, w1) \<Rightarrow>
        snd (PublishEvent
          \<lparr>ev_notification_id = nid n, ev_status = status_string StatusSent,
           ev_channel = channel n, ev_attempts = attempts n, ev_last_error = [],
           ev_provider_message_id = sr_message_id sr,
           ev_provider_status_code = sr_status_code sr,
           ev_provider_response = sr_body sr, ev_occurred_at = t\<rparr> w1))"

section \<open>Processing one notification\<close>

text \<open>
  A limiter's burst equals its rate, so \<open>Wait\<close> refuses at once when the rate is below 1;
  otherwise it waits for a token and fails only when the context ends first.
\<close>

definition limiter_Wait :: "int \<Rightarrow> world \<Rightarrow> unit result \<times> world" where
  "limiter_Wait rate w =
     ((if 1 \<le> rate \<and> limiter_ok w (steps w) then Inr () else Inl (Opaque ''rate'' (steps w))),
      w\<lparr>steps := Suc (steps w)\<rparr>)"

definition failure_reason :: "notification \<Rightarrow> int \<Rightarrow> error \<Rightarrow> gotext" where
  "failure_reason n maxAttempts e =
     Plain ''attempt '' # Plain (itoa (attempts n)) # Plain ''/'' # Plain (itoa maxAttempts) #
     Plain '': '' # error_text e"

definition handleSendFailure ::
  "worker \<Rightarrow> ctx \<Rightarrow> notification \<Rightarrow> error \<Rightarrow> world \<Rightarrow> unit result \<times> world" where
  "handleSendFailure wk ctx n sendErr w =
     (if IsRetryable sendErr \<and> attempts n < wk_max_attempts wk then
        (case MarkRetrying (nid n) (error_text sendErr) w of
           (Inl e, w1) \<Rightarrow>
             if errors_is e ErrInvalidTransition then (Inr (), w1)
             else (Inl (Wrap [Plain ''mark retrying''] e), w1)
         | (Inr _, w1) \<Rightarrow>
             (case PublishRetry ctx n (attempts n) w1 of
                (Inl e, w2) \<Rightarrow> (Inl (Wrap [Plain ''publish retry''] e), w2)
              | (Inr _, w2) \<Rightarrow> (Inr (), emitEvent n StatusRetrying (error_text sendErr) w2)))
      else
        (case MarkFailed (nid n) (error_text sendErr) w of
           (Inl e, w1) \<Rightarrow>
             if errors_is e ErrInvalidTransition then (Inr (), w1)
             else (Inl (Wrap [Plain ''mark failed''] e), w1)
         | (Inr _, w1) \<Rightarrow>
             let w2 = recordDelivered wk (channel n) StatusFailed w1;
                 w3 = emitEvent n StatusFailed (error_text sendErr) w2
             in (Inr (), snd (PublishDeadLetter ctx n
                   (failure_reason n (wk_max_attempts wk) sendErr) w3))))"

text \<open>After the claim and the throttle: send, measure, record what happened.\<close>

definition deliver ::
  "worker \<Rightarrow> ctx \<Rightarrow> uuid \<Rightarrow> notification \<Rightarrow> world \<Rightarrow> unit result \<times> worker \<times> world" where
  "deliver wk ctx i n w =
     (case Now w of (sendStarted, w1) \<Rightarrow>
      case Switchable_Send (wk_sender wk) n w1 of (r, s', w2) \<Rightarrow>
      case Now w2 of (sendEnded, w3) \<Rightarrow>
      let wk' = wk\<lparr>wk_sender := s'\<rparr>; dur = sendEnded - sendStarted in
      case r of
        Inl sendErr \<Rightarrow>
          let w4 = recordAttempt wk' (channel n)
                (if IsRetryable sendErr then ''retryable'' else ''permanent'') dur w3
          in (case handleSendFailure wk' ctx n sendErr w4 of (res, w5) \<Rightarrow> (res, wk', w5))
      | Inr sendResult \<Rightarrow>
          let w4 = recordAttempt wk' (channel n) ''success'' dur w3 in
          case Now w4 of (sentAt, w5) \<Rightarrow>
          (case MarkSent i (sr_message_id sendResult) sentAt w5 of
             (Inl e, w6) \<Rightarrow>
               if errors_is e ErrInvalidTransition then (Inr (), wk', w6)
               else (Inl (Wrap [Plain ''mark sent''] e), wk', w6)
           | (Inr _, w6) \<Rightarrow>
               (Inr (), wk',
                emitSentEvent n sendResult (recordDelivered wk' (channel n) StatusSent w6))))"

definition processNotification ::
  "worker \<Rightarrow> ctx \<Rightarrow> uuid \<Rightarrow> world \<Rightarrow> unit result \<times> worker \<times> world" where
  "processNotification wk ctx i w =
     (case ClaimForProcessing i (StatusesAllowedInto StatusProcessing) w of
        (Inl e, w1) \<Rightarrow>
          if errors_is e ErrNotFound then (Inr (), wk, w1)
          else if errors_is e ErrInvalidTransition then (Inr (), wk, w1)
          else (Inl (Wrap [Plain ''claim notification''] e), wk, w1)
      | (Inr n, w1) \<Rightarrow>
          (case wk_limiters wk (channel n) of
             None \<Rightarrow> (Inl GoPanic, wk, w1)
           | Some rate \<Rightarrow>
               (case limiter_Wait rate w1 of
                  (Inl e, w2) \<Rightarrow>
                    (case MarkRetrying (nid n) [Plain ''delivery interrupted before send''] w2 of
                       (_, w3) \<Rightarrow> (Inl (Wrap [Plain ''rate limit wait''] e), wk, w3))
                | (Inr _, w2) \<Rightarrow> deliver wk ctx i n w2)))"

section \<open>Handling a message (consume.go)\<close>

text \<open>
  What \<open>json.Unmarshal\<close> into a \<open>Message\<close> reads: every body of message.go has the field
  \<open>notification_id\<close>.
\<close>

fun decode_message :: "body \<Rightarrow> uuid option" where
  "decode_message (Message i) = Some i"
| "decode_message (DeadLetterMessage i reason) = Some i"
| "decode_message (StatusEvent ev) = Some (ev_notification_id ev)"
| "decode_message (Malformed s) = None"

text \<open>The process dies on a panic; the broker then requeues what was not settled.\<close>

datatype settlement = Acked | Requeued | Discarded | Crashed

definition handleDelivery ::
  "worker \<Rightarrow> ctx \<Rightarrow> publishing \<Rightarrow> world \<Rightarrow> settlement \<times> worker \<times> world" where
  "handleDelivery wk ctx0 p w =
     (let ctx = (if p_correlation_id p \<noteq> [] then p_correlation_id p else ctx0) in
      case decode_message (p_body p) of
        None \<Rightarrow> (Discarded, wk, w)
      | Some i \<Rightarrow>
          (case processNotification wk ctx i w of
             (Inl e, wk', w') \<Rightarrow> (if e = GoPanic then Crashed else Requeued, wk', w')
           | (Inr _, wk', w') \<Rightarrow> (Acked, wk', w')))"

definition isPaused :: "worker \<Rightarrow> world \<Rightarrow> bool \<times> worker \<times> world" where
  "isPaused wk w =
     (case WorkerPaused w of
        (Inl e, w1) \<Rightarrow> (wk_last_paused wk, wk, w1)
      | (Inr paused, w1) \<Rightarrow> (paused, wk\<lparr>wk_last_paused := paused\<rparr>, w1))"

end
