(* ===== verification/WorkerFacts.thy ===== *)
theory WorkerFacts
  imports Worker
begin

text \<open>
  What processing one message does: legal moves only, at most one request and only for a row
  that this call has claimed, and when the message counts as settled the row says what happened.
\<close>

section \<open>Frames\<close>

lemma recordAttempt_frame [simp]:
  "db (recordAttempt wk c oc d w) = db w" "published (recordAttempt wk c oc d w) = published w"
  "requests (recordAttempt wk c oc d w) = requests w"
  "world_le w (recordAttempt wk c oc d w)"
  by (simp_all add: recordAttempt_def world_le_same)

lemma recordDelivered_frame [simp]:
  "db (recordDelivered wk c s w) = db w" "published (recordDelivered wk c s w) = published w"
  "requests (recordDelivered wk c s w) = requests w"
  "world_le w (recordDelivered wk c s w)"
  by (simp_all add: recordDelivered_def world_le_same)

lemma Now_frame:
  "Now w = (t, w') \<Longrightarrow> db w' = db w \<and> published w' = published w \<and> requests w' = requests w \<and>
     metrics w' = metrics w"
  by (auto simp: Now_def)

lemma emitEvent_frame [simp]:
  "db (emitEvent n s e w) = db w" "requests (emitEvent n s e w) = requests w"
  "world_le w (emitEvent n s e w)"
  by (auto simp: emitEvent_def Now_def PublishEvent_effect [OF surjective_pairing]
      intro: world_le_trans [OF world_le_update(1) PublishEvent_effect(4) [OF surjective_pairing]])

lemma emitSentEvent_frame [simp]:
  "db (emitSentEvent n r w) = db w" "requests (emitSentEvent n r w) = requests w"
  "world_le w (emitSentEvent n r w)"
  by (auto simp: emitSentEvent_def Now_def PublishEvent_effect [OF surjective_pairing]
      intro: world_le_trans [OF world_le_update(1) PublishEvent_effect(4) [OF surjective_pairing]])

text \<open>Measuring and announcing around a move, as steps of a chain of moves.\<close>

lemma le_after:
  "world_le (recordAttempt wk c oc d w) x \<Longrightarrow> world_le w x"
  by (rule world_le_trans [OF recordAttempt_frame(4)])

lemma le_before:
  "world_le w x \<Longrightarrow> world_le w (emitEvent n s e x)"
  "world_le w x \<Longrightarrow> world_le w (emitSentEvent n r x)"
  "world_le w x \<Longrightarrow> world_le w (recordDelivered wk c s x)"
  "world_le w x \<Longrightarrow> world_le w (snd (PublishDeadLetter ctx n reason x))"
  by (auto intro: world_le_trans PublishDeadLetter_effect(4) [OF surjective_pairing])

lemma limiter_Wait_frame:
  "limiter_Wait rate w = (r, w') \<Longrightarrow> db w' = db w \<and> published w' = published w \<and>
     requests w' = requests w \<and> metrics w' = metrics w \<and> world_le w w'"
  by (auto simp: limiter_Wait_def)

section \<open>Legal moves\<close>

lemma handleSendFailure_le:
  "handleSendFailure wk ctx n e w = (r, w') \<Longrightarrow> world_le w w'"
  by (auto simp: handleSendFailure_def Let_def split: method_splits
      dest!: MarkRetrying_le MarkFailed_le PublishRetry_effect(4)
      intro!: le_before intro: world_le_trans)

lemma handleSendFailure_requests:
  "handleSendFailure wk ctx n e w = (r, w') \<Longrightarrow> requests w' = requests w"
  by (auto simp: handleSendFailure_def MarkRetrying_def MarkFailed_def recordOutcome_def Let_def
      PublishDeadLetter_effect(2) [OF surjective_pairing]
      split: method_splits dest!: db_call_quiet PublishRetry_effect(2))

lemma deliver_le:
  assumes "deliver wk ctx i n w = (r, wk', w')"
  shows "world_le w w'"
proof -
  obtain t1 w1 where n1: "Now w = (t1, w1)" by fastforce
  obtain x s' w2 where s: "Switchable_Send (wk_sender wk) n w1 = (x, s', w2)"
    by (cases "Switchable_Send (wk_sender wk) n w1") auto
  obtain t3 w3 where n3: "Now w2 = (t3, w3)" by fastforce
  have w3: "world_le w w3"
    using Now_le [OF n1] switch.send_le [OF s] Now_le [OF n3] by (blast intro: world_le_trans)
  have "world_le w3 w'"
    using assms n1 s n3
    by (cases x)
      (auto simp: deliver_def Let_def split: method_splits
        dest!: handleSendFailure_le MarkSent_le Now_le le_after intro!: le_before
        intro: world_le_trans)
  with w3 show ?thesis by (rule world_le_trans)
qed

lemma processNotification_le:
  "processNotification wk ctx i w = (r, wk', w') \<Longrightarrow> world_le w w'"
  by (auto simp: processNotification_def split: method_splits
      dest!: ClaimForProcessing_le MarkRetrying_le deliver_le limiter_Wait_frame
      intro: world_le_trans)

lemma handleDelivery_le:
  "handleDelivery wk ctx p w = (s, wk', w') \<Longrightarrow> world_le w w'"
  by (auto simp: handleDelivery_def Let_def split: method_splits dest!: processNotification_le)

section \<open>Requests\<close>

lemma deliver_requests:
  assumes "deliver wk ctx i n w = (r, wk', w')"
  shows "requests w' = requests w \<or> (\<exists>rq. requests w' = requests w @ [rq] \<and> request_of n rq)"
proof -
  obtain t1 w1 where n1: "Now w = (t1, w1)" by fastforce
  obtain x s' w2 where s: "Switchable_Send (wk_sender wk) n w1 = (x, s', w2)"
    by (cases "Switchable_Send (wk_sender wk) n w1") auto
  obtain t3 w3 where n3: "Now w2 = (t3, w3)" by fastforce
  have "requests w' = requests w2"
    using assms n1 s n3 Now_frame [OF n3]
    by (cases x)
      (auto simp: deliver_def Let_def MarkSent_def split: method_splits
        dest!: handleSendFailure_requests Now_frame db_call_quiet)
  with switch.send_only [OF s] Now_frame [OF n1] show ?thesis by (auto simp: sends_only_def)
qed

lemma ClaimForProcessing_frame:
  assumes "ClaimForProcessing i src w = (r, w')"
  shows "requests w' = requests w" "published w' = published w" "metrics w' = metrics w"
  using assms
  by (auto simp: ClaimForProcessing_def GetByID_def split: method_splits dest!: db_call_quiet)

lemma processNotification_requests:
  assumes "db_ok (db w)" "processNotification wk ctx i w = (r, wk', w')"
  shows "requests w' = requests w \<or>
    (\<exists>row rq. find_row i (db w) = Some row \<and> CanTransition (status row) StatusProcessing \<and>
       requests w' = requests w @ [rq] \<and> request_of row rq)"
proof (cases "ClaimForProcessing i (StatusesAllowedInto StatusProcessing) w")
  case (Pair x w1)
  note fr = ClaimForProcessing_frame [OF Pair]
  show ?thesis
  proof (cases x)
    case (Inl e)
    with Pair assms(2) fr show ?thesis by (auto simp: processNotification_def split: if_splits)
  next
    case (Inr n)
    with Pair assms(1) obtain row t where row: "find_row i (db w) = Some row"
      "CanTransition (status row) StatusProcessing" "n = claimed t row"
      using ClaimForProcessing_Inr [of w i "StatusesAllowedInto StatusProcessing" n w1] by auto
    have "requests w' = requests w \<or> (\<exists>rq. requests w' = requests w @ [rq] \<and> request_of n rq)"
      using assms(2) Pair Inr fr
      by (auto simp: processNotification_def MarkRetrying_def recordOutcome_def split: method_splits
          dest!: deliver_requests limiter_Wait_frame db_call_quiet)
    with row show ?thesis by (auto simp: request_of_def)
  qed
qed

section \<open>Outcomes\<close>

text \<open>The message that a retry puts on its tier, and the row a failed send leaves.\<close>

definition retry_publication :: "ctx \<Rightarrow> notification \<Rightarrow> publication" where
  "retry_publication ctx n =
     \<lparr>pub_exchange = tier_name (TierForAttempt (attempts n)), pub_key = channel n,
      pub_message = (notification_message n)\<lparr>p_correlation_id := ctx\<rparr>\<rparr>"

definition failure_status :: "worker \<Rightarrow> notification \<Rightarrow> error \<Rightarrow> status" where
  "failure_status wk n e =
     (if IsRetryable e \<and> attempts n < wk_max_attempts wk then StatusRetrying else StatusFailed)"

lemma in_snoc_published: "world_le a b \<Longrightarrow> p \<in> set (published a) \<Longrightarrow> p \<in> set (published b)"
  by (auto simp: world_le_def)

lemma emitEvent_published: "p \<in> set (published w) \<Longrightarrow> p \<in> set (published (emitEvent n s e w))"
  by (rule in_snoc_published [OF emitEvent_frame(3)])

lemma handleSendFailure_acked:
  assumes ok: "db_ok (db w)" and row: "find_row (nid n) (db w) = Some row"
    and p: "status row = StatusProcessing"
    and h: "handleSendFailure wk ctx n e w = (Inr (), w')"
  shows "(\<exists>t. find_row (nid n) (db w') =
      Some (outcome_row (failure_status wk n e) (error_text e) t row)) \<and>
    (failure_status wk n e = StatusRetrying \<longrightarrow> retry_publication ctx n \<in> set (published w'))"
proof (cases "IsRetryable e \<and> attempts n < wk_max_attempts wk")
  case True
  then have fs: "failure_status wk n e = StatusRetrying" by (simp add: failure_status_def)
  obtain r1 w1 where m: "MarkRetrying (nid n) (error_text e) w = (r1, w1)" by fastforce
  note d = settlesD [OF MarkRetrying_settles ok m]
  from h m True d(2) row p have r1: "r1 = Inr ()"
    by (auto simp: handleSendFailure_def split: sum.splits if_splits)
  obtain r2 w2 where pr: "PublishRetry ctx n (attempts n) w1 = (r2, w2)" by fastforce
  from h m r1 True pr have r2: "r2 = Inr ()" "w' = emitEvent n StatusRetrying (error_text e) w2"
    by (auto simp: handleSendFailure_def split: sum.splits)
  from d(1) [OF r1] row have "\<exists>t. find_row (nid n) (db w1) =
      Some (outcome_row StatusRetrying (error_text e) t row)" by auto
  moreover have "retry_publication ctx n \<in> set (published w2)"
    using PublishRetry_effect(5) [OF pr r2(1)] by (simp add: retry_publication_def)
  ultimately show ?thesis
    using PublishRetry_effect(1) [OF pr] r2(2) fs by (simp add: emitEvent_published)
next
  case False
  then have fs: "failure_status wk n e = StatusFailed" by (simp add: failure_status_def)
  obtain r1 w1 where m: "MarkFailed (nid n) (error_text e) w = (r1, w1)" by fastforce
  note d = settlesD [OF MarkFailed_settles ok m]
  from h m False d(2) row p have r1: "r1 = Inr ()"
    by (auto simp: handleSendFailure_def split: sum.splits if_splits)
  then have "db w' = db w1"
    using h m False
    by (auto simp: handleSendFailure_def Let_def PublishDeadLetter_effect(1) [OF surjective_pairing]
        split: sum.splits if_splits)
  with d(1) [OF r1] row show ?thesis by (auto simp: fs)
qed

text \<open>
  What a delivery that ends well means: the send succeeded and the row is sent with the
  provider's identifier, or it failed and the row says so, with the retry on its tier.
\<close>

definition delivered_as ::
  "worker \<Rightarrow> ctx \<Rightarrow> uuid \<Rightarrow> notification \<Rightarrow> send_result result \<Rightarrow> world \<Rightarrow> bool" where
  "delivered_as wk ctx i n x w' \<longleftrightarrow>
     (case x of
        Inr sr \<Rightarrow> \<exists>u t. find_row i (db w') = Some (sent_row (sr_message_id sr) u t n)
      | Inl e \<Rightarrow> (\<exists>t. find_row i (db w') =
            Some (outcome_row (failure_status wk n e) (error_text e) t n)) \<and>
          (failure_status wk n e = StatusRetrying \<longrightarrow>
            retry_publication ctx n \<in> set (published w')))"

lemma deliver_acked:
  assumes ok: "db_ok (db w)" and row: "find_row i (db w) = Some n"
    and p: "status n = StatusProcessing"
    and h: "deliver wk ctx i n w = (Inr (), wk', w')"
  shows "\<exists>x s' w1 w2. Now w = (fst (Now w), w1) \<and>
    Switchable_Send (wk_sender wk) n w1 = (x, s', w2) \<and>
    delivered_as wk ctx i n x w'"
proof -
  have nid: "nid n = i" using db_ok_rowD [OF ok row] by simp
  obtain t1 w1 where n1: "Now w = (t1, w1)" by fastforce
  obtain x s' w2 where s: "Switchable_Send (wk_sender wk) n w1 = (x, s', w2)"
    by (cases "Switchable_Send (wk_sender wk) n w1") auto
  obtain t3 w3 where n3: "Now w2 = (t3, w3)" by fastforce
  define wk1 where "wk1 = wk\<lparr>wk_sender := s'\<rparr>"
  have d3: "db w3 = db w"
    using Now_frame [OF n1] switch.send_db [OF s] Now_frame [OF n3] by simp
  have "delivered_as wk ctx i n x w'"
  proof (cases x)
    case (Inl e)
    define w4 where "w4 = recordAttempt wk1 (channel n)
      (if IsRetryable e then ''retryable'' else ''permanent'') (t3 - t1) w3"
    have d4: "db w4 = db w" by (simp add: w4_def d3)
    have "handleSendFailure wk1 ctx n e w4 = (Inr (), w')"
      using h n1 s n3 Inl by (auto simp: deliver_def Let_def wk1_def w4_def split: prod.splits)
    from handleSendFailure_acked [OF _ _ _ this, of n] show ?thesis
      using ok row p nid Inl by (simp add: d4 failure_status_def wk1_def delivered_as_def)
  next
    case (Inr sr)
    define w4 where "w4 = recordAttempt wk1 (channel n) ''success'' (t3 - t1) w3"
    obtain u w5 where n5: "Now w4 = (u, w5)" by fastforce
    have d5: "db w5 = db w" using Now_frame [OF n5] by (simp add: w4_def d3)
    obtain r6 w6 where m: "MarkSent i (sr_message_id sr) u w5 = (r6, w6)" by fastforce
    have ok5: "db_ok (db w5)" using ok by (simp add: d5)
    note d = settlesD [OF MarkSent_settles ok5 m]
    from h n1 s n3 Inr n5 m d(2) row p d5 have r6: "r6 = Inr ()" and "db w' = db w6"
      by (auto simp: deliver_def Let_def wk1_def [symmetric] w4_def [symmetric]
          split: sum.splits if_splits)
    with d(1) [OF r6] row d5 Inr show ?thesis by (auto simp: delivered_as_def)
  qed
  with n1 s show ?thesis by (intro exI [of _ x] exI [of _ s'] exI [of _ w1] exI [of _ w2]) simp
qed

lemma outcome_row_simps [simp]:
  "status (outcome_row s e t r) = s" "attempts (outcome_row s e t r) = attempts r"
  "last_error (outcome_row s e t r) = Some e"
  by (simp_all add: outcome_row_def)

text \<open>The row after an acknowledged message for a claimable row.\<close>

definition settled_as :: "notification \<Rightarrow> notification \<Rightarrow> bool" where
  "settled_as r r' \<longleftrightarrow> same_identity r r' \<and> attempts r' = attempts r + 1 \<and>
     status r' \<in> {StatusSent, StatusRetrying, StatusFailed}"

lemma settled_as_outcome:
  "s \<in> {StatusRetrying, StatusFailed} \<Longrightarrow> settled_as r (outcome_row s e u (claimed t r))"
  "settled_as r (sent_row p u v (claimed t r))"
  by (auto simp: settled_as_def same_identity_def outcome_row_def sent_row_def claimed_def)

lemma claim_acked_Inr:
  assumes "db_ok (db w)" "find_row i (db w) = Some r" "CanTransition (status r) StatusProcessing"
    and "processNotification wk ctx i w = (Inr (), wk', w')"
  obtains n t w1 rate w2 where
    "ClaimForProcessing i (StatusesAllowedInto StatusProcessing) w = (Inr n, w1)"
    "n = claimed t r" "find_row i (db w1) = Some n" "wk_limiters wk (channel n) = Some rate"
    "limiter_Wait rate w1 = (Inr (), w2)" "deliver wk ctx i n w2 = (Inr (), wk', w')"
proof (cases "ClaimForProcessing i (StatusesAllowedInto StatusProcessing) w")
  case (Pair x w1)
  show thesis
  proof (cases x)
    case (Inl e)
    with Pair assms(4) have "cause e \<in> {ErrNotFound, ErrInvalidTransition}"
      by (auto simp: processNotification_def split: if_splits)
    from ClaimForProcessing_refused [OF assms(1) Pair [unfolded Inl] this] assms(2,3)
    show thesis by simp
  next
    case (Inr n)
    from ClaimForProcessing_Inr [OF assms(1) Pair [unfolded Inr]] assms(2) obtain t where
      "n = claimed t r" "find_row i (db w1) = Some n" by auto
    with assms(4) Pair Inr that show thesis
      by (auto simp: processNotification_def split: option.splits sum.splits prod.splits)
  qed
qed

lemma processNotification_acked:
  assumes ok: "db_ok (db w)" and row: "find_row i (db w) = Some r"
    and ct: "CanTransition (status r) StatusProcessing"
    and p: "processNotification wk ctx i w = (Inr (), wk', w')"
  shows "\<exists>r'. find_row i (db w') = Some r' \<and> settled_as r r' \<and>
    (status r' = StatusRetrying \<longrightarrow>
      (\<exists>n. nid n = i \<and> attempts n = attempts r' \<and> channel n = channel r \<and> priority n = priority r \<and>
        retry_publication ctx n \<in> set (published w')))"
proof -
  from claim_acked_Inr [OF assms] obtain n t w1 rate w2 where c:
    "ClaimForProcessing i (StatusesAllowedInto StatusProcessing) w = (Inr n, w1)"
    "n = claimed t r" "find_row i (db w1) = Some n"
    "limiter_Wait rate w1 = (Inr (), w2)" "deliver wk ctx i n w2 = (Inr (), wk', w')"
    by metis
  have d2: "db w2 = db w1" using limiter_Wait_frame [OF c(4)] by simp
  have ok2: "db_ok (db w2)"
    using world_le_db_ok [OF ClaimForProcessing_le [OF c(1)] ok] by (simp add: d2)
  have st: "status n = StatusProcessing" "nid n = i"
    using c(2) db_ok_rowD [OF ok row] by simp_all
  from deliver_acked [OF ok2 _ st(1) c(5)] c(3) obtain x where
    x: "delivered_as wk ctx i n x w'"
    by (auto simp: d2)
  then show ?thesis
  proof (cases x)
    case (Inl e)
    with x obtain u where u: "find_row i (db w') =
        Some (outcome_row (failure_status wk n e) (error_text e) u n)"
      and pub: "failure_status wk n e = StatusRetrying \<longrightarrow>
        retry_publication ctx n \<in> set (published w')"
      by (auto simp: delivered_as_def)
    have "settled_as r (outcome_row (failure_status wk n e) (error_text e) u n)"
      unfolding c(2) by (rule settled_as_outcome(1)) (simp add: failure_status_def)
    with u pub st(2) c(2) show ?thesis
      by (intro exI [of _ "outcome_row (failure_status wk n e) (error_text e) u n"])
        (auto intro!: exI [of _ n])
  next
    case (Inr sr)
    then show ?thesis
      using x c(2) settled_as_outcome(2) [of r]
      by (auto simp: delivered_as_def sent_row_def)
  qed
qed

section \<open>Messages that are not delivered\<close>

text \<open>
  A message for a row that is cancelled, finished, scheduled, being processed by someone else or
  missing changes nothing and reaches no provider.
\<close>

definition claimable :: "uuid \<Rightarrow> database \<Rightarrow> bool" where
  "claimable i d \<longleftrightarrow> (\<exists>r. find_row i d = Some r \<and> CanTransition (status r) StatusProcessing)"

lemma ClaimForProcessing_unclaimable:
  assumes ok: "db_ok (db w)" and n: "\<not> claimable i (db w)"
    and c: "ClaimForProcessing i (StatusesAllowedInto StatusProcessing) w = (x, w')"
  shows "isl x \<and> db w' = db w"
proof -
  have x: "isl x"
  proof (cases x)
    case (Inr m)
    with ClaimForProcessing_Inr [OF ok c [unfolded Inr]] n show ?thesis
      by (auto simp: claimable_def)
  qed simp
  obtain y w1 where d: "db_call (sql_claim i (map status_string (StatusesAllowedInto
      StatusProcessing))) w = (y, w1)" by fastforce
  have stmt: "d' = db w" if "sql_claim i (map status_string (StatusesAllowedInto
      StatusProcessing)) t (db w) = (z, d')" for t z d'
  proof (cases z)
    case (Inl e)
    with sql_claim_Inl [OF ok that [unfolded Inl]] show ?thesis by simp
  next
    case (Inr m)
    with sql_claim_Inr [OF ok that [unfolded Inr]] n show ?thesis by (auto simp: claimable_def)
  qed
  then have "db w1 = db w" using d by (auto elim!: db_call_cases)
  with c d x show ?thesis
    by (auto simp: ClaimForProcessing_def split: method_splits dest!: GetByID_db)
qed

lemma processNotification_unclaimable:
  assumes "db_ok (db w)" "\<not> claimable i (db w)" "processNotification wk ctx i w = (r, wk', w')"
  shows "db w' = db w \<and> requests w' = requests w \<and> published w' = published w \<and> wk' = wk"
proof (cases "ClaimForProcessing i (StatusesAllowedInto StatusProcessing) w")
  case (Pair x w1)
  with ClaimForProcessing_unclaimable [OF assms(1,2)] have "isl x" "db w1 = db w" by auto
  with Pair ClaimForProcessing_frame [OF Pair] assms(3) show ?thesis
    by (cases x) (auto simp: processNotification_def split: if_splits)
qed

text \<open>A worker built by \<open>New\<close> never meets a channel without a limiter.\<close>

definition limiters_ok :: "worker \<Rightarrow> bool" where
  "limiters_ok wk \<longleftrightarrow> (\<forall>c. Channel_Valid c \<longrightarrow> wk_limiters wk c \<noteq> None)"

lemma New_worker_limiters_ok: "limiters_ok (New_worker s m a r c)"
  by (auto simp: limiters_ok_def New_worker_def Channel_Valid_def Channels_def)

lemma limiter_Wait_no_panic: "limiter_Wait rate w = (Inl e, w') \<Longrightarrow> e \<noteq> GoPanic"
  by (auto simp: limiter_Wait_def split: if_splits)

lemma handleSendFailure_no_panic: "handleSendFailure wk ctx n e w = (r, w') \<Longrightarrow> r \<noteq> Inl GoPanic"
  by (auto simp: handleSendFailure_def Let_def split: method_splits)

lemma deliver_no_panic: "deliver wk ctx i n w = (r, wk', w') \<Longrightarrow> r \<noteq> Inl GoPanic"
  by (auto simp: deliver_def Let_def split: method_splits dest!: handleSendFailure_no_panic)

lemma processNotification_no_panic:
  assumes "db_ok (db w)" "limiters_ok wk" "processNotification wk ctx i w = (r, wk', w')"
  shows "r \<noteq> Inl GoPanic"
proof (cases "ClaimForProcessing i (StatusesAllowedInto StatusProcessing) w")
  case (Pair x w1)
  show ?thesis
  proof (cases x)
    case (Inl e)
    with Pair assms(3) show ?thesis by (auto simp: processNotification_def split: if_splits)
  next
    case (Inr n)
    with ClaimForProcessing_Inr [OF assms(1) Pair [unfolded Inr]] db_ok_rowD [OF assms(1)]
    obtain row t where "find_row i (db w) = Some row" "n = claimed t row" by auto
    with db_ok_rowD [OF assms(1), of i row] assms(2) have "wk_limiters wk (channel n) \<noteq> None"
      by (auto simp: limiters_ok_def row_ok_def)
    with Pair Inr assms(3) show ?thesis
      by (auto simp: processNotification_def split: method_splits dest!: deliver_no_panic)
  qed
qed

lemma processNotification_limiters:
  "processNotification wk ctx i w = (r, wk', w') \<Longrightarrow>
     wk_limiters wk' = wk_limiters wk \<and> wk_max_attempts wk' = wk_max_attempts wk \<and>
     (switch_ok (wk_sender wk) \<longrightarrow> switch_ok (wk_sender wk'))"
  by (auto simp: processNotification_def deliver_def Let_def split: method_splits
      dest: Switchable_Send_ok)

end
