(* ===== verification/SchedulerFacts.thy ===== *)
theory SchedulerFacts
  imports Scheduler WorkerFacts
begin

text \<open>
  What a poll does to each row and which notifications it hands to the broker: due rows become
  queued and are published, rows that are not due are left alone, and so are retrying rows.
\<close>

section \<open>Which notifications a step announces\<close>

definition announces :: "uuid set \<Rightarrow> world \<Rightarrow> world \<Rightarrow> bool" where
  "announces S w w' \<longleftrightarrow> (\<exists>ps. published w' = published w @ ps \<and>
     (\<forall>p \<in> set ps. \<exists>i \<in> S. decode_message (p_body (pub_message p)) = Some i))"

lemma announces_same: "published w' = published w \<Longrightarrow> announces S w w'"
  by (simp add: announces_def)

lemma announces_trans: "announces S a b \<Longrightarrow> announces S b c \<Longrightarrow> announces S a c"
proof -
  assume "announces S a b" "announces S b c"
  then obtain ps qs where "published b = published a @ ps" "published c = published b @ qs"
    "\<forall>p \<in> set ps. \<exists>i \<in> S. decode_message (p_body (pub_message p)) = Some i"
    "\<forall>p \<in> set qs. \<exists>i \<in> S. decode_message (p_body (pub_message p)) = Some i"
    by (auto simp: announces_def)
  then show "announces S a c"
    unfolding announces_def by (intro exI [of _ "ps @ qs"]) auto
qed

lemma announces_mono: "announces S a b \<Longrightarrow> S \<subseteq> T \<Longrightarrow> announces T a b"
  by (fastforce simp: announces_def)

lemma PublishCreated_announces:
  assumes "PublishCreated ctx n w = (r, w')"
  shows "announces {nid n} w w'"
  using assms publishConfirmed_published
  by (fastforce simp: announces_def PublishCreated_def publishNotification_def
      notification_message_def)

lemma PublishEvent_announces:
  assumes "PublishEvent ev w = (r, w')"
  shows "announces {ev_notification_id ev} w w'"
  using assms
  by (auto simp: PublishEvent_def announces_def split: prod.splits publish_fate.splits
      dest!: broker_publish_eq)

text \<open>A message for a notification, by this process or another, is kept by the broker's log.\<close>

definition handed_over :: "uuid \<Rightarrow> world \<Rightarrow> bool" where
  "handed_over i w \<longleftrightarrow> (\<exists>p \<in> set (published w).
     pub_exchange p = DirectExchange \<and> p_body (pub_message p) = Message i)"

lemma handed_over_mono: "world_le w w' \<Longrightarrow> handed_over i w \<Longrightarrow> handed_over i w'"
  by (auto simp: handed_over_def world_le_def)

lemma created_publication_handed_over:
  "created_publication ctx n \<in> set (published w) \<Longrightarrow> handed_over (nid n) w"
  by (auto simp: handed_over_def created_publication_def notification_message_def intro!: bexI)

lemma PublishCreated_handed_over:
  assumes "PublishCreated ctx n w = (Inr (), w')"
  shows "handed_over (nid n) w'"
  using PublishCreated_effect(5) [OF assms]
  by (simp add: handed_over_def notification_message_def)

section \<open>Claiming rows by identifier\<close>

lemma find_row_claimed_ids:
  assumes "keeps_identity f"
  shows "find_row i (snd (update_returning (\<lambda>r. nid r \<in> S) f d)) =
    map_option (\<lambda>r. if i \<in> S then f r else r) (find_row i d)"
proof (cases "find_row i d")
  case (Some r)
  then have "nid r = i" by (auto simp: find_row_def dest: find_by_SomeD)
  with Some show ?thesis by (simp add: find_row_update [OF assms])
qed (simp add: find_row_update [OF assms])

definition queued_row :: "time \<Rightarrow> notification \<Rightarrow> notification" where
  "queued_row t r = r\<lparr>status := StatusQueued, updated_at := t\<rparr>"

definition recovered_row :: "time \<Rightarrow> notification \<Rightarrow> notification" where
  "recovered_row t r = r\<lparr>status := StatusRetrying,
     last_error := Some [Plain ''recovered from stale processing''], updated_at := t\<rparr>"

lemma keeps_queued [simp]: "keeps_identity (queued_row t)" "keeps_identity (recovered_row t)"
  by (simp_all add: queued_row_def [abs_def] recovered_row_def [abs_def])

text \<open>A selection that is not full takes every row that qualifies and is not locked.\<close>

lemma select_ids_complete:
  assumes "r \<in> set rows" "P r" "\<not> locked (nid r)"
    and "length (filter P rows) \<le> nat limit"
  shows "nid r \<in> set (select_ids P key limit locked rows)"
proof -
  have "length (filter (\<lambda>r. P r \<and> \<not> locked (nid r)) rows) \<le> length (filter P rows)"
    by (induction rows) auto
  with assms show ?thesis by (auto simp: select_ids_def)
qed

lemma ClaimDueForQueue_Inr:
  assumes ok: "db_ok (db w)" and c: "ClaimDueForQueue s l w = (Inr ns, w')"
  defines "t \<equiv> db_clock w (steps w)"
  shows "\<exists>ids. ids = select_ids (due s t) created_at l (row_locked w (steps w)) (notifications (db w)) \<and>
    nid ` set ns = set ids \<and>
    (\<forall>i. find_row i (db w') = map_option (\<lambda>r. if i \<in> set ids then queued_row t r else r)
       (find_row i (db w)))"
proof -
  define ids where
    "ids = select_ids (due s t) created_at l (row_locked w (steps w)) (notifications (db w))"
  from collected_Inr [OF c [unfolded collecting]] have
    ns: "ns = map (queued_row t) (filter (\<lambda>r. nid r \<in> set ids) (notifications (db w)))" and
    d': "db w' = snd (update_returning (\<lambda>r. nid r \<in> set ids) (queued_row t) (db w))"
    by (auto simp: sql_claim_due_def Let_def t_def ids_def queued_row_def [abs_def]
        update_returning_def)
  have "set ids \<subseteq> nid ` set (notifications (db w))"
    by (auto simp: ids_def select_ids_def dest: in_set_takeD)
  then have "nid ` set ns = set ids"
    by (force simp: ns queued_row_def image_iff)
  then show ?thesis
    by (intro exI [of _ ids]) (simp add: ids_def [symmetric] d' find_row_claimed_ids)
qed

lemma RecoverStaleProcessing_Inr:
  assumes ok: "db_ok (db w)" and c: "RecoverStaleProcessing s l w = (Inr ns, w')"
  defines "t \<equiv> db_clock w (steps w)"
  shows "\<exists>ids. ids = select_ids (stale_in StatusProcessing s t) updated_at l
      (row_locked w (steps w)) (notifications (db w)) \<and>
    nid ` set ns = set ids \<and>
    (\<forall>i. find_row i (db w') = map_option (\<lambda>r. if i \<in> set ids then recovered_row t r else r)
       (find_row i (db w)))"
proof -
  define ids where "ids = select_ids (stale_in StatusProcessing s t) updated_at l
      (row_locked w (steps w)) (notifications (db w))"
  from collected_Inr [OF c [unfolded collecting]] have
    ns: "ns = map (recovered_row t) (filter (\<lambda>r. nid r \<in> set ids) (notifications (db w)))" and
    d': "db w' = snd (update_returning (\<lambda>r. nid r \<in> set ids) (recovered_row t) (db w))"
    by (auto simp: sql_recover_stale_def Let_def t_def ids_def recovered_row_def [abs_def]
        update_returning_def)
  have "set ids \<subseteq> nid ` set (notifications (db w))"
    by (auto simp: ids_def select_ids_def dest: in_set_takeD)
  then have "nid ` set ns = set ids"
    by (force simp: ns recovered_row_def image_iff)
  then show ?thesis
    by (intro exI [of _ ids]) (simp add: ids_def [symmetric] d' find_row_claimed_ids)
qed

section \<open>The first sweep: what is due\<close>

lemma publish_due_frame:
  "db (snd (publish_due ctx ns k w)) = db w \<and> announces (nid ` set ns) w (snd (publish_due ctx ns k w))"
proof (induction ns arbitrary: k w)
  case (Cons n ns)
  obtain x w1 where p: "PublishCreated ctx n w = (x, w1)" by fastforce
  obtain t w2 where t: "Now w1 = (t, w2)" by fastforce
  obtain y w3 where e: "PublishEvent (queued_event n t) w2 = (y, w3)" by fastforce
  let ?S = "nid ` set (n # ns)"
  have a1: "announces ?S w w1"
    using PublishCreated_announces [OF p] by (rule announces_mono) simp
  have a2: "announces ?S w1 w2" using Now_frame [OF t] by (simp add: announces_same)
  have a3: "announces ?S w2 w3"
    using PublishEvent_announces [OF e] by (rule announces_mono) (simp add: queued_event_def)
  have IH: "db (snd (publish_due ctx ns k v)) = db v \<and>
      announces ?S v (snd (publish_due ctx ns k v))" for k v
    using Cons.IH [of k v] by (auto intro: announces_mono)
  have a: "announces ?S w w3" using a1 a2 a3 by (blast intro: announces_trans)
  have d: "db w1 = db w" "db w3 = db w"
    using PublishCreated_effect(1) [OF p] Now_frame [OF t] PublishEvent_effect(1) [OF e] by simp_all
  show ?case
  proof (cases x)
    case (Inl e)
    with p IH [of k w1] a1 d show ?thesis by (auto intro: announces_trans)
  next
    case (Inr u)
    with p t e have "publish_due ctx (n # ns) k w = publish_due ctx ns (Suc k) w3" by simp
    with IH [of "Suc k" w3] a d show ?thesis using announces_trans [OF a] by simp
  qed
qed (simp add: announces_same)

lemma publish_due_handed_over:
  assumes "\<And>j. publish_fate w j = Confirmed" "n \<in> set ns"
  shows "handed_over (nid n) (snd (publish_due ctx ns k w))"
  using assms
proof (induction ns arbitrary: k w)
  case (Cons m ns)
  obtain x w1 where p: "PublishCreated ctx m w = (x, w1)" by fastforce
  then have x: "x = Inr ()" "publish_fate w1 = publish_fate w"
    using Cons.prems(1)
    by (auto simp: PublishCreated_def publishNotification_def publishConfirmed_def
        broker_publish_def Let_def taken_def split: if_splits)
  obtain t w2 where t: "Now w1 = (t, w2)" by fastforce
  obtain y w3 where e: "PublishEvent (queued_event m t) w2 = (y, w3)" by fastforce
  have f3: "publish_fate w3 = publish_fate w"
    using t e x(2)
    by (auto simp: Now_def PublishEvent_def broker_publish_def Let_def
        split: prod.splits publish_fate.splits if_splits)
  have le: "world_le w1 w3"
    using Now_le [OF t] PublishEvent_effect(4) [OF e] by (rule world_le_trans)
  have eq: "snd (publish_due ctx (m # ns) k w) = snd (publish_due ctx ns (Suc k) w3)"
    using p x(1) t e by simp
  show ?case
  proof (cases "n \<in> set ns")
    case True
    then show ?thesis unfolding eq using Cons.IH [of w3] f3 Cons.prems(1) by simp
  next
    case False
    with Cons.prems(2) have "n = m" by simp
    with PublishCreated_handed_over p x(1) have "handed_over (nid n) w1" by blast
    then show ?thesis
      unfolding eq using world_le_trans [OF le publish_due_le] by (rule handed_over_mono [rotated])
  qed
qed simp

text \<open>A row that is due, when no more rows are due than one poll takes, is queued and published.\<close>

lemma queueDue_due:
  assumes ok: "db_ok (db w)" and row: "find_row i (db w) = Some r"
    and due: "due (sc_stale_after sc) (db_clock w (steps w)) r"
    and room: "length (filter (due (sc_stale_after sc) (db_clock w (steps w)))
      (notifications (db w))) \<le> 100"
    and calm: "db_fate w (steps w) = Succeeds" "db_fate w (Suc (steps w)) = Succeeds"
      "\<And>j. publish_fate w j = Confirmed"
    and unlocked: "\<not> row_locked w (steps w) i"
  shows "find_row i (db (queueDue sc ctx w)) = Some (queued_row (db_clock w (steps w)) r) \<and>
    handed_over i (queueDue sc ctx w)"
proof -
  obtain x w1 where c: "ClaimDueForQueue (sc_stale_after sc) claimBatchLimit w = (x, w1)"
    by fastforce
  obtain ns where ns: "x = Inr ns"
    using collected_answers [OF c [unfolded collecting] calm(1,2)]
    by (simp add: sql_claim_due_def update_returning_def Let_def)
  from ClaimDueForQueue_Inr [OF ok c [unfolded ns]] obtain ids where
    ids: "ids = select_ids (due (sc_stale_after sc) (db_clock w (steps w))) created_at claimBatchLimit
      (row_locked w (steps w)) (notifications (db w))" "nid ` set ns = set ids"
    "\<forall>i. find_row i (db w1) = map_option (\<lambda>r. if i \<in> set ids then
       queued_row (db_clock w (steps w)) r else r) (find_row i (db w))"
    by blast
  have in_rows: "r \<in> set (notifications (db w))" "nid r = i"
    using row find_row_iff [OF ok] by auto
  have "nid r \<in> set ids"
    unfolding ids(1) using in_rows due unlocked room
    by (intro select_ids_complete) (auto simp: claimBatchLimit_def)
  then have i: "i \<in> set ids" using in_rows(2) by simp
  then obtain n where n: "n \<in> set ns" "nid n = i" using ids(2) by (metis imageE)
  have w: "queueDue sc ctx w = snd (publish_due ctx ns 0 w1)"
    using c ns by (simp add: queueDue_def)
  have pf: "publish_fate w1 j = Confirmed" for j
    using collected_environment [OF c [unfolded collecting]] calm(3) by simp
  from publish_due_frame [of ctx ns 0 w1] ids(3) row i publish_due_handed_over [OF pf n(1)] n(2)
  show ?thesis by (simp add: w)
qed

text \<open>A row that is not due is neither changed nor announced by the sweep.\<close>

lemma queueDue_not_due:
  assumes ok: "db_ok (db w)"
    and nd: "\<And>r. find_row i (db w) = Some r \<Longrightarrow> \<not> due (sc_stale_after sc) (db_clock w (steps w)) r"
  shows "find_row i (db (queueDue sc ctx w)) = find_row i (db w) \<and>
    (\<exists>S. i \<notin> S \<and> announces S w (queueDue sc ctx w))"
proof -
  obtain x w1 where c: "ClaimDueForQueue (sc_stale_after sc) claimBatchLimit w = (x, w1)"
    by fastforce
  have pub: "published w1 = published w"
    using collected_db(2) [OF c [unfolded collecting]] .
  define ids where "ids = select_ids (due (sc_stale_after sc) (db_clock w (steps w))) created_at
    claimBatchLimit (row_locked w (steps w)) (notifications (db w))"
  have i: "i \<notin> set ids"
  proof
    assume "i \<in> set ids"
    then obtain r where "r \<in> set (notifications (db w))" "nid r = i"
      "due (sc_stale_after sc) (db_clock w (steps w)) r"
      by (auto simp: ids_def select_ids_def dest!: in_set_takeD)
    with nd find_row_iff [OF ok] show False by blast
  qed
  show ?thesis
  proof (cases x)
    case (Inr ns)
    from ClaimDueForQueue_Inr [OF ok c [unfolded Inr]] i have
      "nid ` set ns = set ids" "find_row i (db w1) = find_row i (db w)"
      by (auto simp: ids_def option.map_ident)
    with c Inr publish_due_frame [of ctx ns 0 w1] i pub show ?thesis
      by (auto simp: queueDue_def intro!: exI [of _ "set ids"] intro: announces_trans announces_same)
  next
    case (Inl e)
    have stmt: "find_row i d = find_row i (db w)"
      if "sql_claim_due (sc_stale_after sc) claimBatchLimit (row_locked w (steps w))
            (db_clock w (steps w)) (db w) = (y, d)" for y d
    proof -
      from that have "d = snd (update_returning (\<lambda>r. nid r \<in> set ids)
          (queued_row (db_clock w (steps w))) (db w))"
        by (auto simp: sql_claim_due_def Let_def ids_def queued_row_def [abs_def]
            update_returning_def)
      with i show ?thesis by (simp add: find_row_claimed_ids option.map_ident)
    qed
    have "find_row i (db w1) = find_row i (db w)"
      using collected_db(1) [OF c [unfolded collecting]] stmt surjective_pairing by metis
    with c Inl pub show ?thesis
      by (auto simp: queueDue_def intro!: exI [of _ "{}"] announces_same)
  qed
qed

section \<open>The second sweep: queued and never consumed\<close>

lemma TouchQueued_frame:
  assumes "db_ok (db w)" "TouchQueued j w = (r, w')"
  shows "published w' = published w"
    "\<And>i. find_row i (db w') = find_row i (db w) \<or> i = j \<and> (\<exists>q t. find_row i (db w) = Some q \<and>
       status q = StatusQueued \<and> find_row i (db w') = Some (q\<lparr>updated_at := t\<rparr>))"
proof -
  obtain x where c: "db_call (sql_touch_queued j) w = (x, w')"
    using assms(2) by (auto simp: TouchQueued_def split: method_splits)
  then show "published w' = published w" by (simp add: db_call_frame)
  fix i
  have row: "find_row i d = map_option (\<lambda>q. if i = j \<and> status q = StatusQueued
      then q\<lparr>updated_at := t\<rparr> else q) (find_row i (db w))"
    if "sql_touch_queued j t (db w) = (y, d)" for t y d
  proof -
    from that have "d = snd (update_returning (\<lambda>r. nid r = j \<and> status r = StatusQueued)
        (\<lambda>r. r\<lparr>updated_at := t\<rparr>) (db w))"
      by (auto simp: sql_touch_queued_def)
    then show ?thesis
      using db_ok_rowD [OF assms(1), of i] by (cases "find_row i (db w)") (simp_all add: find_row_update)
  qed
  have done_row: "find_row i d = find_row i (db w) \<or> i = j \<and> (\<exists>q t. find_row i (db w) = Some q \<and>
       status q = StatusQueued \<and> find_row i d = Some (q\<lparr>updated_at := t\<rparr>))"
    if "sql_touch_queued j t (db w) = (y, d)" for t y d
    using row [OF that] by (cases "find_row i (db w)") auto
  from c show "find_row i (db w') = find_row i (db w) \<or> i = j \<and> (\<exists>q t. find_row i (db w) = Some q \<and>
       status q = StatusQueued \<and> find_row i (db w') = Some (q\<lparr>updated_at := t\<rparr>))"
    by (cases rule: db_call_cases) (use done_row in auto)
qed

lemma republish_all_other:
  assumes "db_ok (db w)" "i \<notin> nid ` set ns"
  shows "find_row i (db (republish_all ctx ns w)) = find_row i (db w) \<and>
    announces (nid ` set ns) w (republish_all ctx ns w)"
  using assms
proof (induction ns arbitrary: w)
  case (Cons n ns)
  obtain x w1 where p: "PublishCreated ctx n w = (x, w1)" by fastforce
  obtain y w2 where t: "TouchQueued (nid n) w1 = (y, w2)" by fastforce
  let ?S = "nid ` set (n # ns)"
  have ok1: "db_ok (db w1)" using Cons.prems(1) PublishCreated_effect(1) [OF p] by simp
  have ok2: "db_ok (db w2)" using world_le_db_ok [OF TouchQueued_le [OF t] ok1] .
  have a1: "announces ?S w w1"
    using PublishCreated_announces [OF p] by (rule announces_mono) simp
  have a2: "announces ?S w w2"
    using a1 TouchQueued_frame(1) [OF ok1 t] by (auto intro: announces_trans announces_same)
  have f: "find_row i (db w1) = find_row i (db w)" "find_row i (db w2) = find_row i (db w)"
    using PublishCreated_effect(1) [OF p] TouchQueued_frame(2) [OF ok1 t, of i] Cons.prems(2)
    by auto
  have IH: "find_row i (db (republish_all ctx ns v)) = find_row i (db v) \<and>
      announces ?S v (republish_all ctx ns v)" if "db_ok (db v)" for v
    using Cons.IH [OF that] Cons.prems(2) by (auto intro: announces_mono)
  show ?case
  proof (cases x)
    case (Inl e)
    with p IH [OF ok1] a1 f show ?thesis by (auto intro: announces_trans)
  next
    case (Inr u)
    with p t have "republish_all ctx (n # ns) w = republish_all ctx ns w2" by simp
    with IH [OF ok2] a2 f show ?thesis using announces_trans [OF a2] by simp
  qed
qed (simp add: announces_same)

lemma ListStaleQueued_Inr:
  assumes "ListStaleQueued s l w = (Inr ns, w')" "n \<in> set ns"
  shows "n \<in> set (notifications (db w)) \<and> status n = StatusQueued"
proof -
  from collected_Inr [OF assms(1) [unfolded collecting]] assms(2) show ?thesis
    by (auto simp: sql_list_stale_queued_def stale_in_def dest!: in_set_takeD)
qed

lemma republishStale_other:
  assumes ok: "db_ok (db w)"
    and nq: "\<And>r. find_row i (db w) = Some r \<Longrightarrow> status r \<noteq> StatusQueued"
  shows "find_row i (db (republishStale sc ctx w)) = find_row i (db w) \<and>
    (\<exists>S. i \<notin> S \<and> announces S w (republishStale sc ctx w))"
proof -
  obtain x w1 where c: "ListStaleQueued (sc_stale_after sc) claimBatchLimit w = (x, w1)"
    by fastforce
  note q = reads_quiet(5) [OF c]
  have ok1: "db_ok (db w1)" using ok quietD(1) [OF q] by simp
  show ?thesis
  proof (cases x)
    case (Inl e)
    with c q show ?thesis
      by (auto simp: republishStale_def quietD intro!: exI [of _ "{}"] announces_same)
  next
    case (Inr ns)
    have i: "i \<notin> nid ` set ns"
    proof
      assume "i \<in> nid ` set ns"
      then obtain n where "n \<in> set ns" "nid n = i" by auto
      with ListStaleQueued_Inr [OF c [unfolded Inr]] nq find_row_iff [OF ok] show False by blast
    qed
    have "announces (nid ` set ns) w w1" using q by (simp add: announces_same quietD)
    from announces_trans [OF this] republish_all_other [OF ok1 i] i c Inr q show ?thesis
      by (auto simp: republishStale_def quietD intro!: exI [of _ "nid ` set ns"])
  qed
qed

section \<open>The third sweep: left in processing\<close>

lemma publish_recovered_frame:
  "db (publish_recovered ctx ns w) = db w \<and> announces (nid ` set ns) w (publish_recovered ctx ns w)"
proof (induction ns arbitrary: w)
  case (Cons n ns)
  obtain x w1 where p: "PublishCreated ctx n w = (x, w1)" by fastforce
  have a1: "announces (nid ` set (n # ns)) w w1"
    using PublishCreated_announces [OF p] by (rule announces_mono) simp
  have "announces (nid ` set (n # ns)) w1 (publish_recovered ctx ns w1)"
    using Cons.IH [of w1] by (auto intro: announces_mono)
  with p Cons.IH [of w1] announces_trans [OF a1] PublishCreated_effect(1) [OF p] show ?case
    by simp
qed (simp add: announces_same)

lemma publish_recovered_handed_over:
  assumes "\<And>j. publish_fate w j = Confirmed" "n \<in> set ns"
  shows "handed_over (nid n) (publish_recovered ctx ns w)"
  using assms
proof (induction ns arbitrary: w)
  case (Cons m ns)
  obtain x w1 where p: "PublishCreated ctx m w = (x, w1)" by fastforce
  then have x: "x = Inr ()" "publish_fate w1 = publish_fate w"
    using Cons.prems(1)
    by (auto simp: PublishCreated_def publishNotification_def publishConfirmed_def
        broker_publish_def Let_def taken_def split: if_splits)
  show ?case
  proof (cases "n \<in> set ns")
    case True
    then show ?thesis using p Cons.IH [of w1] x(2) Cons.prems(1) by simp
  next
    case False
    with Cons.prems(2) have "n = m" by simp
    with PublishCreated_handed_over p x(1) have "handed_over (nid n) w1" by blast
    with p show ?thesis using handed_over_mono [OF publish_recovered_le] by simp
  qed
qed simp

text \<open>A row stranded in processing goes back to retrying and is handed to the workers again.\<close>

lemma recoverStaleProcessing_stale:
  assumes ok: "db_ok (db w)" and row: "find_row i (db w) = Some r"
    and stale: "stale_in StatusProcessing (sc_stale_after sc) (db_clock w (steps w)) r"
    and room: "length (filter (stale_in StatusProcessing (sc_stale_after sc) (db_clock w (steps w)))
      (notifications (db w))) \<le> 100"
    and calm: "db_fate w (steps w) = Succeeds" "db_fate w (Suc (steps w)) = Succeeds"
      "\<And>j. publish_fate w j = Confirmed"
    and unlocked: "\<not> row_locked w (steps w) i"
  shows "find_row i (db (recoverStaleProcessing sc ctx w)) =
      Some (recovered_row (db_clock w (steps w)) r) \<and>
    handed_over i (recoverStaleProcessing sc ctx w)"
proof -
  obtain x w1 where c: "RecoverStaleProcessing (sc_stale_after sc) claimBatchLimit w = (x, w1)"
    by fastforce
  obtain ns where ns: "x = Inr ns"
    using collected_answers [OF c [unfolded collecting] calm(1,2)]
    by (simp add: sql_recover_stale_def update_returning_def Let_def)
  from RecoverStaleProcessing_Inr [OF ok c [unfolded ns]] obtain ids where
    ids: "ids = select_ids (stale_in StatusProcessing (sc_stale_after sc) (db_clock w (steps w)))
      updated_at claimBatchLimit (row_locked w (steps w)) (notifications (db w))"
    "nid ` set ns = set ids"
    "\<forall>i. find_row i (db w1) = map_option (\<lambda>r. if i \<in> set ids then
       recovered_row (db_clock w (steps w)) r else r) (find_row i (db w))"
    by blast
  have in_rows: "r \<in> set (notifications (db w))" "nid r = i"
    using row find_row_iff [OF ok] by auto
  have "nid r \<in> set ids"
    unfolding ids(1) using in_rows stale unlocked room
    by (intro select_ids_complete) (auto simp: claimBatchLimit_def)
  then have i: "i \<in> set ids" using in_rows(2) by simp
  then obtain n where n: "n \<in> set ns" "nid n = i" using ids(2) by (metis imageE)
  have w: "recoverStaleProcessing sc ctx w = publish_recovered ctx ns w1"
    using c ns by (simp add: recoverStaleProcessing_def)
  have pf: "publish_fate w1 j = Confirmed" for j
    using collected_environment [OF c [unfolded collecting]] calm(3) by simp
  from publish_recovered_frame [of ctx ns w1] ids(3) row i
    publish_recovered_handed_over [OF pf n(1)] n(2)
  show ?thesis by (simp add: w)
qed

lemma recoverStaleProcessing_other:
  assumes ok: "db_ok (db w)"
    and ns: "\<And>r. find_row i (db w) = Some r \<Longrightarrow>
      \<not> stale_in StatusProcessing (sc_stale_after sc) (db_clock w (steps w)) r"
  shows "find_row i (db (recoverStaleProcessing sc ctx w)) = find_row i (db w) \<and>
    (\<exists>S. i \<notin> S \<and> announces S w (recoverStaleProcessing sc ctx w))"
proof -
  obtain x w1 where c: "RecoverStaleProcessing (sc_stale_after sc) claimBatchLimit w = (x, w1)"
    by fastforce
  have pub: "published w1 = published w"
    using collected_db(2) [OF c [unfolded collecting]] .
  define ids where "ids = select_ids (stale_in StatusProcessing (sc_stale_after sc)
    (db_clock w (steps w))) updated_at claimBatchLimit (row_locked w (steps w)) (notifications (db w))"
  have i: "i \<notin> set ids"
  proof
    assume "i \<in> set ids"
    then obtain r where "r \<in> set (notifications (db w))" "nid r = i"
      "stale_in StatusProcessing (sc_stale_after sc) (db_clock w (steps w)) r"
      by (auto simp: ids_def select_ids_def dest!: in_set_takeD)
    with ns find_row_iff [OF ok] show False by blast
  qed
  show ?thesis
  proof (cases x)
    case (Inr rows)
    from RecoverStaleProcessing_Inr [OF ok c [unfolded Inr]] i have
      "nid ` set rows = set ids" "find_row i (db w1) = find_row i (db w)"
      by (auto simp: ids_def option.map_ident)
    with c Inr publish_recovered_frame [of ctx rows w1] i pub show ?thesis
      by (auto simp: recoverStaleProcessing_def intro!: exI [of _ "set ids"]
          intro: announces_trans announces_same)
  next
    case (Inl e)
    have stmt: "find_row i d = find_row i (db w)"
      if "sql_recover_stale (sc_stale_after sc) claimBatchLimit (row_locked w (steps w))
            (db_clock w (steps w)) (db w) = (y, d)" for y d
    proof -
      from that have "d = snd (update_returning (\<lambda>r. nid r \<in> set ids)
          (recovered_row (db_clock w (steps w))) (db w))"
        by (auto simp: sql_recover_stale_def Let_def ids_def recovered_row_def [abs_def]
            update_returning_def)
      with i show ?thesis by (simp add: find_row_claimed_ids option.map_ident)
    qed
    have "find_row i (db w1) = find_row i (db w)"
      using collected_db(1) [OF c [unfolded collecting]] stmt surjective_pairing by metis
    with c Inl pub show ?thesis
      by (auto simp: recoverStaleProcessing_def intro!: exI [of _ "{}"] announces_same)
  qed
qed

section \<open>A whole poll\<close>

text \<open>
  A row that waits for a retry, or is finished, is neither changed nor announced by a poll: a
  retry whose message is lost is not rescued by any sweep.
\<close>

lemma RunOnce_untouched:
  assumes ok: "db_ok (db w)" and row: "find_row i (db w) = Some r"
    and st: "status r = StatusRetrying \<or> terminal (status r)"
  shows "find_row i (db (RunOnce sc ctx w)) = Some r \<and>
    (\<exists>S. i \<notin> S \<and> announces S w (RunOnce sc ctx w))"
proof -
  have idle: "\<not> due s t r" "status r \<noteq> StatusQueued" "\<not> stale_in StatusProcessing s t r" for s t
    using st by (auto simp: due_def stale_in_def terminal_iff)
  define w1 where "w1 = queueDue sc ctx w"
  define w2 where "w2 = republishStale sc ctx w1"
  have run: "RunOnce sc ctx w = recoverStaleProcessing sc ctx w2"
    by (simp add: RunOnce_def w1_def w2_def)
  have "find_row i (db w1) = find_row i (db w) \<and> (\<exists>S. i \<notin> S \<and> announces S w w1)"
    unfolding w1_def using row idle(1) by (intro queueDue_not_due [OF ok]) simp
  then obtain S1 where 1: "find_row i (db w1) = Some r" "i \<notin> S1" "announces S1 w w1"
    using row by auto
  have ok1: "db_ok (db w1)" using world_le_db_ok [OF queueDue_le ok] by (simp add: w1_def)
  have "find_row i (db w2) = find_row i (db w1) \<and> (\<exists>S. i \<notin> S \<and> announces S w1 w2)"
    unfolding w2_def using 1(1) idle(2) by (intro republishStale_other [OF ok1]) simp
  then obtain S2 where 2: "find_row i (db w2) = Some r" "i \<notin> S2" "announces S2 w1 w2"
    using 1(1) by auto
  have ok2: "db_ok (db w2)" using world_le_db_ok [OF republishStale_le ok1] by (simp add: w2_def)
  have "find_row i (db (RunOnce sc ctx w)) = find_row i (db w2) \<and>
      (\<exists>S. i \<notin> S \<and> announces S w2 (RunOnce sc ctx w))"
    unfolding run using 2(1) idle(3) by (intro recoverStaleProcessing_other [OF ok2]) simp
  then obtain S3 where 3: "find_row i (db (RunOnce sc ctx w)) = Some r" "i \<notin> S3"
    "announces S3 w2 (RunOnce sc ctx w)"
    using 2(1) by auto
  let ?S = "S1 \<union> S2 \<union> S3"
  have "announces ?S w w1" using 1(3) by (rule announces_mono) auto
  moreover have "announces ?S w1 w2" using 2(3) by (rule announces_mono) auto
  ultimately have "announces ?S w w2" by (rule announces_trans)
  moreover have "announces ?S w2 (RunOnce sc ctx w)" using 3(3) by (rule announces_mono) auto
  ultimately have "announces ?S w (RunOnce sc ctx w)" by (rule announces_trans)
  with 1(2) 2(2) 3(1,2) show ?thesis by (intro conjI exI [of _ ?S]) auto
qed

end
