(* ===== verification/Service.thy ===== *)
theory Service
  imports RepositoryFacts Publisher
begin

text \<open>
  internal/service/notification.go and template.go with internal/template/render.go: creating,
  cancelling, reading and listing notifications, and the templates. Go's \<open>text/template\<close> is a
  parameter of the world (\<open>tmpl_parse\<close> and \<open>tmpl_execute\<close>); a compiled template is
  identified with the body it was compiled from.
\<close>

section \<open>Templates (render.go)\<close>

definition template_Validate :: "world \<Rightarrow> string \<Rightarrow> error option" where
  "template_Validate w body =
     map_option (\<lambda>t. Wrap [Plain ''template does not parse''] (Errorf t)) (tmpl_parse w body)"

definition template_Parse :: "world \<Rightarrow> string \<Rightarrow> string result" where
  "template_Parse w body =
     (case tmpl_parse w body of
        Some t \<Rightarrow> Inl (Wrap [Plain ''parse template''] (Errorf t))
      | None \<Rightarrow> Inr body)"

definition Parsed_Render :: "world \<Rightarrow> string \<Rightarrow> (string \<times> string) list \<Rightarrow> string result" where
  "Parsed_Render w compiled vars =
     (case tmpl_execute w compiled vars of
        Inl t \<Rightarrow> Inl (Wrap [Plain ''render template''] (Errorf t))
      | Inr s \<Rightarrow> Inr s)"

definition template_Render :: "world \<Rightarrow> string \<Rightarrow> (string \<times> string) list \<Rightarrow> string result" where
  "template_Render w body vars =
     (case template_Parse w body of Inl e \<Rightarrow> Inl e | Inr c \<Rightarrow> Parsed_Render w c vars)"

section \<open>The template service (template.go)\<close>

record create_template_input =
  ct_name :: string
  ct_channel :: channel
  ct_body :: string

definition Template_Create :: "create_template_input \<Rightarrow> world \<Rightarrow> template result \<times> world" where
  "Template_Create inp w =
     (case Now w of (now, w1) \<Rightarrow>
      case uuid_New w1 of (i, w2) \<Rightarrow>
      let tm = \<lparr>t_id = i, t_name = ct_name inp, t_channel = ct_channel inp, t_body = ct_body inp,
                t_created_at = now, t_updated_at = now\<rparr> in
      case ValidateNewTemplate tm of
        Some e \<Rightarrow> (Inl e, w2)
      | None \<Rightarrow>
          (case template_Validate w2 (t_body tm) of
             Some e \<Rightarrow> (Inl (ValidationErrors [field_err ''body'' (error_text e)]), w2)
           | None \<Rightarrow>
               (case Repo_CreateTemplate tm w2 of
                  (Inl e, w3) \<Rightarrow> (Inl e, w3)
                | (Inr _, w3) \<Rightarrow> (Inr tm, w3))))"

definition Template_GetByName :: "string \<Rightarrow> world \<Rightarrow> template result \<times> world" where
  "Template_GetByName name w =
     (case GetTemplateByName name w of
        (Inl e, w1) \<Rightarrow> (Inl (Wrap [Plain ''get template''] e), w1)
      | (Inr tm, w1) \<Rightarrow> (Inr tm, w1))"

definition Template_List :: "world \<Rightarrow> template list result \<times> world" where
  "Template_List w =
     (case Repo_ListTemplates w of
        (Inl e, w1) \<Rightarrow> (Inl (Wrap [Plain ''list templates''] e), w1)
      | (Inr tms, w1) \<Rightarrow> (Inr tms, w1))"

section \<open>Resolving templates (template.go)\<close>

record template_ref =
  tr_name :: string
  tr_vars :: "(string \<times> string) list"

record resolver =
  rs_templates :: "string \<rightharpoonup> template"
  rs_compiled :: "string \<rightharpoonup> string"

definition newTemplateResolver :: resolver where
  "newTemplateResolver = \<lparr>rs_templates = Map.empty, rs_compiled = Map.empty\<rparr>"

definition invalid :: "string \<Rightarrow> gotext \<Rightarrow> error" where
  "invalid f m = ValidationErrors [field_err f m]"

definition resolver_load ::
  "resolver \<Rightarrow> string \<Rightarrow> world \<Rightarrow> template result \<times> resolver \<times> world" where
  "resolver_load rs name w =
     (case rs_templates rs name of
        Some stored \<Rightarrow> (Inr stored, rs, w)
      | None \<Rightarrow>
          (case GetTemplateByName name w of
             (Inl e, w1) \<Rightarrow>
               (Inl (invalid ''template.name''
                  [Plain ''template '', Quoted name, Plain '' not found'']), rs, w1)
           | (Inr loaded, w1) \<Rightarrow>
               (Inr loaded, rs\<lparr>rs_templates := (rs_templates rs)(name \<mapsto> loaded)\<rparr>, w1)))"

definition resolver_compile ::
  "resolver \<Rightarrow> string \<Rightarrow> template \<Rightarrow> world \<Rightarrow> string result \<times> resolver" where
  "resolver_compile rs name stored w =
     (case rs_compiled rs name of
        Some c \<Rightarrow> (Inr c, rs)
      | None \<Rightarrow>
          (case template_Parse w (t_body stored) of
             Inl e \<Rightarrow> (Inl (invalid ''template.name'' (error_text e)), rs)
           | Inr c \<Rightarrow> (Inr c, rs\<lparr>rs_compiled := (rs_compiled rs)(name \<mapsto> c)\<rparr>)))"

definition resolver_render ::
  "resolver \<Rightarrow> template_ref \<Rightarrow> channel \<Rightarrow> world \<Rightarrow> string result \<times> resolver \<times> world" where
  "resolver_render rs ref ch w =
     (case resolver_load rs (tr_name ref) w of
        (Inl e, rs1, w1) \<Rightarrow> (Inl e, rs1, w1)
      | (Inr stored, rs1, w1) \<Rightarrow>
          if t_channel stored \<noteq> ch then
            (Inl (invalid ''template.name''
               [Plain ''template '', Quoted (tr_name ref), Plain '' is for channel '',
                Plain (t_channel stored), Plain '', not '', Plain ch]), rs1, w1)
          else case resolver_compile rs1 (tr_name ref) stored w1 of
            (Inl e, rs2) \<Rightarrow> (Inl e, rs2, w1)
          | (Inr c, rs2) \<Rightarrow>
              (case Parsed_Render w1 c (tr_vars ref) of
                 Inl e \<Rightarrow> (Inl (invalid ''template.vars'' (error_text e)), rs2, w1)
               | Inr s \<Rightarrow> (Inr s, rs2, w1)))"

section \<open>The notification service (notification.go)\<close>

definition DefaultListLimit :: int where "DefaultListLimit = 50"
definition MaxListLimit :: int where "MaxListLimit = 100"

record create_input =
  ci_recipient :: string
  ci_channel :: channel
  ci_content :: string
  ci_template :: "template_ref option"
  ci_priority :: priority
  ci_scheduled_at :: "time option"
  ci_idempotency_key :: "string option"

text \<open>Whether the optional collaborators are present: the template repository, the metrics.\<close>

record service =
  sv_has_templates :: bool
  sv_instrumented :: bool

definition NewNotificationService :: "bool \<Rightarrow> bool \<Rightarrow> service" where
  "NewNotificationService templateRepo instrumented =
     \<lparr>sv_has_templates = templateRepo, sv_instrumented = instrumented\<rparr>"

definition resolveContent ::
  "service \<Rightarrow> resolver \<Rightarrow> create_input \<Rightarrow> world \<Rightarrow> string result \<times> resolver \<times> world" where
  "resolveContent sv rs inp w =
     (case ci_template inp of
        Some ref \<Rightarrow>
          if ci_content inp \<noteq> [] then
            (Inl (invalid ''content'' [Plain ''provide either content or template, not both'']), rs, w)
          else if \<not> sv_has_templates sv then
            (Inl (invalid ''template'' [Plain ''templates are not available'']), rs, w)
          else resolver_render rs ref (ci_channel inp) w
      | None \<Rightarrow> (Inr (ci_content inp), rs, w))"

definition recordCreated :: "service \<Rightarrow> notification \<Rightarrow> world \<Rightarrow> world" where
  "recordCreated sv n w =
     (if sv_instrumented sv
      then w\<lparr>metrics := NotificationCreated (channel n) (priority n) (metrics w)\<rparr> else w)"

definition Service_emitEvent :: "notification \<Rightarrow> status \<Rightarrow> world \<Rightarrow> world" where
  "Service_emitEvent n s w =
     (case Now w of (t, w1) \<Rightarrow>
        snd (PublishEvent
          \<lparr>ev_notification_id = nid n, ev_status = status_string s, ev_channel = channel n,
           ev_attempts = attempts n, ev_last_error = [], ev_provider_message_id = [],
           ev_provider_status_code = 0, ev_provider_response = [], ev_occurred_at = t\<rparr> w1))"

definition newNotification ::
  "create_input \<Rightarrow> string \<Rightarrow> time \<Rightarrow> uuid option \<Rightarrow> world \<Rightarrow> notification \<times> world" where
  "newNotification inp body now batch w =
     (case uuid_New w of (i, w1) \<Rightarrow>
        (\<lparr>nid = i, batch_id = batch, recipient = ci_recipient inp, channel = ci_channel inp,
          content = body,
          priority = (if ci_priority inp = [] then PriorityNormal else ci_priority inp),
          status = (if ci_scheduled_at inp \<noteq> None then StatusScheduled else StatusPending),
          idempotency_key = ci_idempotency_key inp, scheduled_at = ci_scheduled_at inp,
          attempts = 0, last_error = None, provider_message_id = None, created_at = now,
          updated_at = now, sent_at = None\<rparr>, w1))"

definition publishForDelivery :: "ctx \<Rightarrow> notification \<Rightarrow> world \<Rightarrow> notification \<times> world" where
  "publishForDelivery ctx n w =
     (case PublishCreated ctx n w of
        (Inl e, w1) \<Rightarrow> (n, w1)
      | (Inr _, w1) \<Rightarrow>
          (case UpdateStatus (nid n) StatusQueued [StatusPending] w1 of
             (Inl e, w2) \<Rightarrow> (n, w2)
           | (Inr _, w2) \<Rightarrow>
               let n' = n\<lparr>status := StatusQueued\<rparr> in
               (n', Service_emitEvent n' StatusQueued w2)))"

record create_result =
  cr_notification :: notification
  cr_replayed :: bool

definition Service_Create ::
  "service \<Rightarrow> ctx \<Rightarrow> create_input \<Rightarrow> world \<Rightarrow> create_result result \<times> world" where
  "Service_Create sv ctx inp w =
     (case Now w of (now, w1) \<Rightarrow>
      case resolveContent sv newTemplateResolver inp w1 of
        (Inl e, _, w2) \<Rightarrow> (Inl e, w2)
      | (Inr body, _, w2) \<Rightarrow>
      case newNotification inp body now None w2 of (n, w3) \<Rightarrow>
      case ValidateNew n now of
        Some e \<Rightarrow> (Inl e, w3)
      | None \<Rightarrow>
      case Create n w3 of
        (Inl e, w4) \<Rightarrow>
          (case (errors_is e ErrDuplicateIdempotencyKey, ci_idempotency_key inp) of
             (True, Some key) \<Rightarrow>
               (case GetByIdempotencyKey key w4 of
                  (Inl e2, w5) \<Rightarrow> (Inl (Wrap [Plain ''replay idempotent create''] e2), w5)
                | (Inr existing, w5) \<Rightarrow>
                    (Inr \<lparr>cr_notification = existing, cr_replayed = True\<rparr>, w5))
           | _ \<Rightarrow> (Inl (Wrap [Plain ''create notification''] e), w4))
      | (Inr _, w4) \<Rightarrow>
          let w5 = recordCreated sv n w4 in
          if status n = StatusPending then
            (case publishForDelivery ctx n w5 of
               (n', w6) \<Rightarrow> (Inr \<lparr>cr_notification = n', cr_replayed = False\<rparr>, w6))
          else (Inr \<lparr>cr_notification = n, cr_replayed = False\<rparr>, w5))"

definition Service_Cancel :: "uuid \<Rightarrow> world \<Rightarrow> notification result \<times> world" where
  "Service_Cancel i w =
     (case UpdateStatus i StatusCancelled CancellableStatuses w of
        (Inl e, w1) \<Rightarrow>
          if errors_is e ErrNotFound \<or> errors_is e ErrInvalidTransition then (Inl e, w1)
          else (Inl (Wrap [Plain ''cancel notification''] e), w1)
      | (Inr _, w1) \<Rightarrow>
          (case GetByID i w1 of
             (Inl e, w2) \<Rightarrow> (Inl (Wrap [Plain ''load cancelled notification''] e), w2)
           | (Inr cancelled, w2) \<Rightarrow>
               (Inr cancelled, Service_emitEvent cancelled StatusCancelled w2)))"

definition Service_Get :: "uuid \<Rightarrow> world \<Rightarrow> notification result \<times> world" where
  "Service_Get i w =
     (case GetByID i w of
        (Inl e, w1) \<Rightarrow> (Inl (Wrap [Plain ''get notification''] e), w1)
      | (Inr n, w1) \<Rightarrow> (Inr n, w1))"

definition clamp_limit :: "list_query \<Rightarrow> list_query" where
  "clamp_limit q =
     (let q1 = (if q_limit q \<le> 0 then q\<lparr>q_limit := DefaultListLimit\<rparr> else q)
      in if q_limit q1 > MaxListLimit then q1\<lparr>q_limit := MaxListLimit\<rparr> else q1)"

definition Service_List :: "list_query \<Rightarrow> world \<Rightarrow> notification list result \<times> world" where
  "Service_List q w =
     (let q1 = clamp_limit q in
      case ListQuery_Validate q1 of
        Some e \<Rightarrow> (Inl e, w)
      | None \<Rightarrow>
          (case Repo_List q1 w of
             (Inl e, w1) \<Rightarrow> (Inl (Wrap [Plain ''list notifications''] e), w1)
           | (Inr ns, w1) \<Rightarrow> (Inr ns, w1)))"

end
