(* ===== verification/Batch.thy ===== *)
theory Batch
  imports Service
begin

text \<open>
  internal/service/batch.go: batch creation with per-item outcomes. The loop over the inputs
  carries the keys seen so far, the template resolver, the results, the rows to insert and the
  two counters; it stops early on an error that is not a validation error.
\<close>

definition MaxBatchSize :: int where "MaxBatchSize = 1000"

datatype batch_item_status = BatchItemAccepted | BatchItemRejected | BatchItemDuplicate

record batch_item =
  bi_index :: nat
  bi_status :: batch_item_status
  bi_notification :: "notification option"
  bi_existing_id :: "uuid option"
  bi_errors :: "field_error list"

record batch_result =
  br_batch_id :: uuid
  br_accepted :: nat
  br_rejected :: nat
  br_results :: "batch_item list"

record batch_state =
  bs_keys :: "string \<rightharpoonup> uuid"
  bs_resolver :: resolver
  bs_results :: "batch_item list"
  bs_insert :: "notification list"
  bs_accepted :: nat
  bs_rejected :: nat

definition existingKeysFor ::
  "create_input list \<Rightarrow> world \<Rightarrow> (string \<rightharpoonup> uuid) result \<times> world" where
  "existingKeysFor inps w =
     (case ExistingIdempotencyKeys (List.map_filter ci_idempotency_key inps) w of
        (Inl e, w1) \<Rightarrow> (Inl (Wrap [Plain ''check batch idempotency keys''] e), w1)
      | (Inr m, w1) \<Rightarrow> (Inr m, w1))"

definition item_result :: "nat \<Rightarrow> batch_item" where
  "item_result index =
     \<lparr>bi_index = index, bi_status = BatchItemAccepted, bi_notification = None,
      bi_existing_id = None, bi_errors = []\<rparr>"

definition reject_item :: "batch_item \<Rightarrow> batch_state \<Rightarrow> batch_state" where
  "reject_item it st =
     st\<lparr>bs_results := bs_results st @ [it], bs_rejected := bs_rejected st + 1\<rparr>"

definition accept_item :: "batch_item \<Rightarrow> notification \<Rightarrow> batch_state \<Rightarrow> batch_state" where
  "accept_item it n st =
     st\<lparr>bs_results := bs_results st @ [it\<lparr>bi_notification := Some n\<rparr>],
        bs_insert := bs_insert st @ [n], bs_accepted := bs_accepted st + 1\<rparr>"

text \<open>The body of the loop for one input.\<close>

definition batch_step ::
  "service \<Rightarrow> uuid \<Rightarrow> time \<Rightarrow> nat \<Rightarrow> create_input \<Rightarrow> batch_state \<Rightarrow> world \<Rightarrow>
   batch_state result \<times> world" where
  "batch_step sv batch now index inp st w =
     (case resolveContent sv (bs_resolver st) inp w of
        (Inl e, rs, w1) \<Rightarrow>
          (case as_validation e of
             None \<Rightarrow>
               (Inl (Wrap [Plain ''resolve batch item '', Plain (itoa (int index)), Plain '' content''] e),
                w1)
           | Some v \<Rightarrow>
               (Inr (reject_item ((item_result index)\<lparr>bi_status := BatchItemRejected, bi_errors := v\<rparr>)
                  (st\<lparr>bs_resolver := rs\<rparr>)), w1))
      | (Inr body, rs, w1) \<Rightarrow>
          (case newNotification inp body now (Some batch) w1 of (n, w2) \<Rightarrow>
           let st1 = st\<lparr>bs_resolver := rs\<rparr> in
           case (case ci_idempotency_key inp of
                   None \<Rightarrow> Inr st1
                 | Some key \<Rightarrow>
                     (case bs_keys st1 key of
                        Some existing \<Rightarrow>
                          Inl (reject_item ((item_result index)
                            \<lparr>bi_status := BatchItemDuplicate,
                             bi_existing_id := (if existing \<noteq> uuid_Nil then Some existing else None)\<rparr>)
                            st1)
                      | None \<Rightarrow> Inr (st1\<lparr>bs_keys := (bs_keys st1)(key \<mapsto> nid n)\<rparr>))) of
             Inl st2 \<Rightarrow> (Inr st2, w2)
           | Inr st2 \<Rightarrow>
               (case ValidateNew n now of
                  Some e \<Rightarrow>
                    (case as_validation e of
                       None \<Rightarrow>
                         (Inl (Wrap [Plain ''validate batch item '', Plain (itoa (int index))] e), w2)
                     | Some v \<Rightarrow>
                         (Inr (reject_item ((item_result index)
                            \<lparr>bi_status := BatchItemRejected, bi_errors := v\<rparr>) st2), w2))
                | None \<Rightarrow> (Inr (accept_item (item_result index) n st2), w2))))"

fun batch_loop ::
  "service \<Rightarrow> uuid \<Rightarrow> time \<Rightarrow> nat \<Rightarrow> create_input list \<Rightarrow> batch_state \<Rightarrow> world \<Rightarrow>
   batch_state result \<times> world" where
  "batch_loop sv batch now index [] st w = (Inr st, w)"
| "batch_loop sv batch now index (inp # inps) st w =
     (case batch_step sv batch now index inp st w of
        (Inl e, w1) \<Rightarrow> (Inl e, w1)
      | (Inr st1, w1) \<Rightarrow> batch_loop sv batch now (Suc index) inps st1 w1)"

definition to_publish :: "batch_item list \<Rightarrow> notification list" where
  "to_publish items =
     List.map_filter (\<lambda>it.
       case (bi_status it, bi_notification it) of
         (BatchItemAccepted, Some n) \<Rightarrow> if status n = StatusPending then Some n else None
       | _ \<Rightarrow> None) items"

text \<open>The last loop: what was confirmed is reported as queued, and announced.\<close>

fun mark_confirmed :: "uuid set \<Rightarrow> batch_item list \<Rightarrow> world \<Rightarrow> batch_item list \<times> world" where
  "mark_confirmed confirmed [] w = ([], w)"
| "mark_confirmed confirmed (it # its) w =
     (case bi_notification it of
        None \<Rightarrow> (case mark_confirmed confirmed its w of (its', w1) \<Rightarrow> (it # its', w1))
      | Some n \<Rightarrow>
          if nid n \<in> confirmed then
            let n' = n\<lparr>status := StatusQueued\<rparr> in
            case mark_confirmed confirmed its (Service_emitEvent n' StatusQueued w) of
              (its', w1) \<Rightarrow> (it\<lparr>bi_notification := Some n'\<rparr> # its', w1)
          else (case mark_confirmed confirmed its w of (its', w1) \<Rightarrow> (it # its', w1)))"

definition publish_batch :: "ctx \<Rightarrow> batch_result \<Rightarrow> world \<Rightarrow> batch_result \<times> world" where
  "publish_batch ctx result w =
     (case PublishCreatedAll ctx (to_publish (br_results result)) w of
        (Inl e, w1) \<Rightarrow> (result, w1)
      | (Inr confirmed, w1) \<Rightarrow>
          (case MarkQueuedBulk confirmed w1 of
             (Inl e, w2) \<Rightarrow> (result, w2)
           | (Inr _, w2) \<Rightarrow>
               (case mark_confirmed (set confirmed) (br_results result) w2 of
                  (items, w3) \<Rightarrow> (result\<lparr>br_results := items\<rparr>, w3))))"

definition CreateBatch ::
  "service \<Rightarrow> ctx \<Rightarrow> create_input list \<Rightarrow> world \<Rightarrow> batch_result result \<times> world" where
  "CreateBatch sv ctx inps w =
     (case Now w of (now, w1) \<Rightarrow>
      case uuid_New w1 of (batch, w2) \<Rightarrow>
      case existingKeysFor inps w2 of
        (Inl e, w3) \<Rightarrow> (Inl e, w3)
      | (Inr keys, w3) \<Rightarrow>
          (case batch_loop sv batch now 0 inps
             \<lparr>bs_keys = keys, bs_resolver = newTemplateResolver, bs_results = [], bs_insert = [],
              bs_accepted = 0, bs_rejected = 0\<rparr> w3 of
             (Inl e, w4) \<Rightarrow> (Inl e, w4)
           | (Inr st, w4) \<Rightarrow>
               (case Repo_CreateBatch (bs_insert st) w4 of
                  (Inl e, w5) \<Rightarrow> (Inl (Wrap [Plain ''insert batch''] e), w5)
                | (Inr _, w5) \<Rightarrow>
                    let w6 = foldl (\<lambda>w n. recordCreated sv n w) w5 (bs_insert st) in
                    (case publish_batch ctx
                       \<lparr>br_batch_id = batch, br_accepted = bs_accepted st,
                        br_rejected = bs_rejected st, br_results = bs_results st\<rparr> w6 of
                       (result, w7) \<Rightarrow> (Inr result, w7)))))"

end
