(* ===== verification/Base64.thy ===== *)
theory Base64
  imports Prelude
begin

text \<open>
  \<open>base64.URLEncoding\<close> of the standard library, as internal/api/cursor.go uses it: the URL-safe
  alphabet with padding. Decoding skips line breaks, wants complete padded quanta, and like Go's
  decoder without \<open>Strict\<close> ignores the bits that the padding leaves over.
\<close>

definition b64_char :: "int \<Rightarrow> char" where
  "b64_char n =
     (if n < 26 then char_of (65 + n) else if n < 52 then char_of (71 + n)
      else if n < 62 then char_of (n - 4) else if n = 62 then CHR ''-'' else CHR ''_'')"

definition b64_value :: "char \<Rightarrow> int option" where
  "b64_value c =
     (let n = of_char c :: int in
      if 65 \<le> n \<and> n \<le> 90 then Some (n - 65)
      else if 97 \<le> n \<and> n \<le> 122 then Some (n - 71)
      else if 48 \<le> n \<and> n \<le> 57 then Some (n + 4)
      else if n = 45 then Some 62 else if n = 95 then Some 63 else None)"

abbreviation b64_pad :: char where "b64_pad \<equiv> CHR ''=''"

fun EncodeToString :: "string \<Rightarrow> string" where
  "EncodeToString [] = []"
| "EncodeToString [x] =
     (let v = of_char x * 65536 in
      [b64_char (v div 262144), b64_char (v div 4096 mod 64), b64_pad, b64_pad])"
| "EncodeToString [x, y] =
     (let v = of_char x * 65536 + of_char y * 256 in
      [b64_char (v div 262144), b64_char (v div 4096 mod 64), b64_char (v div 64 mod 64), b64_pad])"
| "EncodeToString (x # y # z # s) =
     (let v = of_char x * 65536 + of_char y * 256 + of_char z in
      b64_char (v div 262144) # b64_char (v div 4096 mod 64) # b64_char (v div 64 mod 64) #
      b64_char (v mod 64) # EncodeToString s)"

definition quantum :: "int \<Rightarrow> int \<Rightarrow> int \<Rightarrow> int \<Rightarrow> int" where
  "quantum a b c d = a * 262144 + b * 4096 + c * 64 + d"

fun decode_quanta :: "string \<Rightarrow> string option" where
  "decode_quanta [] = Some []"
| "decode_quanta (a # b # c # d # s) =
     (case (b64_value a, b64_value b) of
        (Some x, Some y) \<Rightarrow>
          if c = b64_pad then
            if d = b64_pad \<and> s = [] then Some [char_of (quantum x y 0 0 div 65536)] else None
          else (case b64_value c of
            None \<Rightarrow> None
          | Some z \<Rightarrow>
              if d = b64_pad then
                if s = [] then Some [char_of (quantum x y z 0 div 65536),
                  char_of (quantum x y z 0 div 256 mod 256)] else None
              else (case b64_value d of
                None \<Rightarrow> None
              | Some u \<Rightarrow>
                  (case decode_quanta s of
                     None \<Rightarrow> None
                   | Some r \<Rightarrow> Some (char_of (quantum x y z u div 65536) #
                       char_of (quantum x y z u div 256 mod 256) #
                       char_of (quantum x y z u mod 256) # r))))
      | _ \<Rightarrow> None)"
| "decode_quanta s = None"

definition DecodeString :: "string \<Rightarrow> string option" where
  "DecodeString s = decode_quanta (filter (\<lambda>c. c \<noteq> CHR 0x0A \<and> c \<noteq> CHR 0x0D) s)"

section \<open>Decoding what was encoded\<close>

lemma b64_round: "0 \<le> n \<Longrightarrow> n < 64 \<Longrightarrow>
   b64_value (b64_char n) = Some n \<and> b64_char n \<noteq> b64_pad \<and>
   b64_char n \<noteq> CHR 0x0A \<and> b64_char n \<noteq> CHR 0x0D"
proof -
  have "\<forall>n \<in> set (map int [0..<64]). b64_value (b64_char n) = Some n \<and> b64_char n \<noteq> b64_pad \<and>
      b64_char n \<noteq> CHR 0x0A \<and> b64_char n \<noteq> CHR 0x0D"
    by code_simp
  then have "\<forall>k < 64. b64_value (b64_char (int k)) = Some (int k) \<and> b64_char (int k) \<noteq> b64_pad \<and>
      b64_char (int k) \<noteq> CHR 0x0A \<and> b64_char (int k) \<noteq> CHR 0x0D"
    by (simp del: upt.simps upt_rec_numeral)
  moreover assume "0 \<le> n" "n < 64"
  then have "nat n < 64" and "int (nat n) = n" by linarith+
  ultimately show ?thesis by metis
qed

lemma of_char_bounds: "0 \<le> (of_char c :: int) \<and> (of_char c :: int) < 256"
  using nat_of_char_less_256 [of c] by (metis of_nat_0_le_iff of_nat_less_numeral_iff of_nat_of_char)

lemma char_of_of_char: "char_of (of_char c :: int) = c"
  by simp

lemma quantum_of:
  "quantum (v div 262144) (v div 4096 mod 64) (v div 64 mod 64) (v mod 64) = v"
proof -
  define p q r where "p = v div 64" and "q = p div 64" and "r = q div 64"
  have e: "v div 4096 = q" "v div 262144 = r" "v div 64 = p"
    by (simp_all add: p_def q_def r_def zdiv_zmult2_eq [symmetric])
  define l m n where "l = v mod 64" and "m = p mod 64" and "n = q mod 64"
  have "v = 64 * p + l" "p = 64 * q + m" "q = 64 * r + n"
    by (simp_all add: p_def q_def r_def l_def m_def n_def)
  then have "r * 262144 + n * 4096 + m * 64 + l = v"
    by linarith
  then show ?thesis
    unfolding quantum_def e l_def m_def n_def .
qed

lemma bytes_of:
  fixes x y z :: int
  assumes "0 \<le> x" "x < 256" "0 \<le> y" "y < 256" "0 \<le> z" "z < 256"
  shows "(x * 65536 + y * 256 + z) div 65536 = x" "(x * 65536 + y * 256 + z) div 256 mod 256 = y"
    "(x * 65536 + y * 256 + z) mod 256 = z"
proof -
  show "(x * 65536 + y * 256 + z) div 65536 = x"
    by (rule int_div_pos_eq [of _ _ _ "y * 256 + z"]) (use assms in simp_all)
  have "(x * 65536 + y * 256 + z) div 256 = x * 256 + y"
    by (rule int_div_pos_eq [of _ _ _ z]) (use assms in simp_all)
  moreover have "(x * 256 + y) mod 256 = y"
    by (rule int_mod_pos_eq [of _ _ x]) (use assms in simp_all)
  ultimately show "(x * 65536 + y * 256 + z) div 256 mod 256 = y" by simp
  show "(x * 65536 + y * 256 + z) mod 256 = z"
    by (rule int_mod_pos_eq [of _ _ "x * 256 + y"]) (use assms in simp_all)
qed

definition is_digit64 :: "int \<Rightarrow> bool" where
  "is_digit64 n \<longleftrightarrow> 0 \<le> n \<and> n < 64"

lemma digit64_char [simp]:
  assumes "is_digit64 n"
  shows "b64_value (b64_char n) = Some n" "b64_char n \<noteq> b64_pad" "b64_char n \<noteq> CHR 0x0A"
    "b64_char n \<noteq> CHR 0x0D"
  using assms b64_round [of n] by (simp_all add: is_digit64_def)

lemma digit64_mod [simp]: "is_digit64 (n mod 64)"
  by (simp add: is_digit64_def)

lemma digit64_div [simp]: "0 \<le> v \<Longrightarrow> v < 16777216 \<Longrightarrow> is_digit64 (v div 262144)"
  using zdiv_mono1 [of v 16777215 262144]
  by (simp add: is_digit64_def pos_imp_zdiv_nonneg_iff)

lemma decode_four:
  assumes "is_digit64 a" "is_digit64 b" "is_digit64 c" "is_digit64 d"
  shows "decode_quanta (b64_char a # b64_char b # b64_char c # b64_char d # s) =
     map_option (\<lambda>r. char_of (quantum a b c d div 65536) # char_of (quantum a b c d div 256 mod 256) #
       char_of (quantum a b c d mod 256) # r) (decode_quanta s)"
  using assms by (simp split: option.split)

lemma decode_three:
  assumes "is_digit64 a" "is_digit64 b" "is_digit64 c"
  shows "decode_quanta [b64_char a, b64_char b, b64_char c, b64_pad] =
     Some [char_of (quantum a b c 0 div 65536), char_of (quantum a b c 0 div 256 mod 256)]"
  using assms by simp

lemma decode_two:
  assumes "is_digit64 a" "is_digit64 b"
  shows "decode_quanta [b64_char a, b64_char b, b64_pad, b64_pad] =
     Some [char_of (quantum a b 0 0 div 65536)]"
  using assms by simp

lemma quantum_of_two:
  assumes "v mod 64 = 0"
  shows "quantum (v div 262144) (v div 4096 mod 64) (v div 64 mod 64) 0 = v"
  using quantum_of [of v] assms by simp

lemma quantum_of_one:
  assumes "v = 4096 * w"
  shows "quantum (v div 262144) (v div 4096 mod 64) 0 0 = v"
proof -
  have "v = 64 * (64 * w)" using assms by simp
  then have "v mod 64 = 0" "v div 64 = 64 * w" by simp_all
  moreover from this(2) have "v div 64 mod 64 = 0" by simp
  ultimately show ?thesis using quantum_of [of v] by simp
qed

lemma decode_encode: "decode_quanta (EncodeToString s) = Some s"
proof (induction s rule: EncodeToString.induct)
  case 1
  show ?case by simp
next
  case (2 x)
  define v where "v = (of_char x :: int) * 65536"
  have v: "0 \<le> v" "v < 16777216" "v div 65536 = of_char x"
    unfolding v_def using of_char_bounds [of x] by simp_all
  have q: "quantum (v div 262144) (v div 4096 mod 64) 0 0 = v"
    by (rule quantum_of_one [of _ "16 * of_char x"]) (simp add: v_def)
  from v show ?case
    unfolding EncodeToString.simps v_def [symmetric] Let_def
    by (simp only: decode_two digit64_div digit64_mod q char_of_of_char)
next
  case (3 x y)
  define v where "v = (of_char x :: int) * 65536 + of_char y * 256"
  have v: "0 \<le> v" "v < 16777216" "v div 65536 = of_char x" "v div 256 mod 256 = of_char y"
    unfolding v_def
    using bytes_of [of "of_char x" "of_char y" 0] of_char_bounds [of x] of_char_bounds [of y]
    by simp_all
  have "v = 64 * (1024 * of_char x + 4 * of_char y)" unfolding v_def by simp
  then have "v mod 64 = 0" by (metis mod_mult_self1_is_0)
  with v show ?case
    unfolding EncodeToString.simps v_def [symmetric] Let_def
    by (simp only: decode_three digit64_div digit64_mod quantum_of_two char_of_of_char)
next
  case (4 x y z s)
  define v where "v = (of_char x :: int) * 65536 + of_char y * 256 + of_char z"
  have b: "v div 65536 = of_char x" "v div 256 mod 256 = of_char y" "v mod 256 = of_char z"
    unfolding v_def
    using bytes_of [of "of_char x" "of_char y" "of_char z"] of_char_bounds [of x]
      of_char_bounds [of y] of_char_bounds [of z]
    by simp_all
  have r: "0 \<le> v" "v < 16777216"
    unfolding v_def using of_char_bounds [of x] of_char_bounds [of y] of_char_bounds [of z]
    by linarith+
  have IH: "decode_quanta (EncodeToString s) = Some s"
    using 4 by simp
  show ?case
    unfolding EncodeToString.simps v_def [symmetric] Let_def
    by (simp only: decode_four digit64_div digit64_mod r quantum_of b IH char_of_of_char option.map)
qed

definition plain64 :: "string \<Rightarrow> bool" where
  "plain64 s \<longleftrightarrow> (\<forall>c \<in> set s. c \<noteq> CHR 0x0A \<and> c \<noteq> CHR 0x0D)"

lemma plain64_simps [simp]:
  "plain64 []"
  "plain64 (c # s) \<longleftrightarrow> c \<noteq> CHR 0x0A \<and> c \<noteq> CHR 0x0D \<and> plain64 s"
  by (auto simp: plain64_def)

lemma encoded_plain: "plain64 (EncodeToString s)"
proof (induction s rule: EncodeToString.induct)
  case (2 x)
  have "0 \<le> (of_char x :: int) * 65536" "(of_char x :: int) * 65536 < 16777216"
    using of_char_bounds [of x] by linarith+
  then show ?case
    by (simp only: EncodeToString.simps Let_def plain64_simps digit64_char digit64_div digit64_mod) simp
next
  case (3 x y)
  have "0 \<le> (of_char x :: int) * 65536 + of_char y * 256"
    "(of_char x :: int) * 65536 + of_char y * 256 < 16777216"
    using of_char_bounds [of x] of_char_bounds [of y] by linarith+
  then show ?case
    by (simp only: EncodeToString.simps Let_def plain64_simps digit64_char digit64_div digit64_mod) simp
next
  case (4 x y z s)
  have "0 \<le> (of_char x :: int) * 65536 + of_char y * 256 + of_char z"
    "(of_char x :: int) * 65536 + of_char y * 256 + of_char z < 16777216"
    using of_char_bounds [of x] of_char_bounds [of y] of_char_bounds [of z] by linarith+
  with 4 show ?case
    by (simp only: EncodeToString.simps Let_def plain64_simps digit64_char digit64_div digit64_mod) simp
qed simp

lemma DecodeString_EncodeToString [simp]: "DecodeString (EncodeToString s) = Some s"
  unfolding DecodeString_def using encoded_plain [of s]
  by (simp add: plain64_def filter_id_conv [THEN iffD2] decode_encode)

end
