(* ===== verification/Strconv.thy ===== *)
theory Strconv
  imports Errors
begin

text \<open>
  What the program uses of the packages strconv and time for reading text: \<open>Atoi\<close>,
  \<open>ParseBool\<close> and \<open>ParseDuration\<close>, with their ranges. A fraction of a duration goes through
  float64 in Go, so \<open>f64\<close> rounds a quotient to 53 significant bits, half to even.
\<close>

section \<open>Decimal digits\<close>

definition is_digit :: "char \<Rightarrow> bool" where
  "is_digit c \<longleftrightarrow> 48 \<le> (of_char c :: int) \<and> (of_char c :: int) \<le> 57"

definition digit_value :: "char \<Rightarrow> int" where
  "digit_value c = of_char c - 48"

definition decimal :: "string \<Rightarrow> int" where
  "decimal s = foldl (\<lambda>n c. 10 * n + digit_value c) 0 s"

definition max_int64 :: int where "max_int64 = 9223372036854775807"

section \<open>Atoi and ParseBool\<close>

definition Atoi :: "string \<Rightarrow> int option" where
  "Atoi s =
     (let (neg, ds) = (case s of
            c # cs \<Rightarrow> if c = CHR ''-'' then (True, cs) else if c = CHR ''+'' then (False, cs)
                      else (False, s)
          | [] \<Rightarrow> (False, []))
      in if ds = [] \<or> \<not> list_all is_digit ds then None
         else let n = decimal ds; v = (if neg then - n else n) in
           if - max_int64 - 1 \<le> v \<and> v \<le> max_int64 then Some v else None)"

definition ParseBool :: "string \<Rightarrow> bool option" where
  "ParseBool s =
     (if s \<in> {''1'', ''t'', ''T'', ''TRUE'', ''true'', ''True''} then Some True
      else if s \<in> {''0'', ''f'', ''F'', ''FALSE'', ''false'', ''False''} then Some False
      else None)"

section \<open>float64 quotients\<close>

function bits :: "int \<Rightarrow> int" where
  "bits n = (if n \<le> 0 then 0 else 1 + bits (n div 2))"
  by pat_completeness auto
termination
  by (relation "measure nat") auto

declare bits.simps [simp del]

definition half_even :: "int \<Rightarrow> int \<Rightarrow> int" where
  "half_even a b =
     (let q = a div b; r = a mod b in if 2 * r < b \<or> (2 * r = b \<and> even q) then q else q + 1)"

text \<open>The float64 nearest to \<open>a / b\<close>, again as a quotient.\<close>

definition scaled :: "int \<Rightarrow> int \<Rightarrow> int \<Rightarrow> int \<times> int" where
  "scaled a b s = (if 0 \<le> s then (a * 2 ^ nat s, b) else (a, b * 2 ^ nat (- s)))"

definition f64 :: "int \<times> int \<Rightarrow> int \<times> int" where
  "f64 r =
     (case r of (a, b) \<Rightarrow>
        if a = 0 then (0, 1)
        else
          let s0 = 53 + bits b - bits a;
              (a0, b0) = scaled a b s0;
              s = (if 2 ^ 53 \<le> a0 div b0 then s0 - 1 else s0);
              (a1, b1) = scaled a b s
          in scaled (half_even a1 b1) 1 (- s))"

definition f64_mult :: "int \<times> int \<Rightarrow> int \<times> int \<Rightarrow> int \<times> int" where
  "f64_mult x y = f64 (fst x * fst y, snd x * snd y)"

definition f64_div :: "int \<times> int \<Rightarrow> int \<times> int \<Rightarrow> int \<times> int" where
  "f64_div x y = f64 (fst x * snd y, snd x * fst y)"

section \<open>ParseDuration\<close>

definition unitMap :: "string \<Rightarrow> int option" where
  "unitMap u =
     map_of [(''ns'', 1), (''us'', 1000), ([CHR 0xC2, CHR 0xB5, CHR ''s''], 1000),
       ([CHR 0xCE, CHR 0xBC, CHR ''s''], 1000), (''ms'', 1000000), (''s'', 1000000000),
       (''m'', 60000000000), (''h'', 3600000000000)] u"

text \<open>The digits of a number: too large is an error before the point, ignored after it.\<close>

fun leadingInt :: "int \<Rightarrow> string \<Rightarrow> (int \<times> string) option" where
  "leadingInt x [] = Some (x, [])"
| "leadingInt x (c # s) =
     (if \<not> is_digit c then Some (x, c # s)
      else if x > 2 ^ 63 div 10 then None
      else let y = x * 10 + digit_value c in if y > 2 ^ 63 then None else leadingInt y s)"

fun leadingFraction :: "int \<Rightarrow> int \<times> int \<Rightarrow> bool \<Rightarrow> string \<Rightarrow> int \<times> (int \<times> int) \<times> string" where
  "leadingFraction x scale overflow [] = (x, scale, [])"
| "leadingFraction x scale overflow (c # s) =
     (if \<not> is_digit c then (x, scale, c # s)
      else if overflow \<or> x > (2 ^ 63 - 1) div 10 then leadingFraction x scale True s
      else let y = x * 10 + digit_value c in
        if y > 2 ^ 63 then leadingFraction x scale True s
        else leadingFraction y (f64_mult scale (10, 1)) overflow s)"

definition unit_char :: "char \<Rightarrow> bool" where
  "unit_char c \<longleftrightarrow> c \<noteq> CHR ''.'' \<and> \<not> is_digit c"

text \<open>One number with its unit, in nanoseconds, and the rest of the text.\<close>

definition duration_part :: "string \<Rightarrow> (int \<times> string) option" where
  "duration_part s =
     (if (case s of [] \<Rightarrow> True | c # cs \<Rightarrow> c \<noteq> CHR ''.'' \<and> \<not> is_digit c) then None
      else case leadingInt 0 s of
        None \<Rightarrow> None
      | Some (v, s1) \<Rightarrow>
          let pre = length s1 \<noteq> length s;
              (f, scale, post, s2) =
                (case s1 of
                   c # cs \<Rightarrow>
                     if c = CHR ''.'' then
                       (case leadingFraction 0 (1, 1) False cs of
                          (f, scale, r) \<Rightarrow> (f, scale, length r \<noteq> length cs, r))
                     else (0, (1, 1), False, s1)
                 | [] \<Rightarrow> (0, (1, 1), False, []));
              u = takeWhile unit_char s2
          in if (\<not> pre \<and> \<not> post) \<or> u = [] then None
             else case unitMap u of
               None \<Rightarrow> None
             | Some unit \<Rightarrow>
                 if v > 2 ^ 63 div unit then None
                 else
                   let frac = f64_mult (f64 (f, 1)) (f64_div (unit, 1) scale);
                       v' = v * unit + (if 0 < f then fst frac div snd frac else 0)
                   in if v' > 2 ^ 63 then None else Some (v', dropWhile unit_char s2))"

lemma leadingInt_length: "leadingInt x s = Some (v, r) \<Longrightarrow> length r \<le> length s"
  by (induction x s rule: leadingInt.induct) (auto simp: Let_def split: if_splits)

lemma leadingFraction_length: "leadingFraction x sc b s = (f, sc', r) \<Longrightarrow> length r \<le> length s"
  by (induction x sc b s rule: leadingFraction.induct) (auto simp: Let_def split: if_splits)

lemma dropWhile_shorter: "takeWhile P xs \<noteq> [] \<Longrightarrow> length (dropWhile P xs) < length xs"
  by (cases xs) (auto simp: less_Suc_eq_le length_dropWhile_le split: if_splits)

lemma duration_part_length: "duration_part s = Some (v, r) \<Longrightarrow> length r < length s"
proof -
  assume "duration_part s = Some (v, r)"
  then obtain x s1 f sc post s2 where 1: "leadingInt 0 s = Some (x, s1)"
    and 2: "(case s1 of c # cs \<Rightarrow> if c = CHR ''.'' then
          (case leadingFraction 0 (1, 1) False cs of (f, scale, r) \<Rightarrow> (f, scale, length r \<noteq> length cs, r))
        else (0, (1, 1), False, s1) | [] \<Rightarrow> (0, (1, 1), False, [])) = (f, sc, post, s2)"
    and 3: "takeWhile unit_char s2 \<noteq> []" "r = dropWhile unit_char s2"
    by (auto simp: duration_part_def Let_def split: if_splits option.splits prod.splits)
  from 2 have "length s2 \<le> length s1"
    by (auto split: list.splits if_splits prod.splits dest: leadingFraction_length)
  with leadingInt_length [OF 1] dropWhile_shorter [OF 3(1)] 3(2) show "length r < length s" by simp
qed

function duration_parts :: "int \<Rightarrow> string \<Rightarrow> int option" where
  "duration_parts d s =
     (if s = [] then Some d
      else case duration_part s of
        None \<Rightarrow> None
      | Some (v, r) \<Rightarrow> if d + v > 2 ^ 63 then None else duration_parts (d + v) r)"
  by pat_completeness auto
termination
  by (relation "measure (\<lambda>(d, s). length s)") (auto dest: duration_part_length)

declare duration_parts.simps [simp del]

definition ParseDuration :: "string \<Rightarrow> int option" where
  "ParseDuration s =
     (let (neg, r) = (case s of
            c # cs \<Rightarrow> if c = CHR ''-'' \<or> c = CHR ''+'' then (c = CHR ''-'', cs) else (False, s)
          | [] \<Rightarrow> (False, []))
      in if r = ''0'' then Some 0
         else if r = [] then None
         else case duration_parts 0 r of
           None \<Rightarrow> None
         | Some d \<Rightarrow> if neg then Some (- d)
                     else if d > max_int64 then None else Some d)"

section \<open>Bounds and round trips\<close>

lemma digit_value_nonneg: "is_digit c \<Longrightarrow> 0 \<le> digit_value c"
  by (simp add: is_digit_def digit_value_def)

lemma leadingInt_bound: "leadingInt x s = Some (v, r) \<Longrightarrow> 0 \<le> x \<Longrightarrow> 0 \<le> v"
  by (induction x s rule: leadingInt.induct)
    (auto simp: Let_def digit_value_nonneg split: if_splits)

text \<open>No intermediate result is negative.\<close>

definition quotient_ok :: "int \<times> int \<Rightarrow> bool" where
  "quotient_ok r \<longleftrightarrow> 0 \<le> fst r \<and> 0 \<le> snd r"

lemma quotient_okD: "quotient_ok r \<Longrightarrow> 0 \<le> fst r div snd r"
  by (cases "snd r = 0") (auto simp: quotient_ok_def pos_imp_zdiv_nonneg_iff)

lemma scaled_ok: "0 \<le> a \<Longrightarrow> 0 \<le> b \<Longrightarrow> quotient_ok (scaled a b s)"
  by (simp add: scaled_def quotient_ok_def)

lemma half_even_nonneg: "quotient_ok (a, b) \<Longrightarrow> 0 \<le> half_even a b"
  using quotient_okD [of "(a, b)"] by (auto simp: half_even_def Let_def)

lemma f64_ok: "quotient_ok r \<Longrightarrow> quotient_ok (f64 r)"
proof -
  assume r: "quotient_ok r"
  obtain a b where ab: "r = (a, b)" by fastforce
  define s0 where "s0 = 53 + bits b - bits a"
  define s where "s = (if 2 ^ 53 \<le> fst (scaled a b s0) div snd (scaled a b s0) then s0 - 1 else s0)"
  have f: "f64 r = (if a = 0 then (0, 1)
      else scaled (half_even (fst (scaled a b s)) (snd (scaled a b s))) 1 (- s))"
    by (simp add: f64_def ab s_def s0_def Let_def split_beta)
  have "quotient_ok (scaled a b s)" using r ab by (intro scaled_ok) (auto simp: quotient_ok_def)
  then have "0 \<le> half_even (fst (scaled a b s)) (snd (scaled a b s))"
    by (intro half_even_nonneg) simp
  then have "quotient_ok (scaled (half_even (fst (scaled a b s)) (snd (scaled a b s))) 1 (- s))"
    by (intro scaled_ok) auto
  then show ?thesis unfolding f by (simp add: quotient_ok_def)
qed

lemma f64_mult_ok: "quotient_ok x \<Longrightarrow> quotient_ok y \<Longrightarrow> quotient_ok (f64_mult x y)"
  unfolding f64_mult_def by (rule f64_ok) (auto simp: quotient_ok_def)

lemma f64_div_ok: "quotient_ok x \<Longrightarrow> quotient_ok y \<Longrightarrow> quotient_ok (f64_div x y)"
  unfolding f64_div_def by (rule f64_ok) (auto simp: quotient_ok_def)

lemma leadingFraction_ok:
  "leadingFraction x sc b s = (f, sc', r) \<Longrightarrow> 0 \<le> x \<Longrightarrow> quotient_ok sc \<Longrightarrow> 0 \<le> f \<and> quotient_ok sc'"
proof (induction x sc b s rule: leadingFraction.induct)
  case (2 x sc b c s)
  have "quotient_ok (10, 1)" by (simp add: quotient_ok_def)
  with 2 show ?case
    by (auto simp: Let_def digit_value_nonneg f64_mult_ok split: if_splits)
qed auto

lemma unitMap_pos: "unitMap u = Some k \<Longrightarrow> 0 < k"
  by (auto simp: unitMap_def split: if_splits)

lemma duration_part_nonneg: "duration_part s = Some (v, r) \<Longrightarrow> 0 \<le> v"
proof -
  assume "duration_part s = Some (v, r)"
  then obtain x s1 f sc post s2 k where 1: "leadingInt 0 s = Some (x, s1)"
    and 2: "(case s1 of c # cs \<Rightarrow> if c = CHR ''.'' then
          (case leadingFraction 0 (1, 1) False cs of (f, scale, r) \<Rightarrow> (f, scale, length r \<noteq> length cs, r))
        else (0, (1, 1), False, s1) | [] \<Rightarrow> (0, (1, 1), False, [])) = (f, sc, post, s2)"
    and 3: "unitMap (takeWhile unit_char s2) = Some k"
    and v: "v = x * k + (if 0 < f then fst (f64_mult (f64 (f, 1)) (f64_div (k, 1) sc)) div
      snd (f64_mult (f64 (f, 1)) (f64_div (k, 1) sc)) else 0)"
    by (auto simp: duration_part_def Let_def split: if_splits option.splits prod.splits)
  have "0 \<le> f \<and> quotient_ok sc"
    using 2 leadingFraction_ok
    by (fastforce simp: quotient_ok_def split: list.splits if_splits prod.splits)
  moreover have "0 < k" "0 \<le> x" using unitMap_pos [OF 3] leadingInt_bound [OF 1] by auto
  ultimately have "quotient_ok (f64_mult (f64 (f, 1)) (f64_div (k, 1) sc))"
    by (intro f64_mult_ok f64_ok f64_div_ok) (auto simp: quotient_ok_def)
  from quotient_okD [OF this] \<open>0 < k\<close> \<open>0 \<le> x\<close> show ?thesis unfolding v by simp
qed

lemma duration_parts_bound:
  "duration_parts d s = Some v \<Longrightarrow> 0 \<le> d \<Longrightarrow> d \<le> 2 ^ 63 \<Longrightarrow> 0 \<le> v \<and> v \<le> 2 ^ 63"
proof (induction d s rule: duration_parts.induct)
  case (1 d s)
  show ?case
  proof (cases "s = []")
    case True
    with 1 show ?thesis by (simp add: duration_parts.simps [of d "[]"])
  next
    case False
    with 1(2) obtain k r where k: "duration_part s = Some (k, r)" "d + k \<le> 2 ^ 63"
      "duration_parts (d + k) r = Some v"
      by (subst (asm) duration_parts.simps) (auto split: option.splits if_splits)
    with "1.IH" [OF False k(1) refl] duration_part_nonneg [OF k(1)] 1(3) show ?thesis by simp
  qed
qed

text \<open>What is read fits in an \<open>int64\<close>.\<close>

lemma ParseDuration_bounds: "ParseDuration s = Some v \<Longrightarrow> - (2 ^ 63) \<le> v \<and> v < 2 ^ 63"
  by (auto simp: ParseDuration_def max_int64_def Let_def split: list.splits if_splits option.splits
      dest!: duration_parts_bound)

lemma Atoi_bounds: "Atoi s = Some v \<Longrightarrow> - (2 ^ 63) \<le> v \<and> v < 2 ^ 63"
  by (auto simp: Atoi_def max_int64_def Let_def split: list.splits if_splits)

lemma digit_char_digits:
  "n < 10 \<Longrightarrow> is_digit (digit_char n) \<and> digit_value (digit_char n) = int n"
proof -
  assume "n < 10"
  then have "(of_char (digit_char n) :: nat) = 48 + n" by (simp add: digit_char_def)
  then have "(of_char (digit_char n) :: int) = 48 + int n"
    by (metis of_nat_add of_nat_numeral of_nat_of_char)
  with \<open>n < 10\<close> show "is_digit (digit_char n) \<and> digit_value (digit_char n) = int n"
    by (simp add: is_digit_def digit_value_def)
qed

lemma decimal_snoc: "decimal (s @ [c]) = 10 * decimal s + digit_value c"
  by (simp add: decimal_def)

lemma decimal_show_nat: "decimal (show_nat n) = int n"
proof (induction n rule: less_induct)
  case (less n)
  show ?case
  proof (cases "n < 10")
    case True
    then show ?thesis
      by (subst show_nat.simps) (simp add: decimal_def digit_char_digits)
  next
    case False
    with less [of "n div 10"] have "decimal (show_nat (n div 10)) = int (n div 10)" by simp
    with False show ?thesis
      by (subst show_nat.simps) (simp add: decimal_snoc digit_char_digits zdiv_int zmod_int)
  qed
qed

lemma show_nat_digits: "list_all is_digit (show_nat n)"
proof (induction n rule: less_induct)
  case (less n)
  then show ?case by (subst show_nat.simps) (auto simp: digit_char_digits)
qed

lemma Atoi_itoa: "- (2 ^ 63) \<le> i \<Longrightarrow> i < 2 ^ 63 \<Longrightarrow> Atoi (itoa i) = Some i"
proof -
  assume i: "- (2 ^ 63) \<le> i" "i < 2 ^ 63"
  show ?thesis
  proof (cases "i < 0")
    case True
    with i show ?thesis
      by (simp add: Atoi_def itoa_def Let_def show_nat_digits decimal_show_nat max_int64_def)
  next
    case False
    obtain c cs where s: "show_nat (nat i) = c # cs"
      using show_nat_nonempty [of "nat i"] by (cases "show_nat (nat i)") auto
    with show_nat_digits [of "nat i"] have "is_digit c" by simp
    then have "c \<noteq> CHR ''-''" "c \<noteq> CHR ''+''" by (auto simp: is_digit_def)
    with False i s show_nat_digits [of "nat i"] decimal_show_nat [of "nat i"] show ?thesis
      by (simp add: Atoi_def itoa_def Let_def max_int64_def)
  qed
qed

end
