(* ===== verification/Http.thy ===== *)
theory Http
  imports Batch Base64 Strconv
begin

text \<open>
  The HTTP side of internal/api: requests, responses and their JSON (respond.go), reading a
  bounded body, and what lies at the edge of the process as parameters: the JSON decoder for each
  payload, the parsers of \<open>uuid\<close>, \<open>time\<close> and \<open>url\<close>, chi's matching of routes, the broker's answers to
  passive declares, and the sources of the metrics summary.
\<close>

section \<open>Responses (respond.go)\<close>

text \<open>
  JSON with the values still typed: a text for humans, an identifier, a time and a float64 (as a
  quotient) are printed by the encoder.
\<close>

datatype json =
    JNull
  | JBool bool
  | JInt int
  | JFloat "int \<times> int"
  | JStr string
  | JText gotext
  | JUuid uuid
  | JTime time
  | JArr "json list"
  | JObj "(string \<times> json) list"

datatype reply_body = NoBody | Json json | TextBody string

record http_response =
  hs_status :: int
  hs_body :: reply_body

text \<open>A handler answers or panics, with \<open>http.ErrAbortHandler\<close> or anything else.\<close>

datatype outcome = Served http_response | Panicked bool

text \<open>
  The encoder refuses a time outside the years 0 to 9999 (its zone is UTC here, as it is for a
  time read from the database in the program's container), and then it has written nothing:
  the status is sent, the body is empty. The years 0 to 9999 begin 366 days before year 1 and have
  3652425 days.
\<close>

definition json_time :: "time \<Rightarrow> bool" where
  "json_time t \<longleftrightarrow> - (366 * 86400 * second) \<le> t \<and> t < 3652059 * 86400 * second"

fun encodable :: "json \<Rightarrow> bool" where
  "encodable (JTime t) = json_time t"
| "encodable (JArr xs) = list_all encodable xs"
| "encodable (JObj kvs) = list_all (\<lambda>(key, v). encodable v) kvs"
| "encodable _ = True"

definition writeJSONResponse :: "int \<Rightarrow> json \<Rightarrow> http_response" where
  "writeJSONResponse code body =
     \<lparr>hs_status = code, hs_body = (if encodable body then Json body else NoBody)\<rparr>"

text \<open>\<open>omitempty\<close> on a pointer and on a slice.\<close>

definition omit_nil :: "string \<Rightarrow> ('a \<Rightarrow> json) \<Rightarrow> 'a option \<Rightarrow> (string \<times> json) list" where
  "omit_nil key f v = (case v of None \<Rightarrow> [] | Some x \<Rightarrow> [(key, f x)])"

definition omit_empty :: "string \<Rightarrow> ('a \<Rightarrow> json) \<Rightarrow> 'a list \<Rightarrow> (string \<times> json) list" where
  "omit_empty key f xs = (if xs = [] then [] else [(key, JArr (map f xs))])"

text \<open>A slice that was never assigned is null, an empty one is an empty array.\<close>

definition json_slice :: "('a \<Rightarrow> json) \<Rightarrow> 'a list \<Rightarrow> json" where
  "json_slice f xs = (if xs = [] then JNull else JArr (map f xs))"

definition fieldErrorResponse :: "field_error \<Rightarrow> json" where
  "fieldErrorResponse f =
     JObj [(''field'', JStr (fe_field f)), (''message'', JText (fe_message f))]"

definition writeErrorResponse :: "int \<Rightarrow> gotext \<Rightarrow> field_error list \<Rightarrow> http_response" where
  "writeErrorResponse code message errs =
     writeJSONResponse code
       (JObj ((''error'', JText message) # omit_empty ''fields'' fieldErrorResponse errs))"

section \<open>Requests\<close>

text \<open>
  \<open>hr_request_id\<close> is the X-Request-ID header (empty when absent), \<open>hr_query\<close> the query parameters
  in order, \<open>hr_param\<close> chi's path parameter. Go ranges over a map in a random order:
  \<open>hr_map_order\<close> says whether this request meets the two-element maps back to front.
\<close>

record http_request =
  hr_method :: string
  hr_path :: string
  hr_request_id :: string
  hr_query :: "(string \<times> string) list"
  hr_param :: string
  hr_body :: string
  hr_map_order :: bool

definition query_Get :: "http_request \<Rightarrow> string \<Rightarrow> string" where
  "query_Get req key = (case map_of (hr_query req) key of None \<Rightarrow> [] | Some v \<Rightarrow> v)"

section \<open>Payloads\<close>

record create_request =
  cq_recipient :: string
  cq_channel :: string
  cq_content :: string
  cq_template :: "template_ref option"
  cq_priority :: string
  cq_scheduled_at :: "time option"
  cq_idempotency_key :: "string option"

record template_request =
  tq_name :: string
  tq_channel :: string
  tq_body :: string

record incoming_message =
  im_to :: string
  im_channel :: string
  im_content :: string

text \<open>What the decoder makes of the bytes it has: a value, an error, or it wants more.\<close>

datatype 'a scan = Decoded 'a | Malformed | Incomplete

section \<open>Metric families (the client_model package's data)\<close>

record metric =
  mt_labels :: "(string \<times> string) list"
  mt_value :: "int \<times> int"
  mt_count :: "64 word"
  mt_sum :: "int \<times> int"

record metric_family =
  mf_name :: string
  mf_metrics :: "metric list"

section \<open>Rows of the metrics summary (metrics_summary.go)\<close>

text \<open>A Go map of labels is an association list with distinct keys; a float64 is a quotient.\<close>

type_synonym labels = "(string \<times> string) list"
type_synonym float64 = "int \<times> int"

record labeled_value =
  lv_labels :: labels
  lv_value :: float64

record latency_summary =
  la_labels :: labels
  la_count :: "64 word"
  la_avg_ms :: float64

section \<open>The edge of the process\<close>

text \<open>
  \<open>chi\<close> gets the registered (method, pattern) pairs and a request's method and path, and answers
  with the index of the route that serves it, the path parameter and the route pattern, or with
  its own reply to a request that no route serves. \<open>foreign_page\<close> is a page written by code outside
  the repository (the WebSocket upgrade, the Prometheus handler); \<open>openapi_yaml\<close> and
  \<open>dashboard_page\<close> are the embedded files. \<open>cursor_json\<close> is empty when the time cannot be
  marshalled. Numbered answers are taken at the step of the world at which they are asked for.
\<close>

record chi_match =
  cm_route :: "nat option"
  cm_param :: string
  cm_pattern :: string
  cm_reply :: http_response

record edge =
  scan_create :: "string \<Rightarrow> create_request scan"
  scan_batch :: "string \<Rightarrow> create_request list scan"
  scan_template :: "string \<Rightarrow> template_request scan"
  scan_paused :: "string \<Rightarrow> bool scan"
  scan_url :: "string \<Rightarrow> string scan"
  scan_incoming :: "string \<Rightarrow> incoming_message scan"
  uuid_parse :: "string \<Rightarrow> uuid option"
  time_parse :: "string \<Rightarrow> time option"
  time_format :: "time \<Rightarrow> string"
  url_parse :: "string \<Rightarrow> (string \<times> string) option"
  cursor_json :: "time \<Rightarrow> uuid \<Rightarrow> string"
  cursor_unjson :: "string \<Rightarrow> (time \<times> uuid) option"
  chi :: "(string \<times> string) list \<Rightarrow> string \<Rightarrow> string \<Rightarrow> chi_match"
  foreign_page :: "string \<Rightarrow> nat \<Rightarrow> outcome"
  openapi_yaml :: string
  dashboard_page :: string
  ctx_done :: "nat \<Rightarrow> bool"
  broker_channel :: "nat \<Rightarrow> bool"
  queue_messages :: "nat \<Rightarrow> string \<Rightarrow> int option"
  broker_closed :: "nat \<Rightarrow> bool"
  gather :: "metrics \<Rightarrow> gotext + metric_family list"
  worker_families :: "nat \<Rightarrow> metric_family list option"
  sort_values :: "labeled_value list \<Rightarrow> labeled_value list"
  sort_latency :: "latency_summary list \<Rightarrow> latency_summary list"

section \<open>Reading a body\<close>

definition Decode :: "(string \<Rightarrow> 'a scan) \<Rightarrow> string \<Rightarrow> 'a option" where
  "Decode scn body = (case scn body of Decoded v \<Rightarrow> Some v | _ \<Rightarrow> None)"

datatype body_error = MalformedBody | BodyTooLarge

text \<open>
  Decoding through \<open>http.MaxBytesReader\<close>: the decoder gets the first \<open>limit\<close> bytes, and an error
  when it asks for more of a longer body.
\<close>

definition Decode_limited :: "(string \<Rightarrow> 'a scan) \<Rightarrow> int \<Rightarrow> string \<Rightarrow> body_error + 'a" where
  "Decode_limited scn limit body =
     (if int (length body) \<le> limit then
        (case Decode scn body of Some v \<Rightarrow> Inr v | None \<Rightarrow> Inl MalformedBody)
      else case scn (take (nat limit) body) of
        Decoded v \<Rightarrow> Inr v
      | Malformed \<Rightarrow> Inl MalformedBody
      | Incomplete \<Rightarrow> Inl BodyTooLarge)"

definition write_body_error :: "int \<Rightarrow> body_error \<Rightarrow> http_response" where
  "write_body_error limit e =
     (case e of
        BodyTooLarge \<Rightarrow> writeErrorResponse 413
          [Plain ''request body exceeds '', Plain (itoa limit), Plain '' bytes''] []
      | MalformedBody \<Rightarrow> writeErrorResponse 400 [Plain ''malformed JSON body''] [])"

section \<open>strings.TrimSpace, strings.Contains\<close>

text \<open>The UTF-8 encodings of the code points that \<open>unicode.IsSpace\<close> accepts.\<close>

definition space_seqs :: "string list" where
  "space_seqs =
     map (\<lambda>n. [char_of (n :: int)]) [9, 10, 11, 12, 13, 32] @
     map (map (char_of :: int \<Rightarrow> char))
       ([[0xC2, 0x85], [0xC2, 0xA0], [0xE1, 0x9A, 0x80]] @
        map (\<lambda>n. [0xE2, 0x80, 0x80 + n]) [0, 1, 2, 3, 4, 5, 6, 7, 8, 9, 10] @
        [[0xE2, 0x80, 0xA8], [0xE2, 0x80, 0xA9], [0xE2, 0x80, 0xAF], [0xE2, 0x81, 0x9F],
         [0xE3, 0x80, 0x80]])"

fun strip_prefixes :: "string list \<Rightarrow> nat \<Rightarrow> string \<Rightarrow> string" where
  "strip_prefixes ps 0 s = s"
| "strip_prefixes ps (Suc n) s =
     (case find (\<lambda>p. take (length p) s = p) ps of
        None \<Rightarrow> s
      | Some p \<Rightarrow> strip_prefixes ps n (drop (length p) s))"

definition TrimSpace :: "string \<Rightarrow> string" where
  "TrimSpace s =
     (let l = strip_prefixes space_seqs (length s) s
      in rev (strip_prefixes (map rev space_seqs) (length l) (rev l)))"

definition Contains :: "string \<Rightarrow> string \<Rightarrow> bool" where
  "Contains s m = list_ex (\<lambda>i. take (length m) (drop i s) = m) [0..<Suc (length s)]"

end
