(* ===== verification/ApiNotifications.thy ===== *)
theory ApiNotifications
  imports Http
begin

text \<open>
  internal/api/cursor.go, notifications.go and batch.go: the pagination token and the handlers
  of the notification endpoints over the notification service.
\<close>

section \<open>The cursor (cursor.go)\<close>

definition encodeCursor :: "edge \<Rightarrow> time \<Rightarrow> uuid \<Rightarrow> string" where
  "encodeCursor e createdAt i = EncodeToString (cursor_json e createdAt i)"

definition decodeCursor :: "edge \<Rightarrow> string \<Rightarrow> (time \<times> uuid) result" where
  "decodeCursor e encoded =
     (case DecodeString encoded of
        None \<Rightarrow> Inl (Wrap [Plain ''decode cursor''] (Opaque ''base64'' 0))
      | Some raw \<Rightarrow>
          (case cursor_unjson e raw of
             None \<Rightarrow> Inl (Wrap [Plain ''parse cursor''] (Opaque ''json'' 0))
           | Some (createdAt, i) \<Rightarrow>
               if createdAt = 0 \<or> i = uuid_Nil then Inl (Errorf [Plain ''cursor missing fields''])
               else Inr (createdAt, i)))"

section \<open>Payloads and responses\<close>

definition toCreateInput :: "create_request \<Rightarrow> create_input" where
  "toCreateInput p =
     \<lparr>ci_recipient = cq_recipient p, ci_channel = cq_channel p, ci_content = cq_content p,
      ci_template = cq_template p, ci_priority = cq_priority p,
      ci_scheduled_at = cq_scheduled_at p, ci_idempotency_key = cq_idempotency_key p\<rparr>"

definition toNotificationResponse :: "notification \<Rightarrow> json" where
  "toNotificationResponse n =
     JObj ([(''id'', JUuid (nid n))] @ omit_nil ''batch_id'' JUuid (batch_id n) @
       [(''recipient'', JStr (recipient n)), (''channel'', JStr (channel n)),
        (''content'', JStr (content n)), (''priority'', JStr (priority n)),
        (''status'', JStr (status_string (status n)))] @
       omit_nil ''scheduled_at'' JTime (scheduled_at n) @
       [(''attempts'', JInt (attempts n))] @
       omit_nil ''last_error'' JText (last_error n) @
       omit_nil ''provider_message_id'' JStr (provider_message_id n) @
       [(''created_at'', JTime (created_at n)), (''updated_at'', JTime (updated_at n))] @
       omit_nil ''sent_at'' JTime (sent_at n))"

text \<open>The switch of \<open>writeServiceError\<close>, in its order.\<close>

definition writeServiceError :: "error \<Rightarrow> http_response" where
  "writeServiceError e =
     (case as_validation e of
        Some v \<Rightarrow> writeErrorResponse 400 [Plain ''validation failed''] v
      | None \<Rightarrow>
          if errors_is e ErrNotFound then writeErrorResponse 404 [Plain ''notification not found''] []
          else if errors_is e ErrDuplicateIdempotencyKey
          then writeErrorResponse 409 [Plain ''idempotency key conflict; retry the request''] []
          else writeErrorResponse 500 [Plain ''internal error''] [])"

section \<open>create, get, cancel\<close>

record notification_handler =
  nh_service :: service
  nh_max_batch_size :: int

definition maxRequestBodyBytes :: int where "maxRequestBodyBytes = 1048576"

definition notifications_create ::
  "notification_handler \<Rightarrow> edge \<Rightarrow> ctx \<Rightarrow> http_request \<Rightarrow> world \<Rightarrow> http_response \<times> world" where
  "notifications_create h e ctx req w =
     (case Decode_limited (scan_create e) maxRequestBodyBytes (hr_body req) of
        Inl b \<Rightarrow> (write_body_error maxRequestBodyBytes b, w)
      | Inr payload \<Rightarrow>
          (case Service_Create (nh_service h) ctx (toCreateInput payload) w of
             (Inl err, w1) \<Rightarrow> (writeServiceError err, w1)
           | (Inr r, w1) \<Rightarrow>
               (writeJSONResponse (if cr_replayed r then 200 else 201)
                  (toNotificationResponse (cr_notification r)), w1)))"

definition notifications_get ::
  "notification_handler \<Rightarrow> edge \<Rightarrow> http_request \<Rightarrow> world \<Rightarrow> http_response \<times> world" where
  "notifications_get h e req w =
     (case uuid_parse e (hr_param req) of
        None \<Rightarrow> (writeErrorResponse 400 [Plain ''id must be a UUID''] [], w)
      | Some i \<Rightarrow>
          (case Service_Get i w of
             (Inl err, w1) \<Rightarrow> (writeServiceError err, w1)
           | (Inr n, w1) \<Rightarrow> (writeJSONResponse 200 (toNotificationResponse n), w1)))"

definition notifications_cancel ::
  "notification_handler \<Rightarrow> edge \<Rightarrow> http_request \<Rightarrow> world \<Rightarrow> http_response \<times> world" where
  "notifications_cancel h e req w =
     (case uuid_parse e (hr_param req) of
        None \<Rightarrow> (writeErrorResponse 400 [Plain ''id must be a UUID''] [], w)
      | Some i \<Rightarrow>
          (case Service_Cancel i w of
             (Inl err, w1) \<Rightarrow>
               (if errors_is err ErrInvalidTransition
                then writeErrorResponse 409 [Plain ''notification is no longer cancellable''] []
                else writeServiceError err, w1)
           | (Inr n, w1) \<Rightarrow> (writeJSONResponse 200 (toNotificationResponse n), w1)))"

section \<open>list\<close>

text \<open>The parameters are read in the order of the source; \<open>from\<close> and \<open>to\<close> in a random one.\<close>

definition parse_limit :: "http_request \<Rightarrow> list_query \<Rightarrow> list_query result" where
  "parse_limit req q =
     (let s = query_Get req ''limit'' in
      if s = [] then Inr q
      else case Atoi s of
        None \<Rightarrow> Inl (Errorf [Plain ''limit must be a positive integer''])
      | Some n \<Rightarrow> if n < 1 then Inl (Errorf [Plain ''limit must be a positive integer''])
          else Inr (q\<lparr>q_limit := n\<rparr>))"

definition parse_batch_id :: "edge \<Rightarrow> http_request \<Rightarrow> list_query \<Rightarrow> list_query result" where
  "parse_batch_id e req q =
     (let s = query_Get req ''batch_id'' in
      if s = [] then Inr q
      else case uuid_parse e s of
        None \<Rightarrow> Inl (Errorf [Plain ''batch_id must be a UUID''])
      | Some i \<Rightarrow> Inr (q\<lparr>q_batch_id := Some i\<rparr>))"

definition parse_time_param ::
  "edge \<Rightarrow> http_request \<Rightarrow> string \<Rightarrow> (time \<Rightarrow> list_query \<Rightarrow> list_query) \<Rightarrow> list_query \<Rightarrow>
   list_query result" where
  "parse_time_param e req name target q =
     (let s = query_Get req name in
      if s = [] then Inr q
      else case time_parse e s of
        None \<Rightarrow> Inl (Errorf [Plain name, Plain '' must be RFC3339''])
      | Some t \<Rightarrow> Inr (target t q))"

definition parse_from :: "edge \<Rightarrow> http_request \<Rightarrow> list_query \<Rightarrow> list_query result" where
  "parse_from e req = parse_time_param e req ''from'' (\<lambda>t q. q\<lparr>q_from := Some t\<rparr>)"

definition parse_to :: "edge \<Rightarrow> http_request \<Rightarrow> list_query \<Rightarrow> list_query result" where
  "parse_to e req = parse_time_param e req ''to'' (\<lambda>t q. q\<lparr>q_to := Some t\<rparr>)"

definition parse_cursor :: "edge \<Rightarrow> http_request \<Rightarrow> list_query \<Rightarrow> list_query result" where
  "parse_cursor e req q =
     (let s = query_Get req ''cursor'' in
      if s = [] then Inr q
      else case decodeCursor e s of
        Inl err \<Rightarrow> Inl (Errorf [Plain ''invalid cursor''])
      | Inr (t, i) \<Rightarrow> Inr (q\<lparr>q_cursor_created_at := Some t, q_cursor_id := Some i\<rparr>))"

definition parseListQuery :: "edge \<Rightarrow> http_request \<Rightarrow> list_query result" where
  "parseListQuery e req =
     bind (parse_limit req
       \<lparr>q_status = query_Get req ''status'', q_channel = query_Get req ''channel'',
        q_batch_id = None, q_from = None, q_to = None, q_limit = 0,
        q_cursor_created_at = None, q_cursor_id = None\<rparr>) (\<lambda>q1.
     bind (parse_batch_id e req q1) (\<lambda>q2.
     bind ((if hr_map_order req then parse_to else parse_from) e req q2) (\<lambda>q3.
     bind ((if hr_map_order req then parse_from else parse_to) e req q3) (\<lambda>q4.
     parse_cursor e req q4))))"

definition effectiveLimit :: "list_query \<Rightarrow> int" where
  "effectiveLimit q =
     (let l = (if q_limit q \<le> 0 then DefaultListLimit else q_limit q)
      in if l > MaxListLimit then MaxListLimit else l)"

definition next_cursor :: "edge \<Rightarrow> list_query \<Rightarrow> notification list \<Rightarrow> string" where
  "next_cursor e q ns =
     (if int (length ns) = effectiveLimit q
      then encodeCursor e (created_at (ns ! (length ns - 1))) (nid (ns ! (length ns - 1)))
      else [])"

definition notifications_list ::
  "notification_handler \<Rightarrow> edge \<Rightarrow> http_request \<Rightarrow> world \<Rightarrow> http_response \<times> world" where
  "notifications_list h e req w =
     (case parseListQuery e req of
        Inl err \<Rightarrow> (writeErrorResponse 400 (error_text err) [], w)
      | Inr q \<Rightarrow>
          (case Service_List q w of
             (Inl err, w1) \<Rightarrow> (writeServiceError err, w1)
           | (Inr ns, w1) \<Rightarrow>
               (writeJSONResponse 200
                  (JObj [(''data'', JArr (map toNotificationResponse ns)),
                         (''next_cursor'', JStr (next_cursor e q ns))]), w1)))"

section \<open>createBatch (batch.go)\<close>

definition maxBatchBodyBytes :: int where "maxBatchBodyBytes = 10485760"

fun batch_status_string :: "batch_item_status \<Rightarrow> string" where
  "batch_status_string BatchItemAccepted = ''accepted''"
| "batch_status_string BatchItemRejected = ''rejected''"
| "batch_status_string BatchItemDuplicate = ''duplicate''"

definition batchItemResponse :: "batch_item \<Rightarrow> json" where
  "batchItemResponse it =
     JObj ([(''index'', JInt (int (bi_index it))),
            (''status'', JStr (batch_status_string (bi_status it)))] @
       omit_nil ''notification'' toNotificationResponse (bi_notification it) @
       omit_nil ''existing_id'' JUuid (bi_existing_id it) @
       omit_empty ''errors'' fieldErrorResponse (bi_errors it))"

definition toBatchResponse :: "batch_result \<Rightarrow> json" where
  "toBatchResponse r =
     JObj [(''batch_id'', JUuid (br_batch_id r)), (''accepted'', JInt (int (br_accepted r))),
           (''rejected'', JInt (int (br_rejected r))),
           (''results'', JArr (map batchItemResponse (br_results r)))]"

definition notifications_createBatch ::
  "notification_handler \<Rightarrow> edge \<Rightarrow> ctx \<Rightarrow> http_request \<Rightarrow> world \<Rightarrow> http_response \<times> world" where
  "notifications_createBatch h e ctx req w =
     (case Decode_limited (scan_batch e) maxBatchBodyBytes (hr_body req) of
        Inl b \<Rightarrow> (write_body_error maxBatchBodyBytes b, w)
      | Inr items \<Rightarrow>
          if items = [] then
            (writeErrorResponse 400 [Plain ''notifications must not be empty''] [], w)
          else if int (length items) > nh_max_batch_size h then
            (writeErrorResponse 400 [Plain ''batch exceeds '', Plain (itoa (nh_max_batch_size h)),
               Plain '' notifications''] [], w)
          else
            (case CreateBatch (nh_service h) ctx (map toCreateInput items) w of
               (Inl err, w1) \<Rightarrow> (writeServiceError err, w1)
             | (Inr r, w1) \<Rightarrow> (writeJSONResponse 201 (toBatchResponse r), w1)))"

end
