(* ===== verification/ApiControl.thy ===== *)
theory ApiControl
  imports Http "HOL-Library.Char_ord" "HOL-Library.List_Lexorder"
begin

text \<open>
  The other handlers of internal/api: templates.go, dashboard.go and readyz.go, with the queue
  inspector (internal/queue/rabbit/inspect.go), the poller of the queue-depth gauge
  (cmd/notifier/main.go) and the built-in provider (internal/mockprovider).
\<close>

section \<open>Templates (templates.go)\<close>

definition toTemplateResponse :: "template \<Rightarrow> json" where
  "toTemplateResponse tm =
     JObj [(''name'', JStr (t_name tm)), (''channel'', JStr (t_channel tm)),
           (''body'', JStr (t_body tm)), (''created_at'', JTime (t_created_at tm)),
           (''updated_at'', JTime (t_updated_at tm))]"

definition templates_create :: "edge \<Rightarrow> http_request \<Rightarrow> world \<Rightarrow> http_response \<times> world" where
  "templates_create e req w =
     (case Decode (scan_template e) (hr_body req) of
        None \<Rightarrow> (writeErrorResponse 400 [Plain ''malformed JSON body''] [], w)
      | Some p \<Rightarrow>
          (case Template_Create \<lparr>ct_name = tq_name p, ct_channel = tq_channel p,
                                  ct_body = tq_body p\<rparr> w of
             (Inl err, w1) \<Rightarrow>
               (case as_validation err of
                  Some v \<Rightarrow> writeErrorResponse 400 [Plain ''validation failed''] v
                | None \<Rightarrow>
                    if errors_is err ErrDuplicateTemplateName
                    then writeErrorResponse 409 [Plain ''template name already exists''] []
                    else writeErrorResponse 500 [Plain ''internal error''] [], w1)
           | (Inr tm, w1) \<Rightarrow> (writeJSONResponse 201 (toTemplateResponse tm), w1)))"

definition templates_get :: "http_request \<Rightarrow> world \<Rightarrow> http_response \<times> world" where
  "templates_get req w =
     (case Template_GetByName (hr_param req) w of
        (Inl err, w1) \<Rightarrow>
          (if errors_is err ErrNotFound then writeErrorResponse 404 [Plain ''template not found''] []
           else writeErrorResponse 500 [Plain ''internal error''] [], w1)
      | (Inr tm, w1) \<Rightarrow> (writeJSONResponse 200 (toTemplateResponse tm), w1))"

definition templates_list :: "world \<Rightarrow> http_response \<times> world" where
  "templates_list w =
     (case Template_List w of
        (Inl err, w1) \<Rightarrow> (writeErrorResponse 500 [Plain ''internal error''] [], w1)
      | (Inr tms, w1) \<Rightarrow>
          (writeJSONResponse 200 (JObj [(''data'', JArr (map toTemplateResponse tms))]), w1))"

section \<open>Static pages (docs.go, dashboard.go)\<close>

text \<open>The API's contract and the dashboard are files that the build embeds; the docs page is written out.\<close>

definition swaggerUILines :: "string list" where
  "swaggerUILines =
     [''<!DOCTYPE html>'',
      ''<html lang=\"en\">'',
      ''<head>'',
      ''  <meta charset=\"utf-8\"/>'',
      ''  <meta name=\"viewport\" content=\"width=device-width, initial-scale=1\"/>'',
      ''  <title>Notification Service API '' @ [CHR 0xE2, CHR 0x80, CHR 0x94] @ '' Docs</title>'',
      ''  <link rel=\"stylesheet\" href=\"https://unpkg.com/swagger-ui-dist@5/swagger-ui.css\"/>'',
      ''</head>'',
      ''<body>'',
      ''  <div id=\"swagger-ui\"></div>'',
      ''  <script src=\"https://unpkg.com/swagger-ui-dist@5/swagger-ui-bundle.js\"></script>'',
      ''  <script>'',
      ''    SwaggerUIBundle({'',
      ''      url: \"/api/v1/openapi.yaml\",'',
      ''      dom_id: \"#swagger-ui\",'',
      ''      tryItOutEnabled: true'',
      ''    });'',
      ''  </script>'',
      ''</body>'',
      ''</html>'']"

definition swaggerUIPage :: string where
  "swaggerUIPage = concat (map (\<lambda>line. line @ [CHR 0x0A]) (butlast swaggerUILines)) @ last swaggerUILines"

definition handleOpenAPISpec :: "edge \<Rightarrow> http_response" where
  "handleOpenAPISpec e = \<lparr>hs_status = 200, hs_body = TextBody (openapi_yaml e)\<rparr>"

definition handleSwaggerUI :: http_response where
  "handleSwaggerUI = \<lparr>hs_status = 200, hs_body = TextBody swaggerUIPage\<rparr>"

definition handleDashboard :: "edge \<Rightarrow> http_response" where
  "handleDashboard e = \<lparr>hs_status = 200, hs_body = TextBody (dashboard_page e)\<rparr>"

section \<open>Queue depths (inspect.go, main.go)\<close>

definition inspected_queues :: "string list" where
  "inspected_queues =
     map WorkQueueName Channels @ map tier_name RetryTiers @ [DeadLetterQueue]"

text \<open>Each probe is an interaction of its own; the context is looked at before it.\<close>

fun probe_queues :: "edge \<Rightarrow> string list \<Rightarrow> world \<Rightarrow> (string \<times> int) list result \<times> world" where
  "probe_queues e [] w = (Inr [], w)"
| "probe_queues e (name # names) w =
     (if ctx_done e (steps w) then
        (Inl (Wrap [Plain ''inspect queues''] (Opaque ''context'' (steps w))), w)
      else
        let w1 = w\<lparr>steps := Suc (steps w)\<rparr> in
        case queue_messages e (steps w) name of
          None \<Rightarrow> (Inl (Wrap [Plain ''inspect queue '', Plain name] (Opaque ''amqp'' (steps w))), w1)
        | Some ready \<Rightarrow>
            (case probe_queues e names w1 of
               (Inl err, w2) \<Rightarrow> (Inl err, w2)
             | (Inr ds, w2) \<Rightarrow> (Inr ((name, ready) # ds), w2)))"

definition QueueDepths :: "edge \<Rightarrow> world \<Rightarrow> (string \<times> int) list result \<times> world" where
  "QueueDepths e w =
     (let w1 = w\<lparr>steps := Suc (steps w)\<rparr> in
      if \<not> broker_channel e (steps w) then
        (Inl (Wrap [Plain ''open inspect channel''] (Opaque ''amqp'' (steps w))), w1)
      else probe_queues e inspected_queues w1)"

definition poll_tick :: "edge \<Rightarrow> world \<Rightarrow> world" where
  "poll_tick e w =
     (case QueueDepths e w of
        (Inl err, w1) \<Rightarrow> w1
      | (Inr depths, w1) \<Rightarrow>
          foldl (\<lambda>w (name, ready). w\<lparr>metrics := SetQueueDepth name ready (metrics w)\<rparr>) w1 depths)"

text \<open>The poller runs until its context ends, here after \<open>k\<close> ticks.\<close>

definition pollQueueDepths :: "edge \<Rightarrow> nat \<Rightarrow> world \<Rightarrow> world" where
  "pollQueueDepths e k w = (poll_tick e ^^ k) w"

section \<open>The dashboard's controls (dashboard.go)\<close>

definition writeInternalError :: http_response where
  "writeInternalError = writeErrorResponse 500 [Plain ''internal error''] []"

record provider_state =
  ps_override :: string
  ps_default :: string
  ps_effective :: string

definition providerState :: "string \<Rightarrow> world \<Rightarrow> provider_state result \<times> world" where
  "providerState dflt w =
     (case ProviderOverride w of
        (Inl err, w1) \<Rightarrow> (Inl err, w1)
      | (Inr u, w1) \<Rightarrow>
          (Inr \<lparr>ps_override = u, ps_default = dflt,
                ps_effective = (if u \<noteq> [] then u else dflt)\<rparr>, w1))"

definition provider_json :: "provider_state \<Rightarrow> json" where
  "provider_json s =
     JObj [(''override'', JStr (ps_override s)), (''default'', JStr (ps_default s)),
           (''effective'', JStr (ps_effective s))]"

definition getProvider :: "string \<Rightarrow> world \<Rightarrow> http_response \<times> world" where
  "getProvider dflt w =
     (case providerState dflt w of
        (Inl err, w1) \<Rightarrow> (writeInternalError, w1)
      | (Inr s, w1) \<Rightarrow> (writeJSONResponse 200 (provider_json s), w1))"

definition absolute_http :: "edge \<Rightarrow> string \<Rightarrow> bool" where
  "absolute_http e target =
     (case url_parse e target of
        None \<Rightarrow> False
      | Some (scheme, host) \<Rightarrow> (scheme = ''http'' \<or> scheme = ''https'') \<and> host \<noteq> [])"

definition setProvider :: "string \<Rightarrow> edge \<Rightarrow> http_request \<Rightarrow> world \<Rightarrow> http_response \<times> world" where
  "setProvider dflt e req w =
     (case Decode (scan_url e) (hr_body req) of
        None \<Rightarrow> (writeErrorResponse 400 [Plain ''malformed JSON body''] [], w)
      | Some url \<Rightarrow>
          let target = TrimSpace url in
          if target \<noteq> [] \<and> \<not> absolute_http e target then
            (writeErrorResponse 400
               [Plain ''url must be an absolute http(s) URL, or empty to reset''] [], w)
          else (case SetProviderOverride target w of
            (Inl err, w1) \<Rightarrow> (writeInternalError, w1)
          | (Inr _, w1) \<Rightarrow> getProvider dflt w1))"

definition worker_state_json :: "bool \<Rightarrow> json" where
  "worker_state_json paused = JObj [(''paused'', JBool paused)]"

definition getWorkerState :: "world \<Rightarrow> http_response \<times> world" where
  "getWorkerState w =
     (case WorkerPaused w of
        (Inl err, w1) \<Rightarrow> (writeInternalError, w1)
      | (Inr paused, w1) \<Rightarrow> (writeJSONResponse 200 (worker_state_json paused), w1))"

definition setWorkerState :: "edge \<Rightarrow> http_request \<Rightarrow> world \<Rightarrow> http_response \<times> world" where
  "setWorkerState e req w =
     (case Decode (scan_paused e) (hr_body req) of
        None \<Rightarrow> (writeErrorResponse 400 [Plain ''malformed JSON body''] [], w)
      | Some paused \<Rightarrow>
          (case SetWorkerPaused paused w of
             (Inl err, w1) \<Rightarrow> (writeInternalError, w1)
           | (Inr _, w1) \<Rightarrow> (writeJSONResponse 200 (worker_state_json paused), w1)))"

definition depth_json :: "string \<times> int \<Rightarrow> json" where
  "depth_json d = JObj [(''name'', JStr (fst d)), (''ready'', JInt (snd d))]"

definition getQueueDepths :: "edge \<Rightarrow> world \<Rightarrow> http_response \<times> world" where
  "getQueueDepths e w =
     (case QueueDepths e w of
        (Inl err, w1) \<Rightarrow> (writeInternalError, w1)
      | (Inr depths, w1) \<Rightarrow>
          (writeJSONResponse 200 (JObj [(''queues'', JArr (map depth_json depths))]), w1))"

section \<open>Readiness (readyz.go)\<close>

text \<open>The probes of the two dependencies that cmd/notifier/main.go registers.\<close>

type_synonym check = "world \<Rightarrow> error option \<times> world"

definition ping_postgres :: check where
  "ping_postgres w =
     (case db_call (\<lambda>t d. (Inr (), d)) w of
        (Inl err, w1) \<Rightarrow> (Some err, w1)
      | (Inr _, w1) \<Rightarrow> (None, w1))"

definition check_rabbit :: "edge \<Rightarrow> check" where
  "check_rabbit e w =
     (if broker_closed e (steps w) then Some (Errorf [Plain ''connection closed'']) else None,
      w\<lparr>steps := Suc (steps w)\<rparr>)"

fun run_checks :: "(string \<times> check) list \<Rightarrow> world \<Rightarrow> (string \<times> error option) list \<times> world" where
  "run_checks [] w = ([], w)"
| "run_checks ((dependency, check) # cs) w =
     (case check w of
        (r, w1) \<Rightarrow> (case run_checks cs w1 of (rs, w2) \<Rightarrow> ((dependency, r) # rs, w2)))"

text \<open>The encoder prints the map of the results by key.\<close>

definition check_json :: "string \<times> error option \<Rightarrow> string \<times> json" where
  "check_json r =
     (fst r, case snd r of Some err \<Rightarrow> JText (Plain ''down: '' # error_text err)
                         | None \<Rightarrow> JStr ''ok'')"

definition handleReadyz ::
  "(string \<times> check) list \<Rightarrow> http_request \<Rightarrow> world \<Rightarrow> http_response \<times> world" where
  "handleReadyz checks req w =
     (case run_checks (if hr_map_order req then rev checks else checks) w of
        (results, w1) \<Rightarrow>
          let ready = list_all (\<lambda>r. snd r = None) results in
          (writeJSONResponse (if ready then 200 else 503)
             (JObj [(''checks'', JObj (map check_json (sort_key fst results))),
                    (''status'', JStr (if ready then ''ok'' else ''degraded''))]), w1))"

section \<open>The built-in provider (mockprovider.go)\<close>

definition bufferSize :: nat where "bufferSize = 200"
definition markerRetryable :: string where "markerRetryable = ''FAILME''"
definition markerPermanent :: string where "markerPermanent = ''REJECTME''"

record received_message =
  rm_message_id :: string
  rm_to :: string
  rm_channel :: string
  rm_content :: string
  rm_received_at :: time

type_synonym store = "received_message list"

definition NewStore :: store where "NewStore = []"

definition store_add :: "received_message \<Rightarrow> store \<Rightarrow> store" where
  "store_add m s =
     (let s1 = s @ [m] in if length s1 > bufferSize then drop (length s1 - bufferSize) s1 else s1)"

definition store_Recent :: "store \<Rightarrow> received_message list" where
  "store_Recent s = rev s"

definition received_json :: "received_message \<Rightarrow> json" where
  "received_json m =
     JObj [(''message_id'', JStr (rm_message_id m)), (''to'', JStr (rm_to m)),
           (''channel'', JStr (rm_channel m)), (''content'', JStr (rm_content m)),
           (''received_at'', JTime (rm_received_at m))]"

definition store_Receive ::
  "edge \<Rightarrow> http_request \<Rightarrow> store \<Rightarrow> world \<Rightarrow> http_response \<times> store \<times> world" where
  "store_Receive e req s w =
     (case Decode (scan_incoming e) (hr_body req) of
        None \<Rightarrow> (\<lparr>hs_status = 400,
           hs_body = TextBody ''{\"error\":\"malformed provider request\"}''\<rparr>, s, w)
      | Some im \<Rightarrow>
          if Contains (im_content im) markerRetryable then
            (\<lparr>hs_status = 500, hs_body = Json (JObj [(''error'', JStr ''simulated provider outage'')])\<rparr>,
             s, w)
          else if Contains (im_content im) markerPermanent then
            (\<lparr>hs_status = 400,
              hs_body = Json (JObj [(''error'', JStr ''simulated permanent rejection'')])\<rparr>, s, w)
          else case uuid_New w of (i, w1) \<Rightarrow>
            case Now w1 of (now, w2) \<Rightarrow>
            let m = \<lparr>rm_message_id = uuid_text w i, rm_to = im_to im, rm_channel = im_channel im,
                     rm_content = im_content im, rm_received_at = now\<rparr> in
            (\<lparr>hs_status = 202, hs_body = Json (JObj
                [(''messageId'', JStr (rm_message_id m)), (''status'', JStr ''accepted''),
                 (''timestamp'', JStr (time_format e now))])\<rparr>, store_add m s, w2))"

definition getProviderMessages :: "store \<Rightarrow> http_response" where
  "getProviderMessages s =
     writeJSONResponse 200 (JObj [(''messages'', JArr (map received_json (store_Recent s)))])"

end
