(* ===== verification/Summary.thy ===== *)
theory Summary
  imports Http "HOL-Library.AList" "HOL-Library.Char_ord" "HOL-Library.List_Lexorder" "HOL-Library.Multiset"
begin

text \<open>
  internal/api/metrics_summary.go: the JSON view of the counters, merged from the local registry,
  the worker's exposition and the notifications table. float64 arithmetic rounds each operation
  with \<open>f64\<close>; sample counts are 64-bit words. \<open>sort.Slice\<close> leaves ties in an unspecified order, so
  the two sorts are parameters of the edge with the documented order as a hypothesis.
\<close>

definition f64_add :: "float64 \<Rightarrow> float64 \<Rightarrow> float64" where
  "f64_add x y = f64 (fst x * snd y + fst y * snd x, snd x * snd y)"

definition f64_of_count :: "64 word \<Rightarrow> float64" where
  "f64_of_count c = f64 (uint c, 1)"

section \<open>Labels\<close>

definition labelsOf :: "metric \<Rightarrow> labels" where
  "labelsOf m = foldl (\<lambda>ls (k, v). AList.update k v ls) [] (mt_labels m)"

text \<open>A key that a Go map does not have reads as the empty string.\<close>

definition label_at :: "labels \<Rightarrow> string \<Rightarrow> string" where
  "label_at ls k = (case map_of ls k of None \<Rightarrow> [] | Some v \<Rightarrow> v)"

definition sameLabels :: "labels \<Rightarrow> labels \<Rightarrow> bool" where
  "sameLabels a b \<longleftrightarrow> length a = length b \<and> list_all (\<lambda>(k, v). label_at b k = v) a"

text \<open>
  Rows with different keys are the same row when the odd values are empty. Within one metric
  family every row has the same keys, and there the test is right.
\<close>

lemma sameLabels_empty_value: "sameLabels [(''a'', [])] [(''b'', [])]"
  by (simp add: sameLabels_def label_at_def)

lemma sameLabels_same_keys:
  assumes "distinct (map fst a)" "distinct (map fst b)" "set (map fst a) = set (map fst b)"
  shows "sameLabels a b \<longleftrightarrow> map_of a = map_of b"
proof -
  have d: "dom (map_of a) = dom (map_of b)" using assms(3) by (simp add: dom_map_of_conv_image_fst)
  have "length a = length b"
    using assms distinct_card [OF assms(1)] distinct_card [OF assms(2)] by simp
  moreover have "list_all (\<lambda>(k, v). label_at b k = v) a \<longleftrightarrow> map_of a = map_of b"
  proof
    assume all: "list_all (\<lambda>(k, v). label_at b k = v) a"
    show "map_of a = map_of b"
    proof
      fix k
      show "map_of a k = map_of b k"
      proof (cases "map_of a k")
        case None
        with d show ?thesis by (metis domIff)
      next
        case (Some v)
        then obtain v' where b: "map_of b k = Some v'" using d by (metis domD domI)
        have "label_at b k = v" using all map_of_SomeD [OF Some] by (auto simp: list_all_iff)
        with b Some show ?thesis by (simp add: label_at_def)
      qed
    qed
  next
    assume "map_of a = map_of b"
    with assms(1) show "list_all (\<lambda>(k, v). label_at b k = v) a"
      by (auto simp: list_all_iff label_at_def) (metis map_of_is_SomeI option.simps(5))
  qed
  ultimately show ?thesis by (simp add: sameLabels_def)
qed

section \<open>Merging\<close>

fun merge_counter :: "labeled_value list \<Rightarrow> labels \<Rightarrow> float64 \<Rightarrow> labeled_value list" where
  "merge_counter [] ls v = [\<lparr>lv_labels = ls, lv_value = v\<rparr>]"
| "merge_counter (r # rs) ls v =
     (if sameLabels (lv_labels r) ls then r\<lparr>lv_value := f64_add (lv_value r) v\<rparr> # rs
      else r # merge_counter rs ls v)"

definition mergeCounters :: "labeled_value list \<Rightarrow> metric_family \<Rightarrow> labeled_value list" where
  "mergeCounters existing family =
     foldl (\<lambda>rows m. merge_counter rows (labelsOf m) (mt_value m)) existing (mf_metrics family)"

definition average_ms :: "float64 \<Rightarrow> 64 word \<Rightarrow> float64" where
  "average_ms sum_s c = f64_mult (f64_div sum_s (f64_of_count c)) (1000, 1)"

definition add_samples :: "latency_summary \<Rightarrow> 64 word \<Rightarrow> float64 \<Rightarrow> latency_summary" where
  "add_samples r c s =
     (let tot = f64_add (f64_mult (f64_div (la_avg_ms r) (1000, 1)) (f64_of_count (la_count r))) s;
          c' = la_count r + c
      in r\<lparr>la_count := c', la_avg_ms := (if 0 < c' then average_ms tot c' else la_avg_ms r)\<rparr>)"

fun merge_histogram ::
  "latency_summary list \<Rightarrow> labels \<Rightarrow> 64 word \<Rightarrow> float64 \<Rightarrow> latency_summary list" where
  "merge_histogram [] ls c s =
     (if 0 < c then [\<lparr>la_labels = ls, la_count = c, la_avg_ms = average_ms s c\<rparr>] else [])"
| "merge_histogram (r # rs) ls c s =
     (if sameLabels (la_labels r) ls then add_samples r c s # rs
      else r # merge_histogram rs ls c s)"

definition mergeHistograms :: "latency_summary list \<Rightarrow> metric_family \<Rightarrow> latency_summary list" where
  "mergeHistograms existing family =
     foldl (\<lambda>rows m. merge_histogram rows (labelsOf m) (mt_count m) (mt_sum m)) existing
       (mf_metrics family)"

section \<open>The summary\<close>

record metrics_summary =
  su_created :: "labeled_value list"
  su_delivered :: "labeled_value list"
  su_attempts :: "labeled_value list"
  su_delivery_latency :: "latency_summary list"
  su_http_latency :: "latency_summary list"
  su_lifetime :: "status_count list"
  su_sources :: "string list"

definition visit :: "metrics_summary \<Rightarrow> metric_family \<Rightarrow> metrics_summary" where
  "visit s family =
     (if mf_name family = ''notifications_created_total''
      then s\<lparr>su_created := mergeCounters (su_created s) family\<rparr>
      else if mf_name family = ''notifications_delivered_total''
      then s\<lparr>su_delivered := mergeCounters (su_delivered s) family\<rparr>
      else if mf_name family = ''delivery_attempts_total''
      then s\<lparr>su_attempts := mergeCounters (su_attempts s) family\<rparr>
      else if mf_name family = ''delivery_duration_seconds''
      then s\<lparr>su_delivery_latency := mergeHistograms (su_delivery_latency s) family\<rparr>
      else if mf_name family = ''http_request_duration_seconds''
      then s\<lparr>su_http_latency := mergeHistograms (su_http_latency s) family\<rparr>
      else s)"

definition accumulate :: "metrics_summary \<Rightarrow> metric_family list \<Rightarrow> metrics_summary" where
  "accumulate s families = foldl visit s families"

definition maxHTTPRows :: nat where "maxHTTPRows = 8"

definition sortSummary :: "edge \<Rightarrow> metrics_summary \<Rightarrow> metrics_summary" where
  "sortSummary e s =
     s\<lparr>su_created := sort_values e (su_created s),
       su_delivered := sort_values e (su_delivered s),
       su_attempts := sort_values e (su_attempts s),
       su_http_latency := take maxHTTPRows (sort_latency e (su_http_latency s))\<rparr>"

text \<open>What \<open>sort.Slice\<close> promises of the two sorts: \<open>fmt.Sprint\<close> of a map prints it by key.\<close>

fun join_space :: "string list \<Rightarrow> string" where
  "join_space [] = []"
| "join_space [s] = s"
| "join_space (s # ss) = s @ '' '' @ join_space ss"

definition label_text :: "labels \<Rightarrow> string" where
  "label_text ls = ''map['' @ join_space (map (\<lambda>(k, v). k @ '':'' @ v) (sort_key fst ls)) @ '']''"

definition sorts_documented :: "edge \<Rightarrow> bool" where
  "sorts_documented e \<longleftrightarrow>
     (\<forall>rows. mset (sort_values e rows) = mset rows \<and>
        sorted_wrt (\<lambda>a b. \<not> label_text (lv_labels b) < label_text (lv_labels a)) (sort_values e rows)) \<and>
     (\<forall>rows. mset (sort_latency e rows) = mset rows \<and>
        sorted_wrt (\<lambda>a b. \<not> la_count a < la_count b) (sort_latency e rows))"

section \<open>Fetching from the worker, with a cooldown\<close>

definition workerFetchCooldown :: duration where "workerFetchCooldown = 5 * second"

definition workerFetchAllowed :: "time \<Rightarrow> world \<Rightarrow> bool \<times> world" where
  "workerFetchAllowed lastFailure w =
     (if lastFailure = 0 then (True, w)
      else case Now w of (now, w1) \<Rightarrow> (now - lastFailure \<ge> workerFetchCooldown, w1))"

definition recordWorkerFetch :: "bool \<Rightarrow> world \<Rightarrow> time \<times> world" where
  "recordWorkerFetch failed w = (if failed then Now w else (0, w))"

definition fetchWorkerFamilies :: "edge \<Rightarrow> world \<Rightarrow> metric_family list option \<times> world" where
  "fetchWorkerFamilies e w = (worker_families e (steps w), w\<lparr>steps := Suc (steps w)\<rparr>)"

text \<open>The worker's part of the summary, and the handler's new \<open>lastWorkerFailure\<close>.\<close>

definition add_worker ::
  "edge \<Rightarrow> string \<Rightarrow> time \<Rightarrow> metrics_summary \<Rightarrow> world \<Rightarrow> metrics_summary \<times> time \<times> world" where
  "add_worker e workerURL lastFailure s w =
     (if workerURL = [] then (s, lastFailure, w)
      else case workerFetchAllowed lastFailure w of (allowed, w1) \<Rightarrow>
        if \<not> allowed then (s, lastFailure, w1)
        else case fetchWorkerFamilies e w1 of (families, w2) \<Rightarrow>
          case recordWorkerFetch (families = None) w2 of (lf, w3) \<Rightarrow>
            (case families of
               None \<Rightarrow> (s, lf, w3)
             | Some fs \<Rightarrow>
                 ((accumulate s fs)\<lparr>su_sources := su_sources s @ [''worker'']\<rparr>, lf, w3)))"

definition add_lifetime :: "bool \<Rightarrow> metrics_summary \<Rightarrow> world \<Rightarrow> metrics_summary \<times> world" where
  "add_lifetime lifetime s w =
     (if \<not> lifetime then (s, w)
      else case CountNotificationStatuses w of
        (Inl err, w1) \<Rightarrow> (s, w1)
      | (Inr counts, w1) \<Rightarrow>
          (s\<lparr>su_lifetime := su_lifetime s @ counts, su_sources := su_sources s @ [''database'']\<rparr>, w1))"

text \<open>The encoder prints a Go map by key.\<close>

definition labels_json :: "labels \<Rightarrow> json" where
  "labels_json ls = JObj (map (\<lambda>(k, v). (k, JStr v)) (sort_key fst ls))"

definition value_json :: "labeled_value \<Rightarrow> json" where
  "value_json r = JObj [(''labels'', labels_json (lv_labels r)), (''value'', JFloat (lv_value r))]"

definition latency_json :: "latency_summary \<Rightarrow> json" where
  "latency_json r =
     JObj [(''labels'', labels_json (la_labels r)), (''count'', JInt (uint (la_count r))),
           (''avg_ms'', JFloat (la_avg_ms r))]"

definition lifetime_json :: "status_count \<Rightarrow> json" where
  "lifetime_json c =
     JObj [(''channel'', JStr (sc_channel c)), (''status'', JStr (status_string (sc_status c))),
           (''count'', JInt (int (sc_count c)))]"

definition summary_json :: "metrics_summary \<Rightarrow> json" where
  "summary_json s =
     JObj [(''created'', json_slice value_json (su_created s)),
           (''delivered'', json_slice value_json (su_delivered s)),
           (''attempts'', json_slice value_json (su_attempts s)),
           (''delivery_latency'', json_slice latency_json (su_delivery_latency s)),
           (''http_latency'', json_slice latency_json (su_http_latency s)),
           (''lifetime'', json_slice lifetime_json (su_lifetime s)),
           (''sources'', json_slice JStr (su_sources s))]"

definition empty_summary :: metrics_summary where
  "empty_summary =
     \<lparr>su_created = [], su_delivered = [], su_attempts = [], su_delivery_latency = [],
      su_http_latency = [], su_lifetime = [], su_sources = [''api'']\<rparr>"

definition summary_serve ::
  "edge \<Rightarrow> bool \<Rightarrow> string \<Rightarrow> time \<Rightarrow> world \<Rightarrow> http_response \<times> time \<times> world" where
  "summary_serve e lifetime workerURL lastFailure w =
     (case gather e (metrics w) of
        Inl t \<Rightarrow> (writeErrorResponse 500 (Plain ''gather metrics: '' # t) [], lastFailure, w)
      | Inr families \<Rightarrow>
          (case add_worker e workerURL lastFailure (accumulate empty_summary families) w of
             (s1, lf, w1) \<Rightarrow>
               (case add_lifetime lifetime s1 w1 of
                  (s2, w2) \<Rightarrow> (writeJSONResponse 200 (summary_json (sortSummary e s2)), lf, w2))))"

end
