(* ===== verification/Logging.thy ===== *)
theory Logging
  imports Prelude
begin

text \<open>
  internal/observability (logger.go, ctxlog.go): the level of the service's logger and the
  correlation identifier that a context carries. Elsewhere a context is this identifier alone
  (\<open>ctx\<close>): nothing else of a context's values is read by the program. What is written to the
  log is output only, so a logger is its level and its attributes.
\<close>

section \<open>The logger (logger.go)\<close>

datatype slog_level = LevelDebug | LevelInfo | LevelWarn | LevelError

text \<open>The numbers of package slog.\<close>

primrec level_number :: "slog_level \<Rightarrow> int" where
  "level_number LevelDebug = -4"
| "level_number LevelInfo = 0"
| "level_number LevelWarn = 4"
| "level_number LevelError = 8"

record logger =
  lg_level :: slog_level
  lg_attrs :: "(string \<times> string) list"

definition NewLogger :: "string \<Rightarrow> logger" where
  "NewLogger level =
     \<lparr>lg_level =
        (if level = ''debug'' then LevelDebug
         else if level = ''warn'' then LevelWarn
         else if level = ''error'' then LevelError
         else LevelInfo),
      lg_attrs = []\<rparr>"

definition logs_at :: "logger \<Rightarrow> slog_level \<Rightarrow> bool" where
  "logs_at lg l \<longleftrightarrow> level_number (lg_level lg) \<le> level_number l"

section \<open>The correlation identifier (ctxlog.go)\<close>

text \<open>A context is the list of its values, the latest first; keys are compared by their names.\<close>

type_synonym go_context = "(string \<times> string) list"

definition correlationIDKey :: string where "correlationIDKey = ''correlation_id''"

definition WithCorrelationID :: "go_context \<Rightarrow> string \<Rightarrow> go_context" where
  "WithCorrelationID ctx correlationID = (correlationIDKey, correlationID) # ctx"

definition CorrelationIDFrom :: "go_context \<Rightarrow> string" where
  "CorrelationIDFrom ctx = (case map_of ctx correlationIDKey of None \<Rightarrow> [] | Some v \<Rightarrow> v)"

definition LoggerFrom :: "go_context \<Rightarrow> logger \<Rightarrow> logger" where
  "LoggerFrom ctx base =
     (let correlationID = CorrelationIDFrom ctx in
      if correlationID = [] then base
      else base\<lparr>lg_attrs := lg_attrs base @ [(''correlation_id'', correlationID)]\<rparr>)"

section \<open>What a reader of the log relies on\<close>

lemma latest_correlation_wins [simp]: "CorrelationIDFrom (WithCorrelationID ctx c) = c"
  by (simp add: CorrelationIDFrom_def WithCorrelationID_def)

lemma no_correlation: "CorrelationIDFrom [] = []" "LoggerFrom [] base = base"
  by (simp_all add: CorrelationIDFrom_def LoggerFrom_def)

text \<open>Every line of a request's or a message's flow carries its identifier, at the same levels.\<close>

lemma flow_is_joinable:
  assumes "c \<noteq> []"
  shows "(''correlation_id'', c) \<in> set (lg_attrs (LoggerFrom (WithCorrelationID ctx c) base))"
    and "logs_at (LoggerFrom (WithCorrelationID ctx c) base) l = logs_at base l"
  using assms by (simp_all add: LoggerFrom_def logs_at_def Let_def)

lemma errors_are_always_logged: "logs_at (NewLogger level) LevelError"
  by (simp add: logs_at_def NewLogger_def)

lemma unknown_level_is_info:
  "level \<notin> {''debug'', ''warn'', ''error''} \<Longrightarrow> logs_at (NewLogger level) l \<longleftrightarrow> l \<noteq> LevelDebug"
  by (cases l) (simp_all add: logs_at_def NewLogger_def)

end
