(* ===== verification/Router.thy ===== *)
theory Router
  imports ApiNotifications ApiControl Summary Config
begin

text \<open>
  internal/api/router.go and middleware.go: the routes that a configuration registers, the
  handler behind each of them, and the middleware chain around every request; and the two
  routers that cmd/notifier/main.go builds. The per-request timeout of the API group only cancels
  the context, which the database calls meet as refusals.
\<close>

section \<open>Routes (router.go)\<close>

datatype endpoint =
    Healthz | Readyz "(string \<times> check) list" | LiveStream | MetricsPage | SwaggerUI | OpenAPISpec
  | NotificationsCreate | NotificationsCreateBatch | NotificationsList | NotificationsGet
  | NotificationsCancel
  | TemplatesCreate | TemplatesList | TemplatesGet
  | QueueDepthsPage | WorkerGet | WorkerPut | ProviderGet | ProviderPut | ProviderMessages
  | MetricsSummary | Dashboard | ProviderReceive

record router_config =
  rc_notifications :: "service option"
  rc_templates :: bool
  rc_event_hub :: bool
  rc_metrics :: bool
  rc_metrics_handler :: bool
  rc_readiness :: "(string \<times> check) list option"
  rc_gatherer :: bool
  rc_lifetime :: bool
  rc_worker_url :: string
  rc_dashboard :: bool
  rc_default_provider :: string
  rc_max_batch_size :: int

type_synonym route = "string \<times> string \<times> endpoint"

definition ops_routes :: "router_config \<Rightarrow> route list" where
  "ops_routes cfg =
     [(''GET'', ''/healthz'', Healthz)] @
     (case rc_readiness cfg of None \<Rightarrow> [] | Some cs \<Rightarrow> [(''GET'', ''/readyz'', Readyz cs)]) @
     (if rc_event_hub cfg then [(''GET'', ''/ws'', LiveStream)] else []) @
     (if rc_metrics_handler cfg then [(''GET'', ''/metrics'', MetricsPage)] else []) @
     [(''GET'', ''/docs'', SwaggerUI), (''GET'', ''/api/v1/openapi.yaml'', OpenAPISpec)]"

definition api_routes :: "router_config \<Rightarrow> route list" where
  "api_routes cfg =
     [(''POST'', ''/api/v1/notifications'', NotificationsCreate),
      (''POST'', ''/api/v1/notifications/batch'', NotificationsCreateBatch),
      (''GET'', ''/api/v1/notifications'', NotificationsList),
      (''GET'', ''/api/v1/notifications/{id}'', NotificationsGet),
      (''POST'', ''/api/v1/notifications/{id}/cancel'', NotificationsCancel)] @
     (if rc_templates cfg then
        [(''POST'', ''/api/v1/templates'', TemplatesCreate),
         (''GET'', ''/api/v1/templates'', TemplatesList),
         (''GET'', ''/api/v1/templates/{name}'', TemplatesGet)] else []) @
     (if rc_dashboard cfg then
        [(''GET'', ''/api/v1/queues'', QueueDepthsPage),
         (''GET'', ''/api/v1/worker'', WorkerGet),
         (''PUT'', ''/api/v1/worker'', WorkerPut),
         (''GET'', ''/api/v1/provider'', ProviderGet),
         (''PUT'', ''/api/v1/provider'', ProviderPut),
         (''GET'', ''/api/v1/provider/messages'', ProviderMessages)] @
        (if rc_gatherer cfg then [(''GET'', ''/api/v1/metrics/summary'', MetricsSummary)] else [])
      else [])"

definition dashboard_routes :: "router_config \<Rightarrow> route list" where
  "dashboard_routes cfg =
     (if rc_dashboard cfg then
        [(''GET'', ''/dashboard'', Dashboard), (''POST'', ''/provider/messages'', ProviderReceive)]
      else [])"

definition NewRouter :: "router_config \<Rightarrow> route list" where
  "NewRouter cfg =
     ops_routes cfg @
     (if rc_notifications cfg = None then [] else api_routes cfg @ dashboard_routes cfg)"

section \<open>Handlers\<close>

text \<open>What the process keeps between requests, besides the world.\<close>

record api =
  ap_store :: store
  ap_worker_failure :: time

text \<open>No fetch from the worker has failed yet, and the inbox is empty.\<close>

definition newMetricsSummaryHandler :: time where "newMetricsSummaryHandler = 0"

definition new_api :: api where
  "new_api = \<lparr>ap_store = NewStore, ap_worker_failure = newMetricsSummaryHandler\<rparr>"

definition notification_handler_of :: "router_config \<Rightarrow> service \<Rightarrow> notification_handler" where
  "notification_handler_of cfg sv =
     \<lparr>nh_service = sv, nh_max_batch_size =
        (if rc_max_batch_size cfg < 1 then MaxBatchSize else rc_max_batch_size cfg)\<rparr>"

definition serve_page :: "http_response \<times> world \<Rightarrow> api \<Rightarrow> outcome \<times> api \<times> world" where
  "serve_page r a = (case r of (resp, w) \<Rightarrow> (Served resp, a, w))"

definition foreign :: "edge \<Rightarrow> string \<Rightarrow> api \<Rightarrow> world \<Rightarrow> outcome \<times> api \<times> world" where
  "foreign e name a w = (foreign_page e name (steps w), a, w\<lparr>steps := Suc (steps w)\<rparr>)"

definition handleHealthz :: http_response where
  "handleHealthz = \<lparr>hs_status = 200, hs_body = NoBody\<rparr>"

fun handle ::
  "router_config \<Rightarrow> service \<Rightarrow> edge \<Rightarrow> endpoint \<Rightarrow> ctx \<Rightarrow> http_request \<Rightarrow> api \<Rightarrow> world \<Rightarrow>
   outcome \<times> api \<times> world" where
  "handle cfg sv e Healthz ctx req a w = (Served handleHealthz, a, w)"
| "handle cfg sv e (Readyz checks) ctx req a w = serve_page (handleReadyz checks req w) a"
| "handle cfg sv e LiveStream ctx req a w = foreign e ''ws'' a w"
| "handle cfg sv e MetricsPage ctx req a w = foreign e ''metrics'' a w"
| "handle cfg sv e SwaggerUI ctx req a w = (Served handleSwaggerUI, a, w)"
| "handle cfg sv e OpenAPISpec ctx req a w = (Served (handleOpenAPISpec e), a, w)"
| "handle cfg sv e Dashboard ctx req a w = (Served (handleDashboard e), a, w)"
| "handle cfg sv e NotificationsCreate ctx req a w =
     serve_page (notifications_create (notification_handler_of cfg sv) e ctx req w) a"
| "handle cfg sv e NotificationsCreateBatch ctx req a w =
     serve_page (notifications_createBatch (notification_handler_of cfg sv) e ctx req w) a"
| "handle cfg sv e NotificationsList ctx req a w =
     serve_page (notifications_list (notification_handler_of cfg sv) e req w) a"
| "handle cfg sv e NotificationsGet ctx req a w =
     serve_page (notifications_get (notification_handler_of cfg sv) e req w) a"
| "handle cfg sv e NotificationsCancel ctx req a w =
     serve_page (notifications_cancel (notification_handler_of cfg sv) e req w) a"
| "handle cfg sv e TemplatesCreate ctx req a w = serve_page (templates_create e req w) a"
| "handle cfg sv e TemplatesList ctx req a w = serve_page (templates_list w) a"
| "handle cfg sv e TemplatesGet ctx req a w = serve_page (templates_get req w) a"
| "handle cfg sv e QueueDepthsPage ctx req a w = serve_page (getQueueDepths e w) a"
| "handle cfg sv e WorkerGet ctx req a w = serve_page (getWorkerState w) a"
| "handle cfg sv e WorkerPut ctx req a w = serve_page (setWorkerState e req w) a"
| "handle cfg sv e ProviderGet ctx req a w = serve_page (getProvider (rc_default_provider cfg) w) a"
| "handle cfg sv e ProviderPut ctx req a w = serve_page (setProvider (rc_default_provider cfg) e req w) a"
| "handle cfg sv e ProviderMessages ctx req a w = (Served (getProviderMessages (ap_store a)), a, w)"
| "handle cfg sv e MetricsSummary ctx req a w =
     (case summary_serve e (rc_lifetime cfg) (rc_worker_url cfg) (ap_worker_failure a) w of
        (resp, lf, w1) \<Rightarrow> (Served resp, a\<lparr>ap_worker_failure := lf\<rparr>, w1))"
| "handle cfg sv e ProviderReceive ctx req a w =
     (case store_Receive e req (ap_store a) w of
        (resp, s, w1) \<Rightarrow> (Served resp, a\<lparr>ap_store := s\<rparr>, w1))"

section \<open>Middleware (middleware.go)\<close>

text \<open>
  The innermost handler is chi's dispatch. It also gives the route pattern, which chi writes
  into the request's routing context for the metrics.
\<close>

definition dispatch ::
  "router_config \<Rightarrow> edge \<Rightarrow> ctx \<Rightarrow> http_request \<Rightarrow> api \<Rightarrow> world \<Rightarrow> outcome \<times> api \<times> world" where
  "dispatch cfg e ctx req a w =
     (let table = NewRouter cfg;
          m = chi e (map (\<lambda>r. (fst r, fst (snd r))) table) (hr_method req) (hr_path req);
          sv = (case rc_notifications cfg of
                  Some sv \<Rightarrow> sv | None \<Rightarrow> \<lparr>sv_has_templates = False, sv_instrumented = False\<rparr>)
      in case cm_route m of
           Some k \<Rightarrow>
             if k < length table
             then handle cfg sv e (snd (snd (table ! k))) ctx (req\<lparr>hr_param := cm_param m\<rparr>) a w
             else (Served (cm_reply m), a, w)
         | None \<Rightarrow> (Served (cm_reply m), a, w))"

definition route_pattern :: "router_config \<Rightarrow> edge \<Rightarrow> http_request \<Rightarrow> string" where
  "route_pattern cfg e req =
     (let p = cm_pattern (chi e (map (\<lambda>r. (fst r, fst (snd r))) (NewRouter cfg)) (hr_method req)
                (hr_path req))
      in if p = [] then ''unmatched'' else p)"

definition recoverPanic :: "outcome \<times> api \<times> world \<Rightarrow> outcome \<times> api \<times> world" where
  "recoverPanic r =
     (case r of
        (Panicked abort, a, w) \<Rightarrow>
          if abort then r
          else (Served \<lparr>hs_status = 500, hs_body = TextBody ''Internal Server Error''\<rparr>, a, w)
      | _ \<Rightarrow> r)"

text \<open>The log line itself is not modelled; the logger reads the clock before and after.\<close>

definition requestLogger ::
  "(world \<Rightarrow> outcome \<times> api \<times> world) \<Rightarrow> world \<Rightarrow> outcome \<times> api \<times> world" where
  "requestLogger inner w =
     (case Now w of (started, w1) \<Rightarrow>
      case inner w1 of
        (Served resp, a, w2) \<Rightarrow> (Served resp, a, snd (Now w2))
      | (Panicked abort, a, w2) \<Rightarrow> (Panicked abort, a, w2))"

definition written_status :: "http_response \<Rightarrow> int" where
  "written_status resp = (if hs_status resp = 0 then 200 else hs_status resp)"

definition httpMetrics ::
  "string \<Rightarrow> string \<Rightarrow> (world \<Rightarrow> outcome \<times> api \<times> world) \<Rightarrow> world \<Rightarrow> outcome \<times> api \<times> world" where
  "httpMetrics rt meth inner w =
     (case Now w of (started, w1) \<Rightarrow>
      case inner w1 of
        (Served resp, a, w2) \<Rightarrow>
          (case Now w2 of (now, w3) \<Rightarrow>
             (Served resp, a, w3\<lparr>metrics :=
                ObserveHTTPRequest rt meth (written_status resp) (now - started) (metrics w3)\<rparr>))
      | (Panicked abort, a, w2) \<Rightarrow> (Panicked abort, a, w2))"

definition correlationID :: "http_request \<Rightarrow> world \<Rightarrow> string \<times> world" where
  "correlationID req w =
     (if hr_request_id req \<noteq> [] then (hr_request_id req, w)
      else case uuid_New w of (i, w1) \<Rightarrow> (uuid_text w i, w1))"

text \<open>One request: the identifier that is echoed, and what the chain makes of the request.\<close>

definition ServeHTTP ::
  "router_config \<Rightarrow> edge \<Rightarrow> http_request \<Rightarrow> api \<Rightarrow> world \<Rightarrow> string \<times> outcome \<times> api \<times> world" where
  "ServeHTTP cfg e req a w =
     (case correlationID req w of (requestID, w1) \<Rightarrow>
      let inner = requestLogger (\<lambda>w. recoverPanic (dispatch cfg e requestID req a w)) in
      (requestID,
       if rc_metrics cfg then httpMetrics (route_pattern cfg e req) (hr_method req) inner w1
       else inner w1))"

section \<open>The routers of the process (cmd/notifier/main.go)\<close>

definition readiness :: "edge \<Rightarrow> (string \<times> check) list" where
  "readiness e = [(''postgres'', ping_postgres), (''rabbitmq'', check_rabbit e)]"

definition main_router :: "config \<Rightarrow> edge \<Rightarrow> router_config" where
  "main_router c e =
     \<lparr>rc_notifications = Some (NewNotificationService True True),
      rc_templates = True, rc_event_hub = True, rc_metrics = True, rc_metrics_handler = True,
      rc_readiness = Some (readiness e), rc_gatherer = True, rc_lifetime = True,
      rc_worker_url = cf_worker_metrics_url c, rc_dashboard = cf_dashboard_enabled c,
      rc_default_provider = cf_provider_url c, rc_max_batch_size = cf_max_batch_size c\<rparr>"

definition main_ops_router :: "edge \<Rightarrow> router_config" where
  "main_ops_router e =
     \<lparr>rc_notifications = None, rc_templates = False, rc_event_hub = False, rc_metrics = True,
      rc_metrics_handler = True, rc_readiness = Some (readiness e), rc_gatherer = False,
      rc_lifetime = False, rc_worker_url = [], rc_dashboard = False, rc_default_provider = [],
      rc_max_batch_size = 0\<rparr>"

end
