(* ===== verification/ServiceFacts.thy ===== *)
theory ServiceFacts
  imports Service
begin

text \<open>
  What the notification service promises: legal moves only, an accepted creation is in the
  table, the same idempotency key always answers with the same notification, cancelling is final.
\<close>

lemma quiet_frame:
  "quiet w w' \<Longrightarrow> db w' = db w \<and> published w' = published w \<and> requests w' = requests w \<and>
     metrics w' = metrics w \<and> world_le w w'"
  by (simp add: quietD)

section \<open>Resolving content\<close>

lemma resolver_render_quiet: "resolver_render rs ref ch w = (r, rs', w') \<Longrightarrow> quiet w w'"
  by (auto simp: resolver_render_def resolver_load_def split: method_splits dest: reads_quiet(9))

lemma resolveContent_quiet: "resolveContent sv rs inp w = (r, rs', w') \<Longrightarrow> quiet w w'"
  by (auto simp: resolveContent_def split: method_splits dest: resolver_render_quiet)

text \<open>Every way to fail is reported as the client's error, an unreachable database included.\<close>

lemma resolver_render_Inl:
  "resolver_render rs ref ch w = (Inl e, rs', w') \<Longrightarrow> \<exists>f m. e = invalid f m"
  by (auto simp: resolver_render_def resolver_load_def resolver_compile_def split: method_splits)

lemma resolveContent_Inl:
  "resolveContent sv rs inp w = (Inl e, rs', w') \<Longrightarrow> \<exists>f m. e = invalid f m"
  by (auto simp: resolveContent_def split: method_splits dest: resolver_render_Inl)

text \<open>
  A cache that agrees with the table: what it holds under a name is the template of that name,
  and what is compiled is its body.
\<close>

definition resolver_ok :: "database \<Rightarrow> resolver \<Rightarrow> bool" where
  "resolver_ok d rs \<longleftrightarrow>
     (\<forall>n tm. rs_templates rs n = Some tm \<longrightarrow> find_by t_name n (templates d) = Some tm) \<and>
     (\<forall>n c. rs_compiled rs n = Some c \<longrightarrow>
        map_option t_body (find_by t_name n (templates d)) = Some c)"

lemma resolver_ok_compiled:
  "resolver_ok d rs \<Longrightarrow> rs_compiled rs n = Some c \<Longrightarrow> find_by t_name n (templates d) = Some tm \<Longrightarrow>
   c = t_body tm"
  by (fastforce simp: resolver_ok_def)

lemma resolver_ok_compile:
  "resolver_ok d rs \<Longrightarrow> find_by t_name n (templates d) = Some tm \<Longrightarrow>
   resolver_ok d (rs\<lparr>rs_compiled := (rs_compiled rs)(n \<mapsto> t_body tm)\<rparr>)"
  by (simp add: resolver_ok_def)

lemma new_resolver_ok [simp]: "resolver_ok d newTemplateResolver"
  by (simp add: resolver_ok_def newTemplateResolver_def)

lemma GetTemplateByName_Inr:
  "GetTemplateByName n w = (Inr tm, w') \<Longrightarrow> find_by t_name n (templates (db w)) = Some tm"
  by (auto simp: GetTemplateByName_def sql_select_template_def split: method_splits
      dest!: db_call_Inr)

lemma resolver_load_Inr:
  assumes "resolver_load rs n w = (Inr tm, rs', w')" "resolver_ok (db w) rs"
  shows "find_by t_name n (templates (db w)) = Some tm \<and> resolver_ok (db w) rs' \<and>
    rs_compiled rs' = rs_compiled rs"
  using assms
  by (auto simp: resolver_load_def resolver_ok_def split: method_splits dest!: GetTemplateByName_Inr)

lemma quiet_templates:
  "quiet w w' \<Longrightarrow> tmpl_parse w' = tmpl_parse w \<and> tmpl_execute w' = tmpl_execute w"
  by (auto simp: quiet_def)

text \<open>
  Rendering through the cache gives what fetching and rendering afresh gives: the stored body of
  the template of that name and channel, with the reference's variables.
\<close>

lemma resolver_render_Inr:
  assumes "resolver_render rs ref ch w = (Inr s, rs', w')" "resolver_ok (db w) rs"
  shows "\<exists>tm. find_by t_name (tr_name ref) (templates (db w)) = Some tm \<and> t_channel tm = ch \<and>
    tmpl_execute w (t_body tm) (tr_vars ref) = Inr s \<and> resolver_ok (db w) rs'"
proof -
  obtain tm rs1 w1 where l: "resolver_load rs (tr_name ref) w = (Inr tm, rs1, w1)"
    using assms(1) by (auto simp: resolver_render_def split: method_splits)
  note l' = resolver_load_Inr [OF l assms(2)]
  have q: "quiet w w1"
    using l by (auto simp: resolver_load_def split: method_splits dest: reads_quiet(9))
  obtain c where c: "resolver_compile rs1 (tr_name ref) tm w1 = (Inr c, rs')"
    "t_channel tm = ch" "Parsed_Render w1 c (tr_vars ref) = Inr s"
    using assms(1) l by (auto simp: resolver_render_def split: method_splits)
  have "c = t_body tm \<and> resolver_ok (db w) rs'"
    using c(1) l' resolver_ok_compiled [of "db w" rs1] resolver_ok_compile [of "db w" rs1]
    by (auto simp: resolver_compile_def template_Parse_def split: method_splits)
  then show ?thesis
    using l' c quiet_templates [OF q] by (auto simp: Parsed_Render_def split: sum.splits)
qed

section \<open>Creating\<close>

lemma newNotification_quiet: "newNotification inp b now bt w = (n, w') \<Longrightarrow> quiet w w'"
  by (auto simp: newNotification_def split: prod.splits dest: uuid_New_quiet)

lemma newNotification_fields:
  assumes "newNotification inp b now bt w = (n, w')"
  shows "fresh_status n" "idempotency_key n = ci_idempotency_key inp" "content n = b"
    "recipient n = ci_recipient inp" "channel n = ci_channel inp" "batch_id n = bt"
    "scheduled_at n = ci_scheduled_at inp"
    "status n = (if ci_scheduled_at inp = None then StatusPending else StatusScheduled)"
    "inserted n = in_columns n"
proof -
  obtain i w1 where "uuid_New w = (i, w1)" by fastforce
  note n = assms [unfolded newNotification_def this prod.case prod.inject, THEN conjunct1, symmetric]
  show "fresh_status n" "idempotency_key n = ci_idempotency_key inp" "content n = b"
    "recipient n = ci_recipient inp" "channel n = ci_channel inp" "batch_id n = bt"
    "scheduled_at n = ci_scheduled_at inp"
    "status n = (if ci_scheduled_at inp = None then StatusPending else StatusScheduled)"
    "inserted n = in_columns n"
    by (simp_all add: n fresh_status_def inserted_def in_columns_def)
qed

lemma Create_Inr:
  assumes "Create n w = (Inr (), w')"
  shows "\<exists>rows. insert_row n (notifications (db w)) = Inr rows \<and>
    db w' = (db w)\<lparr>notifications := rows\<rparr>"
  using assms
  by (auto simp: Create_def sql_insert_def split: method_splits dest!: db_call_Inr)

lemma Create_duplicate:
  assumes "Create n w = (Inl e, w')" "cause e = ErrDuplicateIdempotencyKey"
  shows "db w' = db w \<and> published w' = published w \<and> requests w' = requests w"
proof -
  obtain e1 where c: "db_call (sql_insert n) w = (Inl e1, w')"
    using assms(1) by (auto simp: Create_def split: method_splits)
  then have "cause e1 = e1"
    by (auto simp: sql_insert_def insert_row_def split: method_splits elim!: db_call_cases)
  with assms c have "isIdempotencyKeyViolation e1"
    by (auto simp: Create_def split: method_splits) (auto simp: sql_insert_def insert_row_def
      split: method_splits elim!: db_call_cases)
  with c have "db w' = db w"
    by (auto simp: isIdempotencyKeyViolation_def sql_insert_def split: method_splits
        elim!: db_call_cases)
  with db_call_quiet [OF c] show ?thesis by simp
qed

lemma Create_frame:
  "Create n w = (r, w') \<Longrightarrow> published w' = published w \<and> requests w' = requests w"
  by (auto simp: Create_def split: method_splits dest: db_call_quiet)

lemma recordCreated_frame [simp]:
  "db (recordCreated sv n w) = db w" "published (recordCreated sv n w) = published w"
  "requests (recordCreated sv n w) = requests w" "world_le w (recordCreated sv n w)"
  by (simp_all add: recordCreated_def world_le_same)

lemma Service_emitEvent_frame [simp]:
  "db (Service_emitEvent n s w) = db w" "requests (Service_emitEvent n s w) = requests w"
  "world_le w (Service_emitEvent n s w)"
  by (auto simp: Service_emitEvent_def Now_def PublishEvent_effect [OF surjective_pairing]
      intro: world_le_trans [OF world_le_update(1) PublishEvent_effect(4) [OF surjective_pairing]])

lemma publishForDelivery_le: "publishForDelivery ctx n w = (n', w') \<Longrightarrow> world_le w w'"
  by (auto simp: publishForDelivery_def Let_def split: method_splits
      dest!: PublishCreated_effect(4) UpdateStatus_queued_le intro: world_le_trans
        world_le_trans [OF _ Service_emitEvent_frame(3)])

lemma Service_Create_le:
  assumes "Service_Create sv ctx inp w = (r, w')"
  shows "world_le w w'"
proof -
  obtain now w1 where n: "Now w = (now, w1)" by fastforce
  obtain x rs w2 where rc: "resolveContent sv newTemplateResolver inp w1 = (x, rs, w2)"
    by (cases "resolveContent sv newTemplateResolver inp w1") auto
  have le2: "world_le w w2"
    using Now_le [OF n] quietD(5) [OF resolveContent_quiet [OF rc]] by (rule world_le_trans)
  show ?thesis
  proof (cases x)
    case (Inl e)
    with assms n rc le2 show ?thesis by (simp add: Service_Create_def)
  next
    case (Inr b)
    obtain m w3 where nn: "newNotification inp b now None w2 = (m, w3)" by fastforce
    obtain y w4 where cr: "Create m w3 = (y, w4)" by fastforce
    have le3: "world_le w w3"
      using le2 quietD(5) [OF newNotification_quiet [OF nn]] by (rule world_le_trans)
    have le4: "world_le w w4"
      using le3 Create_le [OF newNotification_fields(1) [OF nn] cr] by (rule world_le_trans)
    from assms n rc Inr nn cr have "w' = w3 \<or> world_le w4 w'"
      by (auto simp: Service_Create_def Let_def split: method_splits bool.splits
          dest!: GetByIdempotencyKey_le publishForDelivery_le
          intro: world_le_trans [OF recordCreated_frame(4)])
    with le3 le4 show ?thesis by (auto intro: world_le_trans)
  qed
qed

section \<open>What an answer means\<close>

lemma find_row_insert:
  assumes "insert_row n (notifications d) = Inr rows"
  shows "find_row (nid n) (d\<lparr>notifications := rows\<rparr>) = Some (inserted n)"
proof -
  have "rows = notifications d @ [inserted n]" "nid n \<notin> nid ` set (notifications d)"
    using assms by (auto simp: insert_row_Inr)
  then show ?thesis by (simp add: find_row_def find_by_append find_by_None_iff' [THEN iffD2])
qed

text \<open>Handing over: the returned status is queued only when the row is.\<close>

lemma UpdateStatus_Inr:
  assumes "db_ok (db w)" "UpdateStatus i to src w = (Inr (), w')"
  shows "\<exists>r t. find_row i (db w) = Some r \<and> status r \<in> set src \<and>
    find_row i (db w') = Some (r\<lparr>status := to, updated_at := t\<rparr>)"
proof -
  from assms(2) obtain k where c: "db_call (sql_update_status i to (map status_string src)) w =
      (Inr k, w')" and k: "k \<noteq> 0"
    by (auto simp: UpdateStatus_def split: method_splits)
  from sql_update_status_counted [OF assms(1) db_call_Inr [OF c]] k show ?thesis
    by (auto simp: counted_def)
qed

lemma UpdateStatus_refused:
  assumes "db_ok (db w)" "UpdateStatus i to src w = (Inl e, w')"
    and "cause e \<in> {ErrNotFound, ErrInvalidTransition}"
  shows "db w' = db w \<and> (\<forall>r. find_row i (db w) = Some r \<longrightarrow> status r \<notin> set src) \<and>
    (cause e = ErrNotFound \<longrightarrow> find_row i (db w) = None)"
proof -
  obtain x w1 where c: "db_call (sql_update_status i to (map status_string src)) w = (x, w1)"
    by fastforce
  show ?thesis
  proof (cases x)
    case (Inl e1)
    with c have "\<exists>k. e1 = Opaque ''database'' k"
      by (auto simp: sql_update_status_def Let_def split: prod.splits elim!: db_call_cases)
    with Inl c assms(2,3) show ?thesis by (auto simp: UpdateStatus_def)
  next
    case (Inr k)
    with c assms(2) have k: "k = 0" by (auto simp: UpdateStatus_def split: if_splits)
    from sql_update_status_counted [OF assms(1) db_call_Inr [OF c [unfolded Inr]]] k
    have d: "db w1 = db w" "\<forall>r. find_row i (db w) = Some r \<longrightarrow> status r \<notin> set src"
      by (auto simp: counted_def)
    with c Inr k assms(2,3) show ?thesis
      by (auto simp: UpdateStatus_def split: method_splits dest: GetByID_db GetByID_NotFound)
  qed
qed

lemma publishForDelivery_spec:
  assumes ok: "db_ok (db w)" and p: "publishForDelivery ctx n w = (n', w')"
  shows "n' = n \<or> (n' = n\<lparr>status := StatusQueued\<rparr> \<and>
    created_publication ctx n \<in> set (published w') \<and>
    (\<exists>r t. find_row (nid n) (db w) = Some r \<and>
       find_row (nid n) (db w') = Some (r\<lparr>status := StatusQueued, updated_at := t\<rparr>)))"
proof -
  obtain x w1 where c: "PublishCreated ctx n w = (x, w1)" by fastforce
  obtain y w2 where u: "UpdateStatus (nid n) StatusQueued [StatusPending] w1 = (y, w2)" by fastforce
  note d1 = PublishCreated_effect(1) [OF c]
  show ?thesis
  proof (cases "x = Inr () \<and> y = Inr ()")
    case True
    with c u p have eq: "n' = n\<lparr>status := StatusQueued\<rparr>"
      "w' = Service_emitEvent n' StatusQueued w2"
      by (auto simp: publishForDelivery_def Let_def)
    have "created_publication ctx n \<in> set (published w1)"
      using PublishCreated_effect(5) [OF c] True by (simp add: created_publication_def)
    then have "created_publication ctx n \<in> set (published w2)"
      using UpdateStatus_queued_le [OF u] by (auto simp: world_le_def)
    then have pub: "created_publication ctx n \<in> set (published w')"
      using eq(2) Service_emitEvent_frame(3) [of w2 n' StatusQueued] by (auto simp: world_le_def)
    from ok d1 have "db_ok (db w1)" by simp
    from UpdateStatus_Inr [OF this] u True obtain r t where
      "find_row (nid n) (db w1) = Some r"
      "find_row (nid n) (db w2) = Some (r\<lparr>status := StatusQueued, updated_at := t\<rparr>)"
      by blast
    with eq pub d1 show ?thesis by auto
  next
    case False
    have "n' = n"
    proof (cases x)
      case (Inl e)
      with c p show ?thesis by (simp add: publishForDelivery_def)
    next
      case (Inr z)
      with False c u p show ?thesis
        by (cases y) (simp_all add: publishForDelivery_def)
    qed
    then show ?thesis by (rule disjI1)
  qed
qed

lemma publishForDelivery_fields:
  assumes "publishForDelivery ctx n w = (n', w')"
  shows "idempotency_key n' = idempotency_key n" "nid n' = nid n"
  using assms by (simp_all add: publishForDelivery_def Let_def split: method_splits)
    (auto split: method_splits)

text \<open>
  The answer of a creation, as one case analysis: a replay changes nothing and returns a row
  with the key; a new notification is valid and its row is in the table.
\<close>

lemma Service_Create_cases:
  assumes c: "Service_Create sv ctx inp w = (Inr res, w')"
  obtains
    (replayed) key where "cr_replayed res" "ci_idempotency_key inp = Some key"
      "cr_notification res \<in> set (notifications (db w))"
      "idempotency_key (cr_notification res) = Some key" "db w' = db w" "published w' = published w"
  | (created) n now w3 w4 rows where "\<not> cr_replayed res"
      "quiet w w3" "ValidateNew n now = None" "fresh_status n" "inserted n = in_columns n"
      "idempotency_key n = ci_idempotency_key inp"
      "scheduled_at n = ci_scheduled_at inp"
      "status n = (if ci_scheduled_at inp = None then StatusPending else StatusScheduled)"
      "Create n w3 = (Inr (), w4)"
      "insert_row n (notifications (db w)) = Inr rows" "db w4 = (db w)\<lparr>notifications := rows\<rparr>"
      "if status n = StatusPending
       then publishForDelivery ctx n (recordCreated sv n w4) = (cr_notification res, w')
       else cr_notification res = n \<and> w' = recordCreated sv n w4"
      "channel n = ci_channel inp" "recipient n = ci_recipient inp"
proof -
  obtain now w1 where n: "Now w = (now, w1)" by fastforce
  obtain x rs w2 where rc: "resolveContent sv newTemplateResolver inp w1 = (x, rs, w2)"
    by (cases "resolveContent sv newTemplateResolver inp w1") auto
  from c n rc obtain b where b: "x = Inr b" by (cases x) (auto simp: Service_Create_def)
  obtain m w3 where nn: "newNotification inp b now None w2 = (m, w3)" by fastforce
  obtain y w4 where cr: "Create m w3 = (y, w4)" by fastforce
  have q: "quiet w w3"
    using Now_quiet [OF n] resolveContent_quiet [OF rc] newNotification_quiet [OF nn]
    by (blast intro: quiet_trans)
  note f = newNotification_fields [OF nn]
  from c n rc b nn have v: "ValidateNew m now = None"
    by (auto simp: Service_Create_def split: option.splits)
  show thesis
  proof (cases y)
    case (Inl e)
    with c n rc b nn cr v obtain key ex where
      k: "cause e = ErrDuplicateIdempotencyKey" "ci_idempotency_key inp = Some key"
      "GetByIdempotencyKey key w4 = (Inr ex, w')"
      "res = \<lparr>cr_notification = ex, cr_replayed = True\<rparr>"
      by (auto simp: Service_Create_def split: method_splits bool.splits)
    note d4 = Create_duplicate [OF cr [unfolded Inl] k(1)]
    from GetByIdempotencyKey_Inr [OF k(3)] reads_quiet(2) [OF k(3), THEN quietD(2)] k d4
      quietD [OF q] show thesis
      by (intro replayed [of key]) auto
  next
    case (Inr u)
    then have cr': "Create m w3 = (Inr (), w4)" using cr by simp
    from Create_Inr [OF this] quietD(1) [OF q] obtain rows where
      rows: "insert_row m (notifications (db w)) = Inr rows"
      "db w4 = (db w)\<lparr>notifications := rows\<rparr>" by auto
    have "\<not> cr_replayed res \<and> (if status m = StatusPending
       then publishForDelivery ctx m (recordCreated sv m w4) = (cr_notification res, w')
       else cr_notification res = m \<and> w' = recordCreated sv m w4)"
      using c n rc b nn cr' v
      by (auto simp: Service_Create_def Let_def split: prod.splits if_splits)
    then show thesis
      using q v f cr' rows by (intro created [of w3 m now w4 rows]) auto
  qed
qed

text \<open>An answered creation leaves its notification in the table, under the same identity.\<close>

lemma Service_Create_stored:
  assumes ok: "db_ok (db w)" and c: "Service_Create sv ctx inp w = (Inr res, w')"
  shows "\<exists>row. find_row (nid (cr_notification res)) (db w') = Some row \<and>
    same_notification (cr_notification res) row \<and>
    (status (cr_notification res) = StatusQueued \<longrightarrow> \<not> cr_replayed res \<longrightarrow>
       status row = StatusQueued \<and> created_publication ctx
         ((cr_notification res)\<lparr>status := StatusPending\<rparr>) \<in> set (published w'))"
  using c
proof (cases rule: Service_Create_cases)
  case (replayed key)
  then have "find_row (nid (cr_notification res)) (db w') = Some (cr_notification res)"
    using find_row_iff [OF ok] by simp
  with replayed show ?thesis by simp
next
  case (created n now w3 w4 rows)
  have ok4: "db_ok (db w4)"
    using Create_le [OF created(4,9)] quietD(1) [OF created(2)] ok
    by (auto dest: world_le_db_ok)
  have row4: "find_row (nid n) (db w4) = Some (in_columns n)"
    using find_row_insert [OF created(10)] created(5,11) by simp
  show ?thesis
  proof (cases "status n = StatusPending")
    case False
    with created(4,12) have "cr_notification res = n" "db w' = db w4" by auto
    with row4 False created(4) show ?thesis by (auto simp: fresh_status_def stored_notification)
  next
    case True
    with created(12) have p: "publishForDelivery ctx n (recordCreated sv n w4) =
        (cr_notification res, w')" by simp
    have le: "world_le w4 w'"
      using recordCreated_frame(4) publishForDelivery_le [OF p] by (rule world_le_trans)
    from world_le_evolves [OF le ok4] row4 obtain row where
      row: "find_row (nid n) (db w') = Some row" "row_evolves (in_columns n) row"
      by (auto simp: db_evolves_def)
    have si: "same_notification n row" using stored_notification [OF row_evolves_identity [OF row(2)]] .
    from publishForDelivery_spec [OF _ p] ok4 row4 have
      "cr_notification res = n \<or> cr_notification res = n\<lparr>status := StatusQueued\<rparr> \<and>
       created_publication ctx n \<in> set (published w') \<and>
       (\<exists>t. find_row (nid n) (db w') = Some ((in_columns n)\<lparr>status := StatusQueued, updated_at := t\<rparr>))"
      by auto
    then show ?thesis
    proof (elim disjE conjE exE)
      assume "cr_notification res = n"
      with row(1) si True show ?thesis by simp
    next
      fix t
      assume q: "cr_notification res = n\<lparr>status := StatusQueued\<rparr>"
        "created_publication ctx n \<in> set (published w')"
        "find_row (nid n) (db w') = Some ((in_columns n)\<lparr>status := StatusQueued, updated_at := t\<rparr>)"
      have "n\<lparr>status := StatusQueued, status := StatusPending\<rparr> = n" using True by (cases n) simp
      moreover have "same_notification (n\<lparr>status := StatusQueued\<rparr>)
          ((in_columns n)\<lparr>status := StatusQueued, updated_at := t\<rparr>)"
        by (rule stored_notification) (simp add: same_identity_def)
      ultimately show ?thesis using q by simp
    qed
  qed
qed

text \<open>
  The same key always answers with the same notification: whatever happens between two
  creations with one key, and whatever the second one asks for, it is a replay of the first.
\<close>

lemma key_unique:
  assumes "db_ok d" "a \<in> set (notifications d)" "b \<in> set (notifications d)"
    and "idempotency_key a = Some k" "idempotency_key b = Some k"
  shows "a = b"
proof -
  have u: "distinct (List.map_filter idempotency_key xs) \<Longrightarrow> a \<in> set xs \<Longrightarrow> b \<in> set xs \<Longrightarrow> a = b"
    for xs
    using assms(4,5)
    by (induction xs) (auto simp: List.map_filter_simps set_map_filter image_iff
        split: option.splits)
  from assms(1) have "distinct (List.map_filter idempotency_key (notifications d))"
    by (simp add: db_ok_def)
  from u [OF this assms(2,3)] show ?thesis .
qed

lemma Service_Create_idempotent:
  assumes ok: "db_ok (db w)"
    and c1: "Service_Create sv1 ctx1 inp1 w = (Inr res1, w1)"
    and k1: "ci_idempotency_key inp1 = Some key"
    and le: "world_le w1 w2"
    and c2: "Service_Create sv2 ctx2 inp2 w2 = (Inr res2, w3)"
    and k2: "ci_idempotency_key inp2 = Some key"
  shows "cr_replayed res2 \<and> same_notification (cr_notification res1) (cr_notification res2) \<and>
    db w3 = db w2 \<and> published w3 = published w2"
proof -
  have ok1: "db_ok (db w1)" using world_le_db_ok [OF Service_Create_le [OF c1] ok] .
  have ok2: "db_ok (db w2)" using world_le_db_ok [OF le ok1] .
  have key1: "idempotency_key (cr_notification res1) = Some key"
    using c1
  proof (cases rule: Service_Create_cases)
    case (replayed key')
    with k1 show ?thesis by simp
  next
    case (created n now w3 w4 rows)
    then have "idempotency_key n = Some key" using k1 by simp
    moreover have "idempotency_key (cr_notification res1) = idempotency_key n"
      using created(12) publishForDelivery_fields(1) by (cases "status n = StatusPending") auto
    ultimately show ?thesis by simp
  qed
  from Service_Create_stored [OF ok c1] obtain row where
    row: "find_row (nid (cr_notification res1)) (db w1) = Some row"
      "same_notification (cr_notification res1) row" by blast
  from world_le_evolves [OF le ok1] row(1) obtain row2 where
    row2: "find_row (nid (cr_notification res1)) (db w2) = Some row2" "row_evolves row row2"
    by (auto simp: db_evolves_def)
  have si: "same_notification (cr_notification res1) row2"
    using row(2) same_identity_notification [OF row_evolves_identity [OF row2(2)]]
    by (rule same_notification_trans)
  have in2: "row2 \<in> set (notifications (db w2))" "idempotency_key row2 = Some key"
    using row2(1) find_row_iff [OF ok2] same_notification_fields(2) [OF si] key1 by auto
  show ?thesis
    using c2
  proof (cases rule: Service_Create_cases)
    case (replayed key')
    with k2 in2 key_unique [OF ok2] have "cr_notification res2 = row2" by simp
    with si replayed show ?thesis by simp
  next
    case (created n now w3 w4 rows)
    with k2 have "Some key \<notin> idempotency_key ` set (notifications (db w2))"
      by (auto simp: insert_row_Inr)
    with in2 show ?thesis by (metis image_eqI)
  qed
qed

section \<open>Cancelling\<close>

lemma Service_Cancel_le: "Service_Cancel i w = (r, w') \<Longrightarrow> world_le w w'"
  by (auto simp: Service_Cancel_def split: method_splits dest!: UpdateStatus_cancel_le GetByID_le
      intro: world_le_trans world_le_trans [OF _ Service_emitEvent_frame(3)])

lemma Service_Cancel_Inr:
  assumes ok: "db_ok (db w)" and c: "Service_Cancel i w = (Inr n, w')"
  shows "\<exists>r t. find_row i (db w) = Some r \<and> status r \<in> set CancellableStatuses \<and>
    n = r\<lparr>status := StatusCancelled, updated_at := t\<rparr> \<and> find_row i (db w') = Some n"
proof -
  obtain w1 w2 where u: "UpdateStatus i StatusCancelled CancellableStatuses w = (Inr (), w1)"
    and g: "GetByID i w1 = (Inr n, w2)" and w': "db w' = db w2"
    using c by (auto simp: Service_Cancel_def split: method_splits)
  from UpdateStatus_Inr [OF ok u] GetByID_Inr [OF g] w' show ?thesis by auto
qed

lemma UpdateStatus_frame:
  "UpdateStatus i to src w = (r, w') \<Longrightarrow> published w' = published w \<and> requests w' = requests w"
  by (auto simp: UpdateStatus_def split: method_splits dest!: db_call_quiet reads_quiet(1) quiet_frame)

lemma Service_Cancel_refused:
  assumes ok: "db_ok (db w)" and c: "Service_Cancel i w = (Inl e, w')"
    and e: "e \<in> {ErrNotFound, ErrInvalidTransition}"
  shows "db w' = db w \<and> published w' = published w \<and>
    (\<forall>r. find_row i (db w) = Some r \<longrightarrow> status r \<notin> set CancellableStatuses) \<and>
    (e = ErrNotFound \<longrightarrow> find_row i (db w) = None)"
proof -
  from c e have u: "UpdateStatus i StatusCancelled CancellableStatuses w = (Inl e, w')"
    by (auto simp: Service_Cancel_def split: method_splits)
  from UpdateStatus_refused [OF ok u] UpdateStatus_frame [OF u] e show ?thesis by auto
qed

section \<open>Listing\<close>

lemma clamp_limit_bounds: "1 \<le> q_limit (clamp_limit q)" "q_limit (clamp_limit q) \<le> 100"
  by (auto simp: clamp_limit_def Let_def DefaultListLimit_def MaxListLimit_def)

lemma clamp_limit_eq: "clamp_limit q = q\<lparr>q_limit := q_limit (clamp_limit q)\<rparr>"
  by (cases q) (simp add: clamp_limit_def Let_def)

lemma limit_irrelevant:
  "list_matches (q\<lparr>q_limit := l\<rparr>) = list_matches q"
  "ListQuery_Validate (q\<lparr>q_limit := l\<rparr>) = ListQuery_Validate q"
  by (simp_all add: list_matches_def [abs_def] ListQuery_Validate_def cong: option.case_cong)

lemma clamp_limit_keeps [simp]:
  "list_matches (clamp_limit q) = list_matches q"
  "ListQuery_Validate (clamp_limit q) = ListQuery_Validate q"
  using limit_irrelevant [where q = q and l = "q_limit (clamp_limit q)"] by (simp_all flip: clamp_limit_eq)

lemma clamp_limit_id: "1 \<le> q_limit q \<Longrightarrow> q_limit q \<le> 100 \<Longrightarrow> clamp_limit q = q"
  by (simp add: clamp_limit_def MaxListLimit_def)

lemma Service_List_Inr:
  assumes "Service_List q w = (Inr ns, w')"
  shows "ns = take (nat (q_limit (clamp_limit q)))
      (newest_first (filter (list_matches q) (notifications (db w)))) \<and> quiet w w'"
proof -
  have r: "Repo_List (clamp_limit q) w = (Inr ns, w')"
    using assms by (auto simp: Service_List_def Let_def split: method_splits)
  from collected_Inr [OF r [unfolded collecting]] reads_quiet(4) [OF r] show ?thesis
    by (auto simp: sql_list_def split: if_splits)
qed

text \<open>The order of a listing: newest first, identifiers breaking ties.\<close>

definition list_key :: "notification \<Rightarrow> time \<times> uuid" where
  "list_key r = (created_at r, nid r)"

lemma newest_first_key: "newest_first rows = rev (sort_key list_key rows)"
  by (simp add: newest_first_def list_key_def [abs_def])

lemma set_newest_first [simp]: "set (newest_first rows) = set rows"
  by (simp add: newest_first_def)

lemma newest_first_filter: "newest_first (filter P rows) = filter P (newest_first rows)"
  by (simp add: newest_first_def filter_sort flip: rev_filter)

definition newest_sorted :: "notification list \<Rightarrow> bool" where
  "newest_sorted xs \<longleftrightarrow> sorted_wrt (\<lambda>a b. list_key b < list_key a) xs"

lemma newest_first_sorted:
  assumes "distinct (map nid rows)"
  shows "newest_sorted (newest_first rows)"
proof -
  have s: "sorted (map list_key (sort_key list_key rows))" by simp
  have "distinct (map list_key rows)"
    using assms by (auto simp: distinct_map list_key_def inj_on_def)
  then have "distinct (map list_key (sort_key list_key rows))"
    by (auto simp: distinct_map)
  with s have "sorted_wrt (<) (map list_key (sort_key list_key rows))"
    by (simp add: strict_sorted_iff)
  then show ?thesis
    by (simp add: newest_sorted_def newest_first_key sorted_wrt_map sorted_wrt_rev)
qed

text \<open>The rows after a page are the rows older than its last one.\<close>

lemma next_page:
  assumes "newest_sorted xs" "0 < k" "k \<le> length xs"
  shows "filter (\<lambda>r. list_key r < list_key (xs ! (k - 1))) xs = drop k xs"
proof -
  let ?l = "list_key (xs ! (k - 1))"
  have s: "list_key (xs ! j) < list_key (xs ! i)" if "i < j" "j < length xs" for i j
    using assms(1) that by (auto simp: newest_sorted_def sorted_wrt_iff_nth_less)
  have "filter (\<lambda>r. list_key r < ?l) (take k xs) = []"
  proof -
    have "\<not> list_key r < ?l" if "r \<in> set (take k xs)" for r
    proof -
      from that obtain i where i: "i < k" "i < length xs" "r = xs ! i"
        by (auto simp: in_set_conv_nth)
      show ?thesis
      proof (cases "i = k - 1")
        case False
        with i(1) have "i < k - 1" by linarith
        moreover have "k - 1 < length xs" using assms(2,3) by linarith
        ultimately have "?l < list_key r" unfolding i(3) by (rule s)
        then show ?thesis by (rule less_not_sym)
      qed (simp add: i)
    qed
    then show ?thesis by (simp add: filter_empty_conv)
  qed
  moreover have "filter (\<lambda>r. list_key r < ?l) (drop k xs) = drop k xs"
  proof -
    have "list_key r < ?l" if "r \<in> set (drop k xs)" for r
    proof -
      from that obtain i where "i < length (drop k xs)" "r = drop k xs ! i"
        by (auto simp: in_set_conv_nth)
      then have "i + k < length xs" "r = xs ! (i + k)"
        using assms(3) by (simp_all add: add.commute less_diff_conv)
      with s [of "k - 1" "i + k"] assms(2) show ?thesis by simp
    qed
    then show ?thesis by (simp add: filter_id_conv)
  qed
  ultimately have "filter (\<lambda>r. list_key r < ?l) (take k xs @ drop k xs) = drop k xs"
    by (simp only: filter_append append_Nil)
  then show ?thesis by simp
qed

text \<open>
  Continuing a listing: the query with its cursor at the last row of a page returns what the
  first query would have returned after that page.
\<close>

definition with_cursor :: "list_query \<Rightarrow> notification \<Rightarrow> list_query" where
  "with_cursor q r = q\<lparr>q_cursor_created_at := Some (created_at r), q_cursor_id := Some (nid r)\<rparr>"

definition no_cursor :: "list_query \<Rightarrow> bool" where
  "no_cursor q \<longleftrightarrow> q_cursor_created_at q = None \<or> q_cursor_id q = None"

lemma with_cursor_matches:
  "no_cursor q \<Longrightarrow> timestamptz (created_at l) = created_at l \<Longrightarrow>
   list_matches (with_cursor q l) r \<longleftrightarrow> list_matches q r \<and> list_key r < list_key l"
  by (auto simp: list_matches_def with_cursor_def no_cursor_def list_key_def split: option.splits)

lemma next_page_rows:
  assumes "distinct (map nid rows)" "\<forall>r \<in> set rows. timestamptz (created_at r) = created_at r"
    and "no_cursor q"
    and "xs = newest_first (filter (list_matches q) rows)" "0 < k" "k \<le> length xs"
  shows "newest_first (filter (list_matches (with_cursor q (xs ! (k - 1)))) rows) = drop k xs"
proof -
  have "distinct (map nid (filter (list_matches q) rows))"
    using assms(1) by (simp add: distinct_map_filter)
  then have "newest_sorted xs" unfolding assms(4) by (rule newest_first_sorted)
  from next_page [OF this assms(5,6)]
  have "filter (\<lambda>r. list_key r < list_key (xs ! (k - 1))) xs = drop k xs" .
  moreover have "filter (list_matches (with_cursor q l)) rows =
      filter (\<lambda>r. list_key r < list_key l) (filter (list_matches q) rows)"
    if "timestamptz (created_at l) = created_at l" for l
  proof -
    have "list_matches (with_cursor q l) = (\<lambda>r. list_matches q r \<and> list_key r < list_key l)"
      by (simp add: fun_eq_iff with_cursor_matches [OF assms(3) that])
    then show ?thesis by simp
  qed
  moreover have "xs ! (k - 1) \<in> set xs" using assms(5,6) by (intro nth_mem) linarith
  then have "timestamptz (created_at (xs ! (k - 1))) = created_at (xs ! (k - 1))"
    using assms(2) by (simp add: assms(4))
  ultimately show ?thesis
    unfolding assms(4) by (simp only: newest_first_filter)
qed

text \<open>Page after page, with the last row of a page as the cursor.\<close>

lemma pages_continue_the_listing:
  assumes "db_ok (db w)" and "no_cursor q" and "Service_List q w = (Inr page, w1)" and "page \<noteq> []"
    and "Service_List (with_cursor q (last page)) w1 = (Inr page2, w2)"
  shows "\<exists>rest. page @ page2 @ rest = newest_first (filter (list_matches q) (notifications (db w))) \<and>
    distinct (page @ page2 @ rest)"
proof -
  define all where "all = newest_first (filter (list_matches q) (notifications (db w)))"
  define k where "k = nat (q_limit (clamp_limit q))"
  from Service_List_Inr [OF assms(3)] have page: "page = take k all" and d: "db w1 = db w"
    by (simp_all add: all_def k_def quietD)
  define j where "j = length page"
  have j: "0 < j" "j \<le> length all" "last page = all ! (j - 1)" "page = take j all"
    using assms(4) unfolding j_def page by (auto simp: last_conv_nth min_def)
  have "newest_first (filter (list_matches (with_cursor q (last page))) (notifications (db w))) =
      drop j all"
    unfolding j(3) all_def
    using next_page_rows [OF db_ok_distinct [OF assms(1)] db_ok_whole [OF assms(1)] assms(2) refl
        j(1)] j(2)
    by (simp add: all_def)
  with Service_List_Inr [OF assms(5)] d obtain m where "page2 = take m (drop j all)" by auto
  then have "page @ page2 @ drop m (drop j all) = all"
    using j(4) by (metis append_take_drop_id)
  moreover have "distinct all"
  proof -
    have "distinct (notifications (db w))"
      using db_ok_distinct [OF assms(1)] by (simp add: distinct_map)
    then show ?thesis by (simp add: all_def newest_first_def)
  qed
  ultimately show ?thesis unfolding all_def by metis
qed

end
