(* ===== verification/BatchFacts.thy ===== *)
theory BatchFacts
  imports Batch ServiceFacts
begin

text \<open>
  Batch creation: the loop's invariant (one result per input, in order, counters that add up, the
  accepted items exactly the rows to insert, their keys distinct), and what an answer means.
\<close>

section \<open>The loop\<close>

definition result_ok :: "batch_item \<Rightarrow> bool" where
  "result_ok it \<longleftrightarrow>
     (bi_status it = BatchItemAccepted \<longleftrightarrow> bi_notification it \<noteq> None) \<and>
     (bi_status it = BatchItemRejected \<longleftrightarrow> bi_errors it \<noteq> [])"

definition insert_ok :: "uuid \<Rightarrow> time \<Rightarrow> notification \<Rightarrow> bool" where
  "insert_ok batch now n \<longleftrightarrow> fresh_status n \<and> inserted n = in_columns n \<and> batch_id n = Some batch \<and>
     ValidateNew n now = None"

definition batch_inv ::
  "uuid \<Rightarrow> time \<Rightarrow> (string \<rightharpoonup> uuid) \<Rightarrow> nat \<Rightarrow> batch_state \<Rightarrow> bool" where
  "batch_inv batch now keys0 i st \<longleftrightarrow>
     map bi_index (bs_results st) = [0..<i] \<and>
     (\<forall>it \<in> set (bs_results st). result_ok it) \<and>
     bs_insert st = List.map_filter bi_notification (bs_results st) \<and>
     bs_accepted st = length (bs_insert st) \<and> bs_accepted st + bs_rejected st = i \<and>
     (\<forall>n \<in> set (bs_insert st). insert_ok batch now n) \<and>
     (\<forall>k. keys0 k \<noteq> None \<longrightarrow> bs_keys st k \<noteq> None) \<and>
     (\<forall>k \<in> set (List.map_filter idempotency_key (bs_insert st)). bs_keys st k \<noteq> None \<and> keys0 k = None) \<and>
     distinct (List.map_filter idempotency_key (bs_insert st))"

lemma batch_inv_start:
  "batch_inv batch now keys 0
     \<lparr>bs_keys = keys, bs_resolver = rs, bs_results = [], bs_insert = [], bs_accepted = 0, bs_rejected = 0\<rparr>"
  by (simp add: batch_inv_def List.map_filter_simps)

lemma batch_inv_resolver:
  "batch_inv batch now keys0 i st \<Longrightarrow> batch_inv batch now keys0 i (st\<lparr>bs_resolver := rs\<rparr>)"
  by (auto simp: batch_inv_def)

lemma batch_inv_key:
  "batch_inv batch now keys0 i st \<Longrightarrow> batch_inv batch now keys0 i (st\<lparr>bs_keys := (bs_keys st)(k \<mapsto> x)\<rparr>)"
  by (auto simp: batch_inv_def)

lemma reject_item_inv:
  assumes "batch_inv batch now keys0 i st" "bi_index it = i" "result_ok it" "bi_notification it = None"
  shows "batch_inv batch now keys0 (Suc i) (reject_item it st)"
  using assms by (auto simp: batch_inv_def reject_item_def map_filter_snoc)

lemma accept_item_inv:
  assumes "batch_inv batch now keys0 i st" "insert_ok batch now n"
    and "\<forall>k. idempotency_key n = Some k \<longrightarrow> bs_keys st k \<noteq> None \<and> keys0 k = None \<and>
      k \<notin> set (List.map_filter idempotency_key (bs_insert st))"
  shows "batch_inv batch now keys0 (Suc i) (accept_item (item_result i) n st)"
  using assms
  by (auto simp: batch_inv_def accept_item_def item_result_def result_ok_def map_filter_snoc
      split: option.splits)

lemma as_validation_ValidateNew:
  "ValidateNew n now = Some e \<Longrightarrow> \<exists>v. e = ValidationErrors v \<and> v \<noteq> []"
  by (auto simp: ValidateNew_def Let_def split: if_splits)

text \<open>A step never stops the loop, keeps the invariant, and only reads.\<close>

lemma batch_step_inv:
  assumes inv: "batch_inv batch now keys0 i st"
    and b: "batch_step sv batch now i inp st w = (r, w')"
  shows "\<exists>st'. r = Inr st' \<and> batch_inv batch now keys0 (Suc i) st' \<and> quiet w w'"
proof -
  obtain x rs w1 where rc: "resolveContent sv (bs_resolver st) inp w = (x, rs, w1)"
    by (cases "resolveContent sv (bs_resolver st) inp w") auto
  note q1 = resolveContent_quiet [OF rc]
  define st1 where "st1 = st\<lparr>bs_resolver := rs\<rparr>"
  have keys1: "bs_keys st = bs_keys st1" by (simp add: st1_def)
  have inv1: "batch_inv batch now keys0 i st1" unfolding st1_def using inv by (rule batch_inv_resolver)
  show ?thesis
  proof (cases x)
    case (Inl e)
    with resolveContent_Inl rc obtain f m where "e = invalid f m" by blast
    with b rc Inl q1 inv1 show ?thesis
      by (auto simp: batch_step_def invalid_def st1_def [symmetric] item_result_def result_ok_def
          intro!: reject_item_inv)
  next
    case (Inr body)
    obtain n w2 where nn: "newNotification inp body now (Some batch) w1 = (n, w2)" by fastforce
    have q2: "quiet w w2" using q1 newNotification_quiet [OF nn] by (rule quiet_trans)
    note f = newNotification_fields [OF nn]
    show ?thesis
    proof (cases "\<exists>key ex. ci_idempotency_key inp = Some key \<and> bs_keys st1 key = Some ex")
      case True
      then obtain key ex where "ci_idempotency_key inp = Some key" "bs_keys st1 key = Some ex"
        by blast
      with b rc Inr nn q2 inv1 show ?thesis
        by (auto simp: batch_step_def keys1 st1_def [symmetric] item_result_def result_ok_def
            intro!: reject_item_inv)
    next
      case False
      define st2 where "st2 = (case ci_idempotency_key inp of
        None \<Rightarrow> st1 | Some key \<Rightarrow> st1\<lparr>bs_keys := (bs_keys st1)(key \<mapsto> nid n)\<rparr>)"
      have inv2: "batch_inv batch now keys0 i st2"
        using inv1 by (auto simp: st2_def batch_inv_key split: option.splits)
      have fresh: "bs_keys st2 k \<noteq> None \<and> keys0 k = None \<and>
          k \<notin> set (List.map_filter idempotency_key (bs_insert st2))"
        if k: "idempotency_key n = Some k" for k
      proof -
        from inv1 have "k \<in> set (List.map_filter idempotency_key (bs_insert st1)) \<Longrightarrow> bs_keys st1 k \<noteq> None"
          and "keys0 k \<noteq> None \<Longrightarrow> bs_keys st1 k \<noteq> None"
          unfolding batch_inv_def by blast+
        with k False f(2) show ?thesis by (cases "keys0 k") (auto simp: st2_def)
      qed
      have step: "batch_step sv batch now i inp st w =
        (case ValidateNew n now of
           Some e \<Rightarrow>
             (case as_validation e of
                None \<Rightarrow>
                  (Inl (Wrap [Plain ''validate batch item '', Plain (itoa (int i))] e), w2)
              | Some v \<Rightarrow>
                  (Inr (reject_item ((item_result i)
                     \<lparr>bi_status := BatchItemRejected, bi_errors := v\<rparr>) st2), w2))
         | None \<Rightarrow> (Inr (accept_item (item_result i) n st2), w2))"
      proof (cases "ci_idempotency_key inp")
        case None
        then have "st2 = st1" by (simp add: st2_def)
        with rc Inr nn None show ?thesis
          by (simp add: batch_step_def st1_def [symmetric] cong: option.case_cong)
      next
        case (Some key)
        then have "st2 = st1\<lparr>bs_keys := (bs_keys st1)(key \<mapsto> nid n)\<rparr>" by (simp add: st2_def)
        moreover have "bs_keys st1 key = None" using False Some by auto
        ultimately show ?thesis
          using rc Inr nn Some
          by (simp add: batch_step_def keys1 st1_def [symmetric] cong: option.case_cong)
      qed
      show ?thesis
      proof (cases "ValidateNew n now")
        case (Some e)
        with as_validation_ValidateNew obtain v where "e = ValidationErrors v" "v \<noteq> []" by blast
        with Some step b q2 inv2 show ?thesis
          by (auto simp: item_result_def result_ok_def intro!: reject_item_inv)
      next
        case None
        with f have "insert_ok batch now n" by (simp add: insert_ok_def)
        with None step b q2 inv2 fresh show ?thesis by (auto intro!: accept_item_inv)
      qed
    qed
  qed
qed

lemma batch_loop_inv:
  "batch_inv batch now keys0 i st \<Longrightarrow> batch_loop sv batch now i inps st w = (r, w') \<Longrightarrow>
   \<exists>st'. r = Inr st' \<and> batch_inv batch now keys0 (i + length inps) st' \<and> quiet w w'"
proof (induction inps arbitrary: i st w)
  case (Cons inp inps)
  obtain x w1 where s: "batch_step sv batch now i inp st w = (x, w1)" by fastforce
  from batch_step_inv [OF Cons.prems(1) s] obtain st1 where
    st1: "x = Inr st1" "batch_inv batch now keys0 (Suc i) st1" "quiet w w1" by blast
  with Cons.prems(2) s have "batch_loop sv batch now (Suc i) inps st1 w1 = (r, w')" by simp
  from Cons.IH [OF st1(2) this] st1(3) show ?case by (auto intro: quiet_trans)
qed auto

text \<open>A step appends one result, and a notification in it is made from the input.\<close>

definition from_input :: "uuid \<Rightarrow> create_input \<Rightarrow> batch_item \<Rightarrow> bool" where
  "from_input batch inp it \<longleftrightarrow>
     (\<forall>n. bi_notification it = Some n \<longrightarrow> recipient n = ci_recipient inp \<and> channel n = ci_channel inp \<and>
        idempotency_key n = ci_idempotency_key inp \<and> scheduled_at n = ci_scheduled_at inp \<and>
        batch_id n = Some batch)"

lemma batch_step_item:
  assumes "batch_step sv batch now i inp st w = (Inr st', w')"
  shows "\<exists>it. bs_results st' = bs_results st @ [it] \<and> from_input batch inp it"
proof -
  obtain x rs w1 where rc: "resolveContent sv (bs_resolver st) inp w = (x, rs, w1)" by (rule prod_cases3)
  show ?thesis
  proof (cases x)
    case (Inl e)
    with rc assms show ?thesis
      by (auto simp: batch_step_def reject_item_def item_result_def from_input_def split: option.splits)
  next
    case (Inr body)
    obtain n w2 where n: "newNotification inp body now (Some batch) w1 = (n, w2)" by fastforce
    note f = newNotification_fields [OF n]
    from rc Inr n assms show ?thesis
      by (auto simp: batch_step_def Let_def reject_item_def accept_item_def item_result_def from_input_def f
          split: option.splits)
  qed
qed

lemma batch_loop_items:
  "batch_loop sv batch now i inps st w = (Inr st', w') \<Longrightarrow>
   \<exists>its. bs_results st' = bs_results st @ its \<and> list_all2 (from_input batch) inps its"
proof (induction inps arbitrary: i st w)
  case (Cons inp inps)
  then obtain st1 w1 where s: "batch_step sv batch now i inp st w = (Inr st1, w1)"
    "batch_loop sv batch now (Suc i) inps st1 w1 = (Inr st', w')"
    by (auto split: prod.splits sum.splits)
  from batch_step_item [OF s(1)] obtain it where
    "bs_results st1 = bs_results st @ [it]" "from_input batch inp it" by blast
  moreover from Cons.IH [OF s(2)] obtain its where
    "bs_results st' = bs_results st1 @ its" "list_all2 (from_input batch) inps its" by blast
  ultimately show ?case by (intro exI [of _ "it # its"]) simp
qed simp

section \<open>The answer\<close>

lemma existingKeysFor_Inr:
  assumes "existingKeysFor inps w = (Inr m, w')"
  shows "quiet w w' \<and> (\<forall>r \<in> set (notifications (db w)). \<forall>k. idempotency_key r = Some k \<longrightarrow>
    k \<in> set (List.map_filter ci_idempotency_key inps) \<longrightarrow> m k \<noteq> None)"
proof -
  define keys where "keys = List.map_filter ci_idempotency_key inps"
  have e: "ExistingIdempotencyKeys keys w = (Inr m, w')"
    using assms by (auto simp: existingKeysFor_def keys_def split: method_splits)
  have dom: "dom (foldl (\<lambda>m (k, i). m(k \<mapsto> i)) m0 rows) = dom m0 \<union> fst ` set rows"
    for m0 :: "string \<rightharpoonup> uuid" and rows
    by (induction rows arbitrary: m0) auto
  have "m k \<noteq> None" if r: "r \<in> set (notifications (db w))" "idempotency_key r = Some k"
    "k \<in> set keys" for r k
  proof -
    from r(3) have "keys \<noteq> []" by auto
    with e obtain rows w1 where rows: "db_call (sql_existing_keys keys) w = (Inr rows, w1)"
      "m = foldl (\<lambda>m (k, i). m(k \<mapsto> i)) Map.empty rows"
      by (auto simp: ExistingIdempotencyKeys_def split: method_splits dest!: read_rows_Inr)
    from db_call_Inr [OF rows(1)] have "rows = List.map_filter (\<lambda>r. case idempotency_key r of
        None \<Rightarrow> None | Some k \<Rightarrow> if k \<in> set keys then Some (k, nid r) else None)
        (notifications (db w))"
      by (auto simp: sql_existing_keys_def split: if_splits)
    then have "(k, nid r) \<in> set rows"
      using r by (auto simp: set_map_filter image_iff intro!: bexI [of _ r])
    then have "k \<in> dom m" unfolding rows(2) dom by force
    then show ?thesis by auto
  qed
  with reads_quiet(3) [OF e] show ?thesis by (auto simp: keys_def)
qed

lemma existingKeysFor_quiet: "existingKeysFor inps w = (r, w') \<Longrightarrow> quiet w w'"
  by (auto simp: existingKeysFor_def split: method_splits dest: reads_quiet(3))

lemma recordCreated_all [simp]:
  "db (foldl (\<lambda>w n. recordCreated sv n w) w ns) = db w"
  "published (foldl (\<lambda>w n. recordCreated sv n w) w ns) = published w"
  "world_le w (foldl (\<lambda>w n. recordCreated sv n w) w ns)"
proof -
  show "db (foldl (\<lambda>w n. recordCreated sv n w) w ns) = db w"
    by (induction ns arbitrary: w) auto
  show "published (foldl (\<lambda>w n. recordCreated sv n w) w ns) = published w"
    by (induction ns arbitrary: w) auto
  show "world_le w (foldl (\<lambda>w n. recordCreated sv n w) w ns)"
    by (induction ns arbitrary: w) (auto intro: world_le_trans [OF recordCreated_frame(4)])
qed

lemma mark_confirmed_le: "mark_confirmed c its w = (its', w') \<Longrightarrow> world_le w w' \<and> db w' = db w"
  by (induction its arbitrary: w its')
    (auto simp: Let_def split: method_splits
      intro: world_le_trans [OF Service_emitEvent_frame(3)])

text \<open>Publishing turns the status of the confirmed items to queued, and of no others.\<close>

definition marked :: "uuid set \<Rightarrow> batch_item \<Rightarrow> batch_item \<Rightarrow> bool" where
  "marked confirmed a b \<longleftrightarrow>
     (\<forall>n'. bi_notification b = Some n' \<longrightarrow> (\<exists>n. bi_notification a = Some n \<and>
        (n' = n \<or> nid n \<in> confirmed \<and> n' = n\<lparr>status := StatusQueued\<rparr>)))"

lemma mark_confirmed_marks: "mark_confirmed c its w = (its', w') \<Longrightarrow> list_all2 (marked c) its its'"
  by (induction its arbitrary: w its') (auto simp: marked_def Let_def split: method_splits)


definition same_item :: "batch_item \<Rightarrow> batch_item \<Rightarrow> bool" where
  "same_item a b \<longleftrightarrow> bi_index b = bi_index a \<and> bi_status b = bi_status a \<and>
     bi_existing_id b = bi_existing_id a \<and> bi_errors b = bi_errors a \<and>
     (bi_notification b = bi_notification a \<or>
      (\<exists>n. bi_notification a = Some n \<and> bi_notification b = Some (n\<lparr>status := StatusQueued\<rparr>)))"

lemma mark_confirmed_items: "mark_confirmed c its w = (its', w') \<Longrightarrow> list_all2 same_item its its'"
  by (induction its arbitrary: w its') (auto simp: same_item_def Let_def split: method_splits)

lemma MarkQueuedBulk_nids:
  assumes "MarkQueuedBulk ids w = (r, w')"
  shows "map nid (notifications (db w')) = map nid (notifications (db w))"
proof -
  have stmt: "map nid (notifications (snd (sql_mark_queued_bulk ids t d))) = map nid (notifications d)"
    for t d
    by (simp add: sql_mark_queued_bulk_def notifications_update_returning)
  have "map nid (notifications d') = map nid (notifications (db w))"
    if "sql_mark_queued_bulk ids t (db w) = (x, d')" for t x d'
    using stmt [of t "db w"] that by simp
  then show ?thesis
    using assms by (auto simp: MarkQueuedBulk_def split: method_splits elim!: db_call_cases)
qed

lemma publish_batch_spec:
  assumes "publish_batch ctx res w = (res', w')"
  shows "world_le w w' \<and> br_batch_id res' = br_batch_id res \<and> br_accepted res' = br_accepted res \<and>
    br_rejected res' = br_rejected res \<and> list_all2 same_item (br_results res) (br_results res') \<and>
    map nid (notifications (db w')) = map nid (notifications (db w))"
proof -
  have refl: "list_all2 same_item its its" for its
    by (simp add: list_all2_same same_item_def)
  obtain x w1 where p: "PublishCreatedAll ctx (to_publish (br_results res)) w = (x, w1)" by fastforce
  note p1 = PublishCreatedAll_effect [OF p]
  show ?thesis
  proof (cases x)
    case (Inl e)
    with assms p p1 refl show ?thesis by (simp add: publish_batch_def)
  next
    case (Inr ids)
    obtain y w2 where m: "MarkQueuedBulk ids w1 = (y, w2)" by fastforce
    have le: "world_le w w2" using p1(4) MarkQueuedBulk_le [OF m] by (rule world_le_trans)
    note nids = MarkQueuedBulk_nids [OF m, unfolded p1(1)]
    obtain its w3 where k: "mark_confirmed (set ids) (br_results res) w2 = (its, w3)" by fastforce
    from assms p Inr m k have "res' = res \<and> w' = w2 \<or> res' = res\<lparr>br_results := its\<rparr> \<and> w' = w3"
      by (auto simp: publish_batch_def split: sum.splits)
    then show ?thesis
      using le nids refl mark_confirmed_le [OF k] mark_confirmed_items [OF k]
      by (auto intro: world_le_trans)
  qed
qed

lemma Repo_CreateBatch_Inr:
  assumes "Repo_CreateBatch ns w = (Inr (), w')"
  shows "db w' = (db w)\<lparr>notifications := notifications (db w) @ map inserted ns\<rparr>"
proof (cases "ns = []")
  case True
  with assms show ?thesis by (simp add: Repo_CreateBatch_def)
next
  case False
  obtain w1 w2 where c: "db_call (\<lambda>t d. (Inr (), d)) w = (Inr (), w1)"
    "db_call (\<lambda>t d. (fst (sql_copy ns t d), d)) w1 = (Inr (), w2)"
    "db_call (sql_copy ns) w2 = (Inr (), w')"
    using assms False by (auto simp: Repo_CreateBatch_def split: method_splits)
  have "quiet w w1" using c(1) by (rule query_quiet [rotated]) simp
  moreover have "quiet w1 w2" using c(2) by (rule query_quiet [rotated]) simp
  ultimately have "db w2 = db w" by (simp add: quietD)
  with db_call_Inr [OF c(3)] show ?thesis
    by (auto simp: sql_copy_def dest: copy_rows_eq split: sum.splits)
qed

lemma CreateBatch_cases:
  assumes c: "CreateBatch sv ctx inps w = (r, w')"
  obtains
    (early) e where "r = Inl e" "quiet w w'"
  | (run) now batch keys st w4 y w5 where
      "batch_inv batch now keys (length inps) st" "quiet w w4"
      "Repo_CreateBatch (bs_insert st) w4 = (y, w5)"
      "case y of Inl e \<Rightarrow> r = Inl (Wrap [Plain ''insert batch''] e) \<and> w' = w5
       | Inr _ \<Rightarrow> \<exists>res. r = Inr res \<and>
           publish_batch ctx
             \<lparr>br_batch_id = batch, br_accepted = bs_accepted st, br_rejected = bs_rejected st,
              br_results = bs_results st\<rparr>
             (foldl (\<lambda>w n. recordCreated sv n w) w5 (bs_insert st)) = (res, w')"
      "list_all2 (from_input batch) inps (bs_results st)"
proof -
  obtain now w1 where n: "Now w = (now, w1)" by fastforce
  obtain batch w2 where u: "uuid_New w1 = (batch, w2)" by fastforce
  obtain x w3 where k: "existingKeysFor inps w2 = (x, w3)" by fastforce
  have q3: "quiet w w3"
    using Now_quiet [OF n] uuid_New_quiet [OF u] existingKeysFor_quiet [OF k]
    by (blast intro: quiet_trans)
  show thesis
  proof (cases x)
    case (Inl e)
    with c n u k q3 show thesis by (intro early) (auto simp: CreateBatch_def)
  next
    case (Inr keys)
    obtain z w4 where l: "batch_loop sv batch now 0 inps
        \<lparr>bs_keys = keys, bs_resolver = newTemplateResolver, bs_results = [], bs_insert = [],
         bs_accepted = 0, bs_rejected = 0\<rparr> w3 = (z, w4)" by fastforce
    from batch_loop_inv [OF batch_inv_start l] obtain st where
      st: "z = Inr st" "batch_inv batch now keys (length inps) st" "quiet w3 w4" by auto
    obtain y w5 where cb: "Repo_CreateBatch (bs_insert st) w4 = (y, w5)" by fastforce
    have "case y of Inl e \<Rightarrow> r = Inl (Wrap [Plain ''insert batch''] e) \<and> w' = w5
       | Inr _ \<Rightarrow> \<exists>res. r = Inr res \<and>
           publish_batch ctx
             \<lparr>br_batch_id = batch, br_accepted = bs_accepted st, br_rejected = bs_rejected st,
              br_results = bs_results st\<rparr>
             (foldl (\<lambda>w n. recordCreated sv n w) w5 (bs_insert st)) = (res, w')"
      using c n u k l st(1) cb Inr
      by (auto simp: CreateBatch_def Let_def split: sum.splits prod.splits)
    with run [OF st(2) quiet_trans [OF q3 st(3)] cb] batch_loop_items [OF l [unfolded st(1)]]
    show thesis by auto
  qed
qed

lemma CreateBatch_le:
  assumes "CreateBatch sv ctx inps w = (r, w')"
  shows "world_le w w'"
  using assms
proof (cases rule: CreateBatch_cases)
  case (early e)
  then show ?thesis by (simp add: quietD)
next
  case (run now batch keys st w4 y w5)
  from run(1) have "\<forall>n \<in> set (bs_insert st). fresh_status n"
    by (auto simp: batch_inv_def insert_ok_def)
  from Repo_CreateBatch_le [OF this run(3)] have "world_le w w5"
    using quietD(5) [OF run(2)] by (blast intro: world_le_trans)
  with run(4) show ?thesis
    by (auto split: sum.splits dest!: publish_batch_spec
        intro: world_le_trans world_le_trans [OF _ world_le_trans [OF recordCreated_all(3)]])
qed

text \<open>
  A batch that answers: one result per input in order, counters that add up, the accepted ones
  valid and stored under the batch's identifier, and the table holds nothing else new.
\<close>

definition batch_answer :: "nat \<Rightarrow> batch_result \<Rightarrow> bool" where
  "batch_answer k res \<longleftrightarrow>
     map bi_index (br_results res) = [0..<k] \<and>
     br_accepted res = length (filter (\<lambda>it. bi_status it = BatchItemAccepted) (br_results res)) \<and>
     br_accepted res + br_rejected res = k \<and>
     (\<forall>it \<in> set (br_results res). result_ok it)"

lemma length_map_filter_Some:
  "(\<forall>x \<in> set xs. P x \<longleftrightarrow> f x \<noteq> None) \<Longrightarrow> length (List.map_filter f xs) = length (filter P xs)"
  by (induction xs) (auto simp: List.map_filter_simps split: option.splits)

lemma same_item_result_ok: "same_item a b \<Longrightarrow> result_ok a \<Longrightarrow> result_ok b"
  by (auto simp: same_item_def result_ok_def)

lemma same_items:
  assumes "list_all2 same_item xs ys"
  shows "map bi_index ys = map bi_index xs" "map bi_status ys = map bi_status xs"
    "map nid (List.map_filter bi_notification ys) = map nid (List.map_filter bi_notification xs)"
    "(\<forall>x \<in> set xs. result_ok x) \<Longrightarrow> (\<forall>y \<in> set ys. result_ok y)"
proof -
  show "map bi_index ys = map bi_index xs" "map bi_status ys = map bi_status xs"
    using assms by (induction rule: list_all2_induct) (simp_all add: same_item_def)
  show "map nid (List.map_filter bi_notification ys) = map nid (List.map_filter bi_notification xs)"
    using assms
  proof (induction rule: list_all2_induct)
    case (Cons x xs y ys)
    then have "map_option nid (bi_notification y) = map_option nid (bi_notification x)"
      by (auto simp: same_item_def)
    with Cons(3) show ?case
      by (cases "bi_notification x"; cases "bi_notification y") (simp_all add: List.map_filter_simps)
  qed simp
  show "\<forall>y \<in> set ys. result_ok y" if "\<forall>x \<in> set xs. result_ok x"
    using assms that by (induction rule: list_all2_induct) (auto dest: same_item_result_ok)
qed

lemma CreateBatch_answer:
  assumes ok: "db_ok (db w)" and c: "CreateBatch sv ctx inps w = (Inr res, w')"
  shows "batch_answer (length inps) res \<and>
    map nid (notifications (db w')) =
      map nid (notifications (db w)) @ map nid (List.map_filter bi_notification (br_results res))"
  using c
proof (cases rule: CreateBatch_cases)
  case (early e)
  then show ?thesis by simp
next
  case (run now batch keys st w4 y w5)
  then have y: "y = Inr ()" and p: "publish_batch ctx
      \<lparr>br_batch_id = batch, br_accepted = bs_accepted st, br_rejected = bs_rejected st,
       br_results = bs_results st\<rparr>
      (foldl (\<lambda>w n. recordCreated sv n w) w5 (bs_insert st)) = (res, w')"
    by (auto split: sum.splits)
  note ps = publish_batch_spec [OF p, simplified]
  have si: "list_all2 same_item (bs_results st) (br_results res)" using ps by simp
  note si = same_items [OF si]
  have st: "map bi_index (bs_results st) = [0..<length inps]"
    "\<forall>it \<in> set (bs_results st). result_ok it"
    "bs_insert st = List.map_filter bi_notification (bs_results st)"
    "bs_accepted st = length (bs_insert st)" "bs_accepted st + bs_rejected st = length inps"
    "\<forall>n \<in> set (bs_insert st). insert_ok batch now n"
    using run(1) by (auto simp: batch_inv_def)
  have "length (List.map_filter bi_notification (bs_results st)) =
      length (filter (\<lambda>it. bi_status it = BatchItemAccepted) (bs_results st))"
    using st(2) by (intro length_map_filter_Some) (auto simp: result_ok_def)
  also have "\<dots> = length (filter (\<lambda>it. bi_status it = BatchItemAccepted) (br_results res))"
  proof -
    have count: "length (filter (\<lambda>it. bi_status it = BatchItemAccepted) its) =
        length (filter (\<lambda>s. s = BatchItemAccepted) (map bi_status its))" for its
      by (induction its) auto
    show ?thesis by (simp only: count si(2))
  qed
  finally have "batch_answer (length inps) res"
    using st(1,3,4,5) ps si(1) si(4) [OF st(2)] by (simp add: batch_answer_def)
  moreover have "map nid (notifications (db w')) =
      map nid (notifications (db w)) @ map nid (List.map_filter bi_notification (br_results res))"
  proof -
    have "map nid (notifications (db w5)) =
        map nid (notifications (db w)) @ map nid (bs_insert st)"
      using Repo_CreateBatch_Inr run(3) y quietD(1) [OF run(2)] by fastforce
    with ps si(3) st(3) show ?thesis by simp
  qed
  ultimately show ?thesis ..
qed

section \<open>What is stored and handed over\<close>

lemma map_filter_nth: "f (xs ! k) = Some y \<Longrightarrow> k < length xs \<Longrightarrow> y \<in> set (List.map_filter f xs)"
  by (induction xs arbitrary: k) (auto simp: List.map_filter_simps nth_Cons split: nat.splits option.splits)

lemma to_publish_mem:
  "m \<in> set (to_publish items) \<Longrightarrow>
   status m = StatusPending \<and> m \<in> set (List.map_filter bi_notification items)"
  by (induction items)
    (auto simp: to_publish_def List.map_filter_simps split: batch_item_status.splits option.splits if_splits)

text \<open>An item that is answered as queued has a queued row, and its message is at the broker.\<close>

lemma publish_batch_queued:
  assumes p: "publish_batch ctx res w = (res', w')" and ok: "db_ok (db w)"
    and stored: "\<forall>m \<in> set (List.map_filter bi_notification (br_results res)).
      find_row (nid m) (db w) = Some (in_columns m) \<and> fresh_status m"
    and k: "k < length (br_results res)" "bi_notification (br_results res' ! k) = Some n'"
  shows "\<exists>n. bi_notification (br_results res ! k) = Some n \<and> nid n' = nid n \<and>
    (n' = n \<or> n' = n\<lparr>status := StatusQueued\<rparr> \<and>
     (\<exists>t. find_row (nid n) (db w') = Some ((in_columns n)\<lparr>status := StatusQueued, updated_at := t\<rparr>)) \<and>
     (\<exists>m. nid m = nid n \<and> created_publication ctx m \<in> set (published w')))"
proof -
  obtain x w1 where pc: "PublishCreatedAll ctx (to_publish (br_results res)) w = (x, w1)" by fastforce
  from PublishCreatedAll_confirmed [OF pc] obtain ids where ids: "x = Inr ids"
    "\<forall>i \<in> set ids. \<exists>m \<in> set (to_publish (br_results res)). nid m = i \<and> created_publication ctx m \<in> set (published w1)"
    by metis
  note p1 = PublishCreatedAll_effect [OF pc]
  obtain y w2 where m: "MarkQueuedBulk ids w1 = (y, w2)" by fastforce
  obtain its w3 where mc: "mark_confirmed (set ids) (br_results res) w2 = (its, w3)" by fastforce
  from p pc ids(1) m mc consider
      "res' = res"
    | "res' = res\<lparr>br_results := its\<rparr>" "w' = w3" "y = Inr ()"
    by (auto simp: publish_batch_def split: sum.splits)
  then show ?thesis
  proof cases
    case 1
    with k show ?thesis by auto
  next
    case 2
    from list_all2_nthD [OF mark_confirmed_marks [OF mc] k(1)] k(2) 2(1) obtain n where
      n: "bi_notification (br_results res ! k) = Some n"
      "n' = n \<or> nid n \<in> set ids \<and> n' = n\<lparr>status := StatusQueued\<rparr>"
      by (auto simp: marked_def)
    show ?thesis
    proof (cases "n' = n")
      case True
      with n show ?thesis by auto
    next
      case False
      with n have i: "nid n \<in> set ids" "n' = n\<lparr>status := StatusQueued\<rparr>" by auto
      from ids(2) i(1) obtain m0 where m0: "m0 \<in> set (to_publish (br_results res))" "nid m0 = nid n"
        "created_publication ctx m0 \<in> set (published w1)" by blast
      from m0(1) have m0': "m0 \<in> set (List.map_filter bi_notification (br_results res))" "status m0 = StatusPending"
        by (auto dest: to_publish_mem)
      have nm: "n \<in> set (List.map_filter bi_notification (br_results res))"
        using n(1) k(1) by (rule map_filter_nth)
      from stored nm have row1: "find_row (nid n) (db w) = Some (in_columns n)" by blast
      moreover from stored m0'(1) have "find_row (nid m0) (db w) = Some (in_columns m0)" by blast
      ultimately have row: "find_row (nid n) (db w) = Some (in_columns n)" "in_columns m0 = in_columns n"
        using m0(2) by simp_all
      have pend: "status n = StatusPending" using arg_cong [OF row(2), of status] m0'(2) by simp
      from i(1) have "ids \<noteq> []" by auto
      with m 2(3) obtain u where "db_call (sql_mark_queued_bulk ids) w1 = (Inr u, w2)"
        by (auto simp: MarkQueuedBulk_def split: prod.splits sum.splits)
      from db_call_Inr [OF this] have "db w2 = snd (update_returning (\<lambda>r. nid r \<in> set ids \<and> status r = StatusPending)
          (\<lambda>r. r\<lparr>status := StatusQueued, updated_at := db_clock w1 (steps w1)\<rparr>) (db w))"
        by (simp add: sql_mark_queued_bulk_def p1(1))
      then have "find_row (nid n) (db w2) = map_option
          (\<lambda>r. if nid r \<in> set ids \<and> status r = StatusPending
               then r\<lparr>status := StatusQueued, updated_at := db_clock w1 (steps w1)\<rparr> else r)
          (find_row (nid n) (db w))"
        by (simp only:) (rule find_row_update, simp add: keeps_identity_def same_identity_def)
      with row(1) pend i(1) have "find_row (nid n) (db w2) =
          Some ((in_columns n)\<lparr>status := StatusQueued, updated_at := db_clock w1 (steps w1)\<rparr>)" by simp
      moreover have "world_le w1 w3"
        using MarkQueuedBulk_le [OF m] mark_confirmed_le [OF mc] by (blast intro: world_le_trans)
      then have "created_publication ctx m0 \<in> set (published w3)"
        using m0(3) by (auto simp: world_le_def)
      ultimately show ?thesis
        using n(1) i(2) 2(2) m0(2) mark_confirmed_le [OF mc] by (intro exI [of _ n]) auto
    qed
  qed
qed

lemma CreateBatch_stored:
  assumes ok: "db_ok (db w)" and c: "CreateBatch sv ctx inps w = (Inr res, w')"
    and k: "k < length inps" "bi_notification (br_results res ! k) = Some n'"
  shows "recipient n' = ci_recipient (inps ! k) \<and> channel n' = ci_channel (inps ! k) \<and>
    idempotency_key n' = ci_idempotency_key (inps ! k) \<and> scheduled_at n' = ci_scheduled_at (inps ! k) \<and>
    batch_id n' = Some (br_batch_id res) \<and> (\<exists>now. ValidateNew n' now = None) \<and>
    (\<exists>row. find_row (nid n') (db w') = Some row \<and> same_notification n' row \<and>
      (status n' = StatusQueued \<longrightarrow> status row = StatusQueued \<and>
        (\<exists>m. nid m = nid n' \<and> created_publication ctx m \<in> set (published w'))))"
  using c
proof (cases rule: CreateBatch_cases)
  case (early e)
  then show ?thesis by simp
next
  case (run now batch keys st w4 y w5)
  let ?w6 = "foldl (\<lambda>w n. recordCreated sv n w) w5 (bs_insert st)"
  let ?res = "\<lparr>br_batch_id = batch, br_accepted = bs_accepted st, br_rejected = bs_rejected st,
       br_results = bs_results st\<rparr>"
  from run(4) have y: "y = Inr ()" and p: "publish_batch ctx ?res ?w6 = (res, w')"
    by (auto split: sum.splits)
  have st: "bs_insert st = List.map_filter bi_notification (bs_results st)"
    "\<forall>n \<in> set (bs_insert st). insert_ok batch now n"
    using run(1) by (auto simp: batch_inv_def)
  have len: "length (bs_results st) = length inps" using list_all2_lengthD [OF run(5)] by simp
  have fresh: "\<forall>n \<in> set (bs_insert st). fresh_status n" using st(2) by (simp add: insert_ok_def)
  have ok5: "db_ok (db w5)"
    using Repo_CreateBatch_le [OF fresh run(3)] quietD(1) [OF run(2)] ok by (auto intro: world_le_db_ok)
  have stored: "\<forall>m \<in> set (List.map_filter bi_notification (bs_results st)).
      find_row (nid m) (db ?w6) = Some (in_columns m) \<and> fresh_status m"
  proof
    fix m
    assume m: "m \<in> set (List.map_filter bi_notification (bs_results st))"
    then have "m \<in> set (bs_insert st)" by (simp only: st(1))
    then have "inserted m \<in> set (notifications (db w5))" "inserted m = in_columns m" "fresh_status m"
      using Repo_CreateBatch_Inr [OF run(3) [unfolded y]] st(2) by (auto simp: insert_ok_def)
    then show "find_row (nid m) (db ?w6) = Some (in_columns m) \<and> fresh_status m"
      using find_row_iff [OF ok5] by simp
  qed
  have "db_ok (db ?w6)" "k < length (br_results ?res)" using ok5 k(1) len by simp_all
  from publish_batch_queued [OF p this(1) _ this(2) k(2)] stored obtain n where
    n: "bi_notification (bs_results st ! k) = Some n" "nid n' = nid n"
    "n' = n \<or> n' = n\<lparr>status := StatusQueued\<rparr> \<and>
     (\<exists>t. find_row (nid n) (db w') = Some ((in_columns n)\<lparr>status := StatusQueued, updated_at := t\<rparr>)) \<and>
     (\<exists>m. nid m = nid n \<and> created_publication ctx m \<in> set (published w'))" unfolding batch_result.simps by blast
  have mem: "n \<in> set (List.map_filter bi_notification (bs_results st))"
    using n(1) k(1) len by (auto intro: map_filter_nth)
  have inp: "from_input batch (inps ! k) (bs_results st ! k)" using list_all2_nthD [OF run(5) k(1)] .
  have id: "br_batch_id res = batch" using publish_batch_spec [OF p] by simp
  have "ValidateNew (n\<lparr>status := s\<rparr>) now = ValidateNew n now" for s
    by (simp add: ValidateNew_def Let_def)
  moreover have "ValidateNew n now = None" using st mem by (simp add: insert_ok_def)
  ultimately have valid: "ValidateNew n' now = None" using n(3) by auto
  have "find_row (nid n) (db w5) = Some (in_columns n)" using stored mem by simp
  moreover have "world_le w5 w'"
    using recordCreated_all(3) publish_batch_spec [OF p] by (blast intro: world_le_trans)
  ultimately obtain row where row: "find_row (nid n) (db w') = Some row" "row_evolves (in_columns n) row"
    using world_le_evolves [OF _ ok5] unfolding db_evolves_def by blast
  have same: "same_notification n' row"
    using stored_notification [OF row_evolves_identity [OF row(2)]] n(3)
    by (auto simp: same_notification_def same_identity_def in_columns_def)
  have q: "status n' = StatusQueued \<Longrightarrow> n' \<noteq> n"
    using stored mem by (auto simp: fresh_status_def)
  have fields: "recipient n' = recipient n" "channel n' = channel n"
    "idempotency_key n' = idempotency_key n" "scheduled_at n' = scheduled_at n" "batch_id n' = batch_id n"
    using n(3) by (elim disjE conjE; simp)+
  have queued: "status row = StatusQueued \<and> (\<exists>m. nid m = nid n' \<and> created_publication ctx m \<in> set (published w'))"
    if "status n' = StatusQueued"
    using n(3) q [OF that] row(1) n(2) by auto
  from inp n(1) have "recipient n = ci_recipient (inps ! k) \<and> channel n = ci_channel (inps ! k) \<and>
      idempotency_key n = ci_idempotency_key (inps ! k) \<and> scheduled_at n = ci_scheduled_at (inps ! k) \<and>
      batch_id n = Some batch" by (simp only: from_input_def)
  with row(1) same valid queued show ?thesis unfolding fields id n(2) by blast
qed

end
