(* ===== verification/ApiFacts.thy ===== *)
theory ApiFacts
  imports Router BatchFacts
begin

text \<open>
  Facts about the HTTP interface: which errors the services return for a client's own fault,
  that a request answered with a 4xx has changed nothing, and that every request is a legal move
  of the world.
\<close>

section \<open>Nothing changed\<close>

definition untouched :: "world \<Rightarrow> world \<Rightarrow> bool" where
  "untouched w w' \<longleftrightarrow> db w' = db w \<and> published w' = published w \<and> requests w' = requests w \<and> later w w'"

lemma untouched_refl [simp, intro]: "untouched w w"
  by (simp add: untouched_def)

lemma untouched_trans [trans]: "untouched a b \<Longrightarrow> untouched b c \<Longrightarrow> untouched a c"
  by (auto simp: untouched_def intro: later_trans)

lemma quiet_untouched: "quiet w w' \<Longrightarrow> untouched w w'"
  using quietD [of w w'] world_le_later by (auto simp: untouched_def)

lemma untouched_le: "untouched w w' \<Longrightarrow> world_le w w'"
  by (simp add: untouched_def world_le_same)

lemma untouched_steps [intro]: "untouched w w' \<Longrightarrow> untouched w (w'\<lparr>steps := Suc (steps w')\<rparr>)"
  by (auto simp: untouched_def)

lemma untouched_Suc [dest]: "untouched (w\<lparr>steps := Suc (steps w)\<rparr>) w' \<Longrightarrow> untouched w w'"
  using untouched_trans [OF untouched_steps [OF untouched_refl]] .

lemma untouched_metrics [simp]: "untouched w (w'\<lparr>metrics := m\<rparr>) = untouched w w'"
  by (simp add: untouched_def later_def environment.truncate_def)

section \<open>A client's fault\<close>

definition client_fault :: "error \<Rightarrow> bool" where
  "client_fault e \<longleftrightarrow> as_validation e \<noteq> None \<or>
     cause e \<in> {ErrNotFound, ErrInvalidTransition, ErrDuplicateIdempotencyKey, ErrDuplicateTemplateName}"

lemma client_fault_Wrap [simp]: "client_fault (Wrap m e) = client_fault e"
  by (simp add: client_fault_def)

lemma foreign_no_fault: "foreign_error e \<Longrightarrow> \<not> client_fault e"
  by (auto simp: foreign_error_def client_fault_def)

lemma db_call_foreign:
  assumes "db_call f w = (Inl e, w')" "\<And>t d x d'. f t d = (Inl x, d') \<Longrightarrow> foreign_error x"
  shows "foreign_error e"
  using assms(1)
  by (rule db_call_cases) (auto simp: foreign_error_def dest!: assms(2))

text \<open>A statement that fails leaves the tables alone, and its error is the driver's.\<close>

definition fails_clean :: "'a stmt \<Rightarrow> bool" where
  "fails_clean f \<longleftrightarrow> (\<forall>t d x d'. f t d = (Inl x, d') \<longrightarrow> foreign_error x \<and> d' = d)"

lemma fails_cleanD: "fails_clean f \<Longrightarrow> f t d = (Inl x, d') \<Longrightarrow> foreign_error x \<and> d' = d"
  by (auto simp: fails_clean_def)

lemma db_call_fails_clean:
  assumes "fails_clean f" "db_call f w = (Inl e, w')"
  shows "foreign_error e" "as_pg e \<noteq> None \<Longrightarrow> untouched w w'" "e = ErrNoRows \<Longrightarrow> untouched w w'"
proof -
  show "foreign_error e" using db_call_foreign [OF assms(2)] fails_cleanD [OF assms(1)] by blast
  have "\<exists>what k. e = Opaque what k" if "db w' \<noteq> db w"
    using assms(2) that fails_cleanD [OF assms(1)] by (auto elim!: db_call_cases)
  with db_call_frame [OF assms(2)] db_call_later [OF assms(2)]
  show "as_pg e \<noteq> None \<Longrightarrow> untouched w w'" "e = ErrNoRows \<Longrightarrow> untouched w w'"
    by (cases e; auto simp: untouched_def)+
qed

lemma db_call_no_fault: "fails_clean f \<Longrightarrow> db_call f w = (Inl e, w') \<Longrightarrow> \<not> client_fault e"
  using db_call_fails_clean(1) foreign_no_fault by blast

lemma insert_row_foreign: "insert_row n rows = Inl e \<Longrightarrow> foreign_error e"
  by (auto simp: insert_row_def foreign_error_def Let_def split: if_splits)

lemma fails_clean_insert [simp]: "fails_clean (sql_insert n)"
  by (auto simp: fails_clean_def sql_insert_def dest: insert_row_foreign split: sum.splits)

lemma copy_rows_foreign: "copy_rows ns rows = Inl e \<Longrightarrow> foreign_error e"
  by (induction ns arbitrary: rows) (auto dest: insert_row_foreign split: sum.splits)

lemma fails_clean_copy [simp]: "fails_clean (sql_copy ns)"
  by (auto simp: fails_clean_def sql_copy_def dest: copy_rows_foreign split: sum.splits)

lemma fails_clean_more [simp]:
  "fails_clean (sql_insert_template tm)" "fails_clean (sql_select_id i)"
  "fails_clean (sql_update_status i to allowed)" "fails_clean (\<lambda>t d. (Inr x, d))"
  "fails_clean (\<lambda>t d. (fst (sql_copy ns t d), d))"
  by (auto simp: fails_clean_def sql_insert_template_def sql_select_id_def sql_update_status_def
      sql_copy_def foreign_error_def Let_def dest: copy_rows_foreign split: sum.splits option.splits
      prod.splits if_splits)

section \<open>Services\<close>

lemma Create_fault:
  assumes "Create n w = (Inl e, w')" "client_fault e"
  shows "untouched w w'"
  using assms db_call_no_fault [OF fails_clean_insert] db_call_fails_clean(2) [OF fails_clean_insert]
  by (auto simp: Create_def isIdempotencyKeyViolation_def
      split: prod.splits sum.splits if_splits option.splits)

lemma Service_Create_fault:
  assumes "Service_Create sv ctx inp w = (Inl e, w')" "client_fault e"
  shows "untouched w w'"
proof -
  obtain now w1 where 1: "Now w = (now, w1)" by fastforce
  obtain r rs w2 where 2: "resolveContent sv newTemplateResolver inp w1 = (r, rs, w2)"
    by (rule prod_cases3)
  have q: "quiet w w2" using Now_quiet [OF 1] resolveContent_quiet [OF 2] by (rule quiet_trans)
  show ?thesis
  proof (cases r)
    case (Inl x)
    with assms(1) 1 2 q show ?thesis by (auto simp: Service_Create_def intro: quiet_untouched)
  next
    case (Inr body)
    obtain n w3 where 3: "newNotification inp body now None w2 = (n, w3)" by fastforce
    have q: "untouched w w3"
      using q newNotification_quiet [OF 3] by (blast intro: quiet_untouched untouched_trans)
    show ?thesis
    proof (cases "ValidateNew n now")
      case (Some x)
      with assms(1) 1 2 3 Inr q show ?thesis by (simp add: Service_Create_def)
    next
      case None
      obtain y w4 where 4: "Create n w3 = (y, w4)" by fastforce
      with assms(1) 1 2 3 Inr None obtain x where y: "y = Inl x"
        by (cases y) (auto simp: Service_Create_def Let_def split: if_splits prod.splits)
      show ?thesis
      proof (cases "cause x = ErrDuplicateIdempotencyKey \<and> ci_idempotency_key inp \<noteq> None")
        case True
        have "untouched w w4"
          using q Create_fault [of n w3 x w4] 4 y True
          by (auto simp: client_fault_def intro: untouched_trans)
        with assms(1) 1 2 3 4 y Inr None True show ?thesis
          by (auto simp: Service_Create_def split: prod.splits sum.splits
              dest!: reads_quiet(2) quiet_untouched intro: untouched_trans)
      next
        case False
        with assms(1) 1 2 3 4 y Inr None have "e = Wrap [Plain ''create notification''] x" "w' = w4"
          by (auto simp: Service_Create_def split: option.splits bool.splits)
        with assms(2) q Create_fault [of n w3 x w4] 4 y show ?thesis
          by (auto intro: untouched_trans)
      qed
    qed
  qed
qed

lemma GetByID_Inl:
  assumes "GetByID i w = (Inl e, w')" "client_fault e"
  shows "cause e = ErrNotFound"
  using assms db_call_no_fault [OF fails_clean_more(2)]
  by (auto simp: GetByID_def split: prod.splits sum.splits if_splits)

lemma UpdateStatus_Inl:
  assumes "UpdateStatus i to src w = (Inl e, w')" "client_fault e"
  shows "e \<in> {ErrNotFound, ErrInvalidTransition}"
  using assms db_call_no_fault [OF fails_clean_more(3)] GetByID_Inl
  by (auto simp: UpdateStatus_def split: prod.splits sum.splits if_splits)

lemma Service_Cancel_fault:
  assumes ok: "db_ok (db w)" and c: "Service_Cancel i w = (Inl e, w')" and f: "client_fault e"
  shows "untouched w w'"
proof -
  obtain y w1 where u: "UpdateStatus i StatusCancelled CancellableStatuses w = (y, w1)" by fastforce
  show ?thesis
  proof (cases y)
    case (Inl x)
    with c u f have "client_fault x" "w' = w1"
      by (auto simp: Service_Cancel_def split: if_splits)
    with UpdateStatus_Inl [of i StatusCancelled] u Inl
    have x: "x \<in> {ErrNotFound, ErrInvalidTransition}" by blast
    then have "cause x \<in> {ErrNotFound, ErrInvalidTransition}" by auto
    with UpdateStatus_refused [OF ok u [unfolded Inl]] UpdateStatus_frame [OF u] \<open>w' = w1\<close>
      world_le_later [OF UpdateStatus_cancel_le [OF u]]
    show ?thesis by (simp add: untouched_def)
  next
    case (Inr z)
    from UpdateStatus_Inr [OF ok] u Inr obtain r where r: "find_row i (db w1) = Some r"
      by (cases z) blast
    obtain x w2 where g: "GetByID i w1 = (x, w2)" by fastforce
    with c u Inr obtain e2 where e2: "x = Inl e2" "e = Wrap [Plain ''load cancelled notification''] e2"
      by (cases x) (auto simp: Service_Cancel_def)
    with f g GetByID_Inl [of i w1 e2 w2] GetByID_NotFound [of i w1 e2 w2] r show ?thesis by simp
  qed
qed

lemma Repo_CreateBatch_fault:
  assumes "Repo_CreateBatch ns w = (Inl e, w')" "client_fault e"
  shows "untouched w w'"
proof (cases "ns = []")
  case False
  let ?open = "\<lambda>t d. (Inr (), d) :: unit result \<times> database"
  let ?copy = "\<lambda>t d. (fst (sql_copy ns t d), d)"
  obtain x w1 where 1: "db_call ?open w = (x, w1)" by fastforce
  obtain y w2 where 2: "db_call ?copy w1 = (y, w2)" by fastforce
  obtain z w3 where 3: "db_call (sql_copy ns) w2 = (z, w3)" by fastforce
  have u1: "untouched w w1"
    using 1 query_quiet [of ?open] by (simp add: quiet_untouched)
  have u2: "untouched w1 w2"
    using 2 query_quiet [of ?copy] by (simp add: quiet_untouched)
  have "\<not> client_fault e'" if "db_call ?open w = (Inl e', w1)" for e'
    using db_call_no_fault [OF fails_clean_more(4) that] .
  with assms False 1 2 3 db_call_no_fault [OF fails_clean_copy] have "w' = w2"
    by (auto simp: Repo_CreateBatch_def split: sum.splits if_splits)
  with u1 u2 show ?thesis by (blast intro: untouched_trans)
qed (use assms in \<open>simp add: Repo_CreateBatch_def\<close>)

lemma CreateBatch_fault:
  assumes "CreateBatch sv ctx inps w = (Inl e, w')" "client_fault e"
  shows "untouched w w'"
  using assms(1)
proof (cases rule: CreateBatch_cases)
  case (early e')
  then show ?thesis by (simp add: quiet_untouched)
next
  case (run now batch keys st w4 y w5)
  from run(4) obtain x where y: "y = Inl x" "e = Wrap [Plain ''insert batch''] x" "w' = w5"
    by (cases y) auto
  with assms(2) run(3) Repo_CreateBatch_fault [of _ w4 x w5] have "untouched w4 w5" by simp
  with run(2) y(3) show ?thesis by (blast intro: quiet_untouched untouched_trans)
qed

lemma Repo_CreateTemplate_fault:
  assumes "Repo_CreateTemplate tm w = (Inl e, w')" "client_fault e"
  shows "untouched w w'"
  using assms db_call_no_fault [OF fails_clean_more(1)] db_call_fails_clean(2) [OF fails_clean_more(1)]
  by (auto simp: Repo_CreateTemplate_def split: prod.splits sum.splits if_splits option.splits)

lemma Template_Create_fault:
  assumes "Template_Create inp w = (Inl e, w')" "client_fault e"
  shows "untouched w w'"
proof -
  obtain now w1 where 1: "Now w = (now, w1)" by fastforce
  obtain i w2 where 2: "uuid_New w1 = (i, w2)" by fastforce
  have "untouched w w2"
    using Now_quiet [OF 1] uuid_New_quiet [OF 2] by (blast intro: quiet_untouched quiet_trans)
  with assms 1 2 show ?thesis
    by (auto simp: Template_Create_def Let_def split: option.splits sum.splits prod.splits
        dest!: Repo_CreateTemplate_fault intro: untouched_trans)
qed

section \<open>Handlers\<close>

lemma response_status [simp]:
  "hs_status (writeErrorResponse c m errs) = c" "hs_status (writeJSONResponse c b) = c"
  by (simp_all add: writeErrorResponse_def writeJSONResponse_def)

definition client_error :: "http_response \<Rightarrow> bool" where
  "client_error resp \<longleftrightarrow> 400 \<le> hs_status resp \<and> hs_status resp < 500"

lemma client_error_response [simp]:
  "client_error (writeErrorResponse c m errs) \<longleftrightarrow> 400 \<le> c \<and> c < 500"
  "client_error (writeJSONResponse c b) \<longleftrightarrow> 400 \<le> c \<and> c < 500"
  by (simp_all add: client_error_def)

lemma writeInternalError_no_client_error [simp]: "\<not> client_error writeInternalError"
  by (simp add: writeInternalError_def)

lemma service_error_fault: "client_error (writeServiceError e) \<Longrightarrow> client_fault e"
  by (auto simp: writeServiceError_def client_fault_def split: option.splits if_splits)

lemma notifications_create_refused:
  "notifications_create h e ctx req w = (resp, w') \<Longrightarrow> client_error resp \<Longrightarrow> untouched w w'"
  by (auto simp: notifications_create_def split: sum.splits prod.splits if_splits
      dest: service_error_fault Service_Create_fault)

lemma notifications_createBatch_refused:
  "notifications_createBatch h e ctx req w = (resp, w') \<Longrightarrow> client_error resp \<Longrightarrow> untouched w w'"
  by (auto simp: notifications_createBatch_def split: sum.splits prod.splits if_splits
      dest: service_error_fault CreateBatch_fault)

lemma Service_Get_quiet: "Service_Get i w = (r, w') \<Longrightarrow> quiet w w'"
  by (auto simp: Service_Get_def split: method_splits dest: reads_quiet(1))

lemma Service_List_quiet: "Service_List q w = (r, w') \<Longrightarrow> quiet w w'"
  by (auto simp: Service_List_def Let_def split: method_splits dest: reads_quiet(4))

lemma notifications_get_quiet: "notifications_get h e req w = (resp, w') \<Longrightarrow> quiet w w'"
  by (auto simp: notifications_get_def split: method_splits dest: Service_Get_quiet)

lemma notifications_list_quiet: "notifications_list h e req w = (resp, w') \<Longrightarrow> quiet w w'"
  by (auto simp: notifications_list_def split: method_splits dest: Service_List_quiet)

lemma notifications_cancel_refused:
  assumes "db_ok (db w)" "notifications_cancel h e req w = (resp, w')" "client_error resp"
  shows "untouched w w'"
proof -
  have f: "client_fault err" if "client_error (if cause err = ErrInvalidTransition
      then writeErrorResponse 409 m [] else writeServiceError err)" for err m
    using that by (auto simp: client_fault_def split: if_splits dest: service_error_fault)
  from assms(2,3) show ?thesis
    by (auto simp: notifications_cancel_def simp del: client_error_response
        split: option.splits sum.splits prod.splits
        dest!: Service_Cancel_fault [OF assms(1)] intro: f)
      (simp_all add: client_error_response)
qed

lemma templates_create_refused:
  assumes "templates_create e req w = (resp, w')" "client_error resp"
  shows "untouched w w'"
  using assms
  by (auto simp: templates_create_def client_fault_def split: option.splits sum.splits prod.splits if_splits
      dest!: Template_Create_fault)

lemma templates_read_quiet:
  "templates_get req w = (resp, w') \<Longrightarrow> quiet w w'" "templates_list w = (resp, w') \<Longrightarrow> quiet w w'"
  by (auto simp: templates_get_def templates_list_def Template_GetByName_def Template_List_def
      split: method_splits dest: reads_quiet(9,10))

lemma probe_queues_quiet: "probe_queues e names w = (r, w') \<Longrightarrow> quiet w w'"
proof (induction e names w arbitrary: r w' rule: probe_queues.induct)
  case (2 e name names w)
  then show ?case
    by (simp add: Let_def quiet_Suc split: if_splits option.splits sum.splits prod.splits)
qed simp

lemma QueueDepths_quiet: "QueueDepths e w = (r, w') \<Longrightarrow> quiet w w'"
  by (auto simp: QueueDepths_def Let_def split: if_splits dest!: probe_queues_quiet)

lemma getProvider_quiet: "getProvider d w = (resp, w') \<Longrightarrow> quiet w w'"
  by (auto simp: getProvider_def providerState_def split: method_splits dest: reads_quiet(7))

lemma setProvider_refused:
  "setProvider d e req w = (resp, w') \<Longrightarrow> client_error resp \<Longrightarrow> untouched w w'"
  by (auto simp: setProvider_def getProvider_def Let_def split: option.splits sum.splits prod.splits if_splits)

lemma control_pages_quiet:
  "getWorkerState w = (resp, w') \<Longrightarrow> quiet w w'" "getQueueDepths e w = (resp, w') \<Longrightarrow> quiet w w'"
  by (auto simp: getWorkerState_def getQueueDepths_def split: method_splits
      dest: reads_quiet(8) QueueDepths_quiet)

lemma setWorkerState_refused:
  "setWorkerState e req w = (resp, w') \<Longrightarrow> client_error resp \<Longrightarrow> untouched w w'"
  by (auto simp: setWorkerState_def split: option.splits sum.splits prod.splits)

section \<open>Any request\<close>

definition reads_only :: "(string \<times> check) list \<Rightarrow> bool" where
  "reads_only cs \<longleftrightarrow> (\<forall>c \<in> snd ` set cs. \<forall>w r w'. c w = (r, w') \<longrightarrow> quiet w w')"

lemma readiness_reads_only: "reads_only (readiness e)"
  by (auto simp: reads_only_def readiness_def ping_postgres_def check_rabbit_def
      split: sum.splits prod.splits dest: query_quiet [rotated])

lemma run_checks_quiet: "reads_only cs \<Longrightarrow> run_checks cs w = (rs, w') \<Longrightarrow> quiet w w'"
proof (induction cs arbitrary: w rs)
  case (Cons c cs)
  obtain name check where c: "c = (name, check)" by fastforce
  obtain r w1 where one: "check w = (r, w1)" by fastforce
  obtain rs2 w2 where rest: "run_checks cs w1 = (rs2, w2)" by fastforce
  have "quiet w w1" using Cons.prems(1) c one by (auto simp: reads_only_def)
  moreover have "w' = w2" using Cons.prems(2) c one rest by simp
  moreover have "quiet w1 w2"
    using Cons.IH [of w1 rs2] Cons.prems(1) rest \<open>w' = w2\<close> by (simp add: reads_only_def)
  ultimately show ?case by (blast intro: quiet_trans)
qed simp

lemma reads_only_rev [simp]: "reads_only (rev cs) = reads_only cs"
  by (simp add: reads_only_def)

lemma handleReadyz_quiet: "reads_only cs \<Longrightarrow> handleReadyz cs req w = (resp, w') \<Longrightarrow> quiet w w'"
  by (auto simp: handleReadyz_def Let_def split: prod.splits if_splits dest!: run_checks_quiet [rotated])

lemma summary_parts_quiet:
  "workerFetchAllowed lf w = (b, w') \<Longrightarrow> quiet w w'"
  "fetchWorkerFamilies e w = (fs, w') \<Longrightarrow> quiet w w'"
  "recordWorkerFetch failed w = (t, w') \<Longrightarrow> quiet w w'"
  "add_lifetime lt s w = (s', w') \<Longrightarrow> quiet w w'"
  by (auto simp: workerFetchAllowed_def fetchWorkerFamilies_def recordWorkerFetch_def add_lifetime_def
      split: if_splits prod.splits sum.splits dest: Now_quiet reads_quiet(6))

lemma add_worker_quiet: "add_worker e url lf s w = (s', lf', w') \<Longrightarrow> quiet w w'"
  by (auto simp: add_worker_def split: if_splits prod.splits option.splits
      dest!: summary_parts_quiet intro: quiet_trans)

lemma summary_serve_quiet:
  assumes "summary_serve e lt url lf w = (resp, lf', w')"
  shows "quiet w w'" "\<not> client_error resp"
  using assms
  by (auto simp: summary_serve_def split: sum.splits prod.splits
      dest!: add_worker_quiet summary_parts_quiet(4) intro: quiet_trans)

definition harmless :: "endpoint \<Rightarrow> bool" where
  "harmless ep \<longleftrightarrow> (\<forall>cs. ep = Readyz cs \<longrightarrow> reads_only cs)"

lemma page_eq: "serve_page r a = (out, a', w') \<longleftrightarrow> out = Served (fst r) \<and> a' = a \<and> w' = snd r"
  by (auto simp: serve_page_def split: prod.splits)

lemma store_Receive_refused:
  "store_Receive e req s w = (resp, s', w') \<Longrightarrow> client_error resp \<Longrightarrow> s' = s \<and> untouched w w'"
  by (auto simp: store_Receive_def client_error_def Let_def split: option.splits if_splits prod.splits)

lemmas untouched_pages =
  notifications_create_refused notifications_createBatch_refused
  templates_create_refused setProvider_refused setWorkerState_refused

lemmas quiet_pages =
  notifications_get_quiet notifications_list_quiet templates_read_quiet getProvider_quiet
  control_pages_quiet

lemma handle_refused:
  assumes "handle cfg sv e ep ctx req a w = (Served resp, a', w')" "client_error resp"
    and "db_ok (db w)" "harmless ep"
  shows "untouched w w' \<and> ap_store a' = ap_store a"
proof (cases ep)
  case (Readyz cs)
  with assms show ?thesis
    by (auto simp: page_eq harmless_def intro!: quiet_untouched handleReadyz_quiet prod_eqI)
next
  case MetricsSummary
  with assms show ?thesis
    by (auto split: prod.splits dest: summary_serve_quiet(2))
next
  case ProviderReceive
  with assms show ?thesis
    by (auto split: prod.splits dest: store_Receive_refused)
qed (use assms in \<open>auto simp: page_eq foreign_def getProviderMessages_def
    intro: untouched_pages [OF surjective_pairing] notifications_cancel_refused [OF _ surjective_pairing]
      quiet_untouched quiet_pages [OF surjective_pairing]\<close>)

text \<open>The chain around the handler adds clock readings, an identifier and a metric.\<close>

definition sound_routes :: "router_config \<Rightarrow> bool" where
  "sound_routes cfg \<longleftrightarrow> (\<forall>r \<in> set (NewRouter cfg). harmless (snd (snd r)))"

lemma main_routes_sound: "sound_routes (main_router c e)" "sound_routes (main_ops_router e)"
  by (auto simp: sound_routes_def NewRouter_def ops_routes_def api_routes_def dashboard_routes_def
      main_router_def main_ops_router_def harmless_def readiness_reads_only split: if_splits)

lemma dispatch_cases:
  assumes "dispatch cfg e ctx req a w = (out, a', w')"
  obtains
    (unrouted) resp where "out = Served resp" "a' = a" "w' = w"
  | (routed) sv ep req' where "ep \<in> snd ` snd ` set (NewRouter cfg)"
      "handle cfg sv e ep ctx req' a w = (out, a', w')"
      "rc_notifications cfg \<noteq> None \<longrightarrow> rc_notifications cfg = Some sv"
      "req' = req\<lparr>hr_param := hr_param req'\<rparr>"
proof -
  let ?m = "chi e (map (\<lambda>r. (fst r, fst (snd r))) (NewRouter cfg)) (hr_method req) (hr_path req)"
  show ?thesis
  proof (cases "\<exists>k. cm_route ?m = Some k \<and> k < length (NewRouter cfg)")
    case True
    then obtain k where k: "cm_route ?m = Some k" "k < length (NewRouter cfg)" by blast
    from assms k show ?thesis
      by (intro routed [of "snd (snd (NewRouter cfg ! k))" _ "req\<lparr>hr_param := cm_param ?m\<rparr>"])
        (auto simp: dispatch_def Let_def image_image split: option.splits)
  next
    case False
    with assms show ?thesis
      by (intro unrouted [of "cm_reply ?m"]) (auto simp: dispatch_def Let_def split: option.splits)
  qed
qed

lemma recoverPanic_cases:
  assumes "recoverPanic r = (out, a, w)"
  obtains "r = (out, a, w)" | b where "r = (Panicked b, a, w)" "out = Served
      \<lparr>hs_status = 500, hs_body = TextBody ''Internal Server Error''\<rparr>"
  using assms by (auto simp: recoverPanic_def split: outcome.splits prod.splits if_splits)

lemma requestLogger_cases:
  assumes "requestLogger inner w = (out, a, w')"
  obtains w1 w2 where "quiet w w1" "inner w1 = (out, a, w2)" "quiet w2 w'"
  using assms
  by (auto simp: requestLogger_def Now_def split: prod.splits outcome.splits)

lemma httpMetrics_cases:
  assumes "httpMetrics rt meth inner w = (out, a, w')"
  obtains w1 w2 where "quiet w w1" "inner w1 = (out, a, w2)" "untouched w2 w'"
proof -
  obtain out2 a2 w2 where i: "inner (snd (Now w)) = (out2, a2, w2)" by (rule prod_cases3)
  show ?thesis
    by (rule that [of "snd (Now w)" w2])
      (use assms i in \<open>auto simp: httpMetrics_def Now_def split: outcome.splits
        intro: untouched_steps [OF untouched_refl]\<close>)
qed

lemma correlationID_quiet: "correlationID req w = (r, w') \<Longrightarrow> quiet w w'"
  by (auto simp: correlationID_def split: if_splits prod.splits dest: uuid_New_quiet)

lemma ServeHTTP_cases:
  assumes "ServeHTTP cfg e req a w = (rid, out, a', w')"
  obtains w1 w2 where "quiet w w1" "recoverPanic (dispatch cfg e rid req a w1) = (out, a', w2)"
    "untouched w2 w'"
proof -
  let ?inner = "\<lambda>rid. requestLogger (\<lambda>w. recoverPanic (dispatch cfg e rid req a w))"
  obtain r w0 where c: "correlationID req w = (r, w0)" by fastforce
  with assms have r: "r = rid" "(if rc_metrics cfg
      then httpMetrics (route_pattern cfg e req) (hr_method req) (?inner rid) w0
      else ?inner rid w0) = (out, a', w')"
    by (auto simp: ServeHTTP_def Let_def)
  obtain wa wb where ab: "quiet w0 wa" "?inner rid wa = (out, a', wb)" "untouched wb w'"
  proof (cases "rc_metrics cfg")
    case True
    with r(2) show ?thesis by (auto elim!: httpMetrics_cases intro: that)
  next
    case False
    with r(2) show ?thesis by (auto intro: that)
  qed
  from ab(2) obtain w1 w2 where "quiet wa w1" "recoverPanic (dispatch cfg e rid req a w1) = (out, a', w2)"
    "quiet w2 wb" by (rule requestLogger_cases)
  with ab correlationID_quiet [OF c] show ?thesis
    by (blast intro: that quiet_trans quiet_untouched untouched_trans)
qed

lemma ServeHTTP_refused:
  assumes "ServeHTTP cfg e req a w = (rid, Served resp, a', w')" "client_error resp"
    and ok: "db_ok (db w)" and sound: "sound_routes cfg"
  shows "untouched w w' \<and> ap_store a' = ap_store a"
proof -
  from assms(1) obtain w1 w2 where m: "quiet w w1"
    "recoverPanic (dispatch cfg e rid req a w1) = (Served resp, a', w2)" "untouched w2 w'"
    by (rule ServeHTTP_cases)
  from m(2) assms(2) have d: "dispatch cfg e rid req a w1 = (Served resp, a', w2)"
    by (auto elim!: recoverPanic_cases simp: client_error_def)
  have ok1: "db_ok (db w1)" using ok quietD(1) [OF m(1)] by simp
  from d have "untouched w1 w2 \<and> ap_store a' = ap_store a"
  proof (cases rule: dispatch_cases)
    case (routed sv ep req')
    with sound have "harmless ep" by (auto simp: sound_routes_def)
    with handle_refused [OF routed(2) assms(2) ok1] show ?thesis by blast
  qed simp
  with m(1,3) show ?thesis by (blast intro: quiet_untouched untouched_trans)
qed

section \<open>Every request is a legal move\<close>

lemma Template_Create_le: "Template_Create inp w = (r, w') \<Longrightarrow> world_le w w'"
  by (auto simp: Template_Create_def Let_def split: method_splits
      dest!: Now_le uuid_New_le template_le(1) intro: world_le_trans)

lemma page_writes_le:
  "notifications_create h e ctx req w = (r, w') \<Longrightarrow> world_le w w'"
  "notifications_createBatch h e ctx req w = (r, w') \<Longrightarrow> world_le w w'"
  "notifications_cancel h e req w = (r, w') \<Longrightarrow> world_le w w'"
  "templates_create e req w = (r, w') \<Longrightarrow> world_le w w'"
  "setWorkerState e req w = (r, w') \<Longrightarrow> world_le w w'"
  by (auto simp: notifications_create_def notifications_createBatch_def notifications_cancel_def
      templates_create_def setWorkerState_def split: sum.splits prod.splits option.splits if_splits
      dest: Service_Create_le CreateBatch_le Service_Cancel_le Template_Create_le control_le(4))

lemma setProvider_le: "setProvider d e req w = (r, w') \<Longrightarrow> world_le w w'"
  by (auto simp: setProvider_def Let_def split: option.splits if_splits prod.splits sum.splits
      dest!: control_le(2) getProvider_quiet quiet_untouched untouched_le intro: world_le_trans)

lemma store_Receive_quiet: "store_Receive e req s w = (r, s', w') \<Longrightarrow> quiet w w'"
  by (auto simp: store_Receive_def Let_def split: option.splits if_splits prod.splits
      dest!: uuid_New_quiet Now_quiet intro: quiet_trans)

lemma quiet_le: "quiet w w' \<Longrightarrow> world_le w w'"
  by (rule quietD)

lemma handle_le:
  assumes "handle cfg sv e ep ctx req a w = (out, a', w')" "harmless ep"
  shows "world_le w w'"
proof (cases ep)
  case (Readyz cs)
  with assms show ?thesis
    by (auto simp: page_eq harmless_def intro!: quiet_le handleReadyz_quiet prod_eqI)
next
  case MetricsSummary
  with assms show ?thesis by (auto split: prod.splits dest: summary_serve_quiet(1) quiet_le)
next
  case ProviderReceive
  with assms show ?thesis by (auto split: prod.splits dest: store_Receive_quiet quiet_le)
qed (use assms in \<open>auto simp: page_eq foreign_def
    intro: page_writes_le [OF surjective_pairing] setProvider_le [OF surjective_pairing]
      quiet_le quiet_pages [OF surjective_pairing]\<close>)

lemma dispatch_le:
  assumes "dispatch cfg e rid req a w = (out, a', w')" "sound_routes cfg"
  shows "world_le w w'"
  using assms(1)
proof (cases rule: dispatch_cases)
  case (routed sv ep req')
  with assms(2) show ?thesis by (intro handle_le [OF routed(2)]) (auto simp: sound_routes_def)
qed simp

lemma ServeHTTP_le:
  assumes "ServeHTTP cfg e req a w = (rid, out, a', w')" "sound_routes cfg"
  shows "world_le w w'"
  using assms(1)
proof (cases rule: ServeHTTP_cases)
  case (1 w1 w2)
  from 1(2) have "world_le w1 w2"
    by (rule recoverPanic_cases) (auto intro: dispatch_le [OF _ assms(2)])
  with 1(1,3) show ?thesis by (blast intro: quiet_le untouched_le world_le_trans)
qed

lemma poll_tick_untouched: "untouched w (poll_tick e w)"
proof -
  have m: "untouched w (foldl (\<lambda>w (name, ready). w\<lparr>metrics := SetQueueDepth name ready (metrics w)\<rparr>) w ds)"
    for w ds
  proof (induction ds arbitrary: w)
    case (Cons d ds)
    obtain n r where "d = (n, r)" by (cases d)
    have "untouched w (w\<lparr>metrics := SetQueueDepth n r (metrics w)\<rparr>)" by simp
    from untouched_trans [OF this Cons] \<open>d = (n, r)\<close> show ?case by simp
  qed simp
  show ?thesis
    by (auto simp: poll_tick_def split: prod.splits sum.splits
        dest!: QueueDepths_quiet quiet_untouched intro: untouched_trans [OF _ m])
qed

lemma pollQueueDepths_le: "world_le w (pollQueueDepths e k w)"
  unfolding pollQueueDepths_def
  by (induction k) (auto intro: world_le_trans untouched_le poll_tick_untouched)

section \<open>A router without the notification API\<close>

lemma ops_dispatch_quiet:
  assumes "dispatch cfg e rid req a w = (out, a', w')" "rc_notifications cfg = None" "sound_routes cfg"
  shows "quiet w w' \<and> a' = a"
  using assms(1)
proof (cases rule: dispatch_cases)
  case (routed sv ep req')
  then have "ep \<in> {Healthz, LiveStream, MetricsPage, SwaggerUI, OpenAPISpec} \<or> (\<exists>cs. ep = Readyz cs)"
    using assms(2) by (auto simp: NewRouter_def ops_routes_def split: option.splits if_splits)
  moreover have "harmless ep" using routed(1) assms(3) by (auto simp: sound_routes_def)
  ultimately show ?thesis
    using routed(2) by (auto simp: foreign_def page_eq harmless_def
        intro: handleReadyz_quiet [OF _ surjective_pairing])
qed simp

lemma ops_ServeHTTP_untouched:
  assumes "ServeHTTP cfg e req a w = (rid, out, a', w')" "rc_notifications cfg = None" "sound_routes cfg"
  shows "untouched w w' \<and> a' = a"
  using assms(1)
proof (cases rule: ServeHTTP_cases)
  case (1 w1 w2)
  from 1(2) have "quiet w1 w2 \<and> a' = a"
    by (rule recoverPanic_cases) (auto dest: ops_dispatch_quiet [OF _ assms(2,3)])
  with 1(1,3) show ?thesis by (blast intro: quiet_untouched untouched_trans)
qed

section \<open>The built-in provider's inbox\<close>

text \<open>After any messages the inbox holds the last 200 of them, and lists them newest first.\<close>

lemma store_adds:
  "foldl (\<lambda>s m. store_add m s) [] ms = drop (length ms - bufferSize) ms"
proof (induction ms rule: rev_induct)
  case (snoc m ms)
  show ?case
  proof (cases "length ms < bufferSize")
    case True
    with snoc show ?thesis by (simp add: store_add_def Let_def)
  next
    case False
    then have "length (drop (length ms - bufferSize) ms) = bufferSize" by simp
    moreover have "0 < bufferSize" by (simp add: bufferSize_def)
    ultimately show ?thesis using snoc False by (simp add: store_add_def Let_def Suc_diff_le)
  qed
qed simp

lemma store_Recent_newest:
  "store_Recent (foldl (\<lambda>s m. store_add m s) [] ms) = take bufferSize (rev ms)"
  by (cases "length ms \<le> bufferSize") (simp_all add: store_Recent_def store_adds rev_drop)

end
