(* ===== verification/Operations.thy ===== *)
theory Operations
  imports SchedulerFacts WorkerFacts ApiFacts
begin

text \<open>
  The operations of the processes over one world, as data: what a caller of the services, an HTTP
  request, the scheduler's ticker, the poller of the queue depths and a delivery of the broker
  can ask for, and any history of them.
\<close>

datatype operation =
    OpCreate ctx create_input
  | OpCreateBatch ctx "create_input list"
  | OpGet uuid
  | OpList list_query
  | OpCancel uuid
  | OpCreateTemplate create_template_input
  | OpSetPaused bool
  | OpSetProvider string
  | OpPoll ctx
  | OpDelivery ctx publishing
  | OpPauseCheck
  | OpRequest config edge http_request api
  | OpDepthPoll edge

fun perform ::
  "service \<Rightarrow> scheduler \<Rightarrow> operation \<Rightarrow> worker \<times> world \<Rightarrow> worker \<times> world" where
  "perform sv sc (OpCreate ctx inp) (wk, w) = (wk, snd (Service_Create sv ctx inp w))"
| "perform sv sc (OpCreateBatch ctx inps) (wk, w) = (wk, snd (CreateBatch sv ctx inps w))"
| "perform sv sc (OpGet i) (wk, w) = (wk, snd (Service_Get i w))"
| "perform sv sc (OpList q) (wk, w) = (wk, snd (Service_List q w))"
| "perform sv sc (OpCancel i) (wk, w) = (wk, snd (Service_Cancel i w))"
| "perform sv sc (OpCreateTemplate inp) (wk, w) = (wk, snd (Template_Create inp w))"
| "perform sv sc (OpSetPaused p) (wk, w) = (wk, snd (SetWorkerPaused p w))"
| "perform sv sc (OpSetProvider u) (wk, w) = (wk, snd (SetProviderOverride u w))"
| "perform sv sc (OpPoll ctx) (wk, w) = (wk, RunOnce sc ctx w)"
| "perform sv sc (OpDelivery ctx p) (wk, w) = snd (handleDelivery wk ctx p w)"
| "perform sv sc OpPauseCheck (wk, w) = snd (isPaused wk w)"
| "perform sv sc (OpRequest c e req a) (wk, w) =
     (wk, snd (snd (snd (ServeHTTP (main_router c e) e req a w))))"
| "perform sv sc (OpDepthPoll e) (wk, w) = (wk, poll_tick e w)"

definition history ::
  "service \<Rightarrow> scheduler \<Rightarrow> operation list \<Rightarrow> worker \<times> world \<Rightarrow> worker \<times> world" where
  "history sv sc ops s = foldl (\<lambda>s p. perform sv sc p s) s ops"

lemma isPaused_le: "isPaused wk w = (b, wk', w') \<Longrightarrow> world_le w w'"
  by (auto simp: isPaused_def split: method_splits dest!: control_le(3))

lemma perform_le: "world_le (snd s) (snd (perform sv sc p s))"
proof -
  obtain wk w where s: "s = (wk, w)" by (cases s)
  show ?thesis
  proof (cases p)
    case (OpDelivery ctx q)
    obtain a b c where "handleDelivery wk ctx q w = (a, b, c)" by (rule prod_cases3)
    with s OpDelivery show ?thesis by (auto dest: handleDelivery_le)
  next
    case OpPauseCheck
    obtain a b c where "isPaused wk w = (a, b, c)" by (rule prod_cases3)
    with s OpPauseCheck show ?thesis by (auto dest: isPaused_le)
  next
    case (OpRequest c e req a)
    obtain rid out a' w' where "ServeHTTP (main_router c e) e req a w = (rid, out, a', w')"
      by (rule prod_cases4)
    with s OpRequest show ?thesis by (auto dest: ServeHTTP_le [OF _ main_routes_sound(1)])
  qed (use s in \<open>auto intro: Service_Create_le [OF surjective_pairing] RunOnce_le
      CreateBatch_le [OF surjective_pairing] untouched_le [OF poll_tick_untouched]
      quiet_le [OF Service_Get_quiet [OF surjective_pairing]]
      quiet_le [OF Service_List_quiet [OF surjective_pairing]] Service_Cancel_le [OF surjective_pairing]
      Template_Create_le [OF surjective_pairing] control_le [OF surjective_pairing]\<close>)
qed

lemma history_le: "world_le (snd s) (snd (history sv sc ops s))"
proof (induction ops arbitrary: s)
  case (Cons p ops)
  have "world_le (snd s) (snd (perform sv sc p s))" by (rule perform_le)
  also have "world_le \<dots> (snd (history sv sc ops (perform sv sc p s)))" by (rule Cons.IH)
  finally show ?case by (simp add: history_def)
qed (simp add: history_def)

end
