(* ===== verification/Statements.thy ===== *)
theory Statements
  imports World
begin

text \<open>
  The writes that the other components issue while a worker is busy: the service's inserts,
  cancellations and queued marks, the scheduler's claims, recoveries and touches, and the
  control row. The locale \<open>transition_store\<close> draws the consequences for any interleaving.
\<close>

datatype statement =
    SInsert notification
  | SCopy "notification list"
  | SCancel uuid
  | SMarkQueued uuid
  | SMarkQueuedBulk "uuid list"
  | STouchQueued uuid
  | SClaimDue duration int "uuid \<Rightarrow> bool"
  | SRecoverStale duration int "uuid \<Rightarrow> bool"
  | SInsertTemplate template
  | SSetPaused bool
  | SSetProvider string

fun exec :: "statement \<Rightarrow> time \<Rightarrow> database \<Rightarrow> database" where
  "exec (SInsert n) t d = snd (sql_insert n t d)"
| "exec (SCopy ns) t d = snd (sql_copy ns t d)"
| "exec (SCancel i) t d =
     snd (sql_update_status i StatusCancelled (map status_string CancellableStatuses) t d)"
| "exec (SMarkQueued i) t d =
     snd (sql_update_status i StatusQueued (map status_string [StatusPending]) t d)"
| "exec (SMarkQueuedBulk ids) t d = snd (sql_mark_queued_bulk ids t d)"
| "exec (STouchQueued i) t d = snd (sql_touch_queued i t d)"
| "exec (SClaimDue s l k) t d = snd (sql_claim_due s l k t d)"
| "exec (SRecoverStale s l k) t d = snd (sql_recover_stale s l k t d)"
| "exec (SInsertTemplate tm) t d = snd (sql_insert_template tm t d)"
| "exec (SSetPaused p) t d = snd (sql_set_paused p t d)"
| "exec (SSetProvider u) t d = snd (sql_set_provider u t d)"

text \<open>The service only inserts what \<open>newNotification\<close> builds.\<close>

fun issued :: "statement \<Rightarrow> bool" where
  "issued (SInsert n) = fresh_status n"
| "issued (SCopy ns) = (\<forall>n \<in> set ns. fresh_status n)"
| "issued st = True"

lemma exec_legal: "issued st \<Longrightarrow> db_ok d \<Longrightarrow> db_ok (exec st t d) \<and> db_step d (exec st t d)"
proof (cases st)
  case (SInsert n)
  then show "issued st \<Longrightarrow> db_ok d \<Longrightarrow> db_ok (exec st t d) \<and> db_step d (exec st t d)"
    using legal_insert [of n] by (auto simp: legal_stmt_def)
next
  case (SCopy ns)
  then show "issued st \<Longrightarrow> db_ok d \<Longrightarrow> db_ok (exec st t d) \<and> db_step d (exec st t d)"
    using legal_copy [of ns] by (auto simp: legal_stmt_def)
qed (use legal_cancel legal_mark_queued legal_outcomes legal_scheduler legal_insert_template
      legal_control in \<open>simp_all add: legal_stmt_def\<close>)

section \<open>Any interleaving of statements\<close>

locale transition_store =
  fixes run :: "'s \<Rightarrow> time \<Rightarrow> database \<Rightarrow> database"
    and allowed :: "'s \<Rightarrow> bool"
  assumes run_ok: "allowed s \<Longrightarrow> db_ok d \<Longrightarrow> db_ok (run s t d)"
    and run_step: "allowed s \<Longrightarrow> db_ok d \<Longrightarrow> db_step d (run s t d)"
begin

definition run_all :: "('s \<times> time) list \<Rightarrow> database \<Rightarrow> database" where
  "run_all ss d = foldl (\<lambda>d (s, t). run s t d) d ss"

lemma run_all_Cons [simp]: "run_all ((s, t) # ss) d = run_all ss (run s t d)"
  by (simp add: run_all_def)

lemma run_all_Nil [simp]: "run_all [] d = d"
  by (simp add: run_all_def)

lemma run_all_evolves:
  "\<forall>s \<in> fst ` set ss. allowed s \<Longrightarrow> db_ok d \<Longrightarrow> db_ok (run_all ss d) \<and> db_evolves d (run_all ss d)"
proof (induction ss arbitrary: d)
  case (Cons st ss)
  obtain s t where st: "st = (s, t)" by fastforce
  with Cons.prems have "db_ok (run s t d)" "db_evolves d (run s t d)"
    by (auto intro: run_ok run_step db_step_evolves)
  with Cons st show ?case by (auto intro: db_evolves_trans)
qed simp

lemma run_all_terminal:
  assumes "\<forall>s \<in> fst ` set ss. allowed s" "db_ok d" "find_row i d = Some r" "terminal (status r)"
  shows "find_row i (run_all ss d) = Some r"
  using run_all_evolves [OF assms(1,2)] assms(3,4) db_evolves_terminal by blast

lemma run_all_path:
  assumes "\<forall>s \<in> fst ` set ss. allowed s" "db_ok d" "find_row i d = Some r"
  obtains r' where "find_row i (run_all ss d) = Some r'" "same_identity r r'"
    "CanTransition\<^sup>*\<^sup>* (status r) (status r')" "attempts r \<le> attempts r'"
proof -
  from run_all_evolves [OF assms(1,2)] assms(3) obtain r' where
    "find_row i (run_all ss d) = Some r'" "row_evolves r r'"
    by (auto simp: db_evolves_def)
  with that show thesis
    using row_evolves_identity row_evolves_status row_evolves_attempts by blast
qed

end

interpretation others: transition_store exec issued
  by unfold_locales (simp_all add: exec_legal)

section \<open>What the other components leave alone\<close>

text \<open>
  Only a recovery takes a row out of processing, and none of these statements takes a row into
  processing or counts an attempt.
\<close>

definition recovers :: "statement \<Rightarrow> time \<Rightarrow> database \<Rightarrow> uuid set" where
  "recovers st t d =
     (case st of
        SRecoverStale s l k \<Rightarrow> set (select_ids (stale_in StatusProcessing s t) updated_at l k
          (notifications d))
      | _ \<Rightarrow> {})"

definition undisturbed :: "notification \<Rightarrow> notification \<Rightarrow> bool" where
  "undisturbed r r' \<longleftrightarrow> attempts r' = attempts r \<and>
     (status r = StatusProcessing \<longrightarrow> r' = r) \<and> (status r' = StatusProcessing \<longrightarrow> r' = r)"

lemma undisturbed_refl [simp]: "undisturbed r r"
  by (simp add: undisturbed_def)

lemma update_undisturbed:
  assumes "keeps_identity f" "find_row i d = Some r"
    and "P r \<Longrightarrow> undisturbed r (f r)"
  shows "\<exists>r'. find_row i (snd (update_returning P f d)) = Some r' \<and> undisturbed r r'"
  using assms by (auto simp: find_row_update)

lemma status_undisturbed:
  "status r \<noteq> StatusProcessing \<Longrightarrow> s \<noteq> StatusProcessing \<Longrightarrow>
   undisturbed r (r\<lparr>status := s, updated_at := t\<rparr>)"
  by (simp add: undisturbed_def)

lemma touch_undisturbed: "status r = StatusQueued \<Longrightarrow> undisturbed r (r\<lparr>updated_at := t\<rparr>)"
  by (simp add: undisturbed_def)

lemma exec_undisturbed:
  assumes ok: "db_ok d" and row: "find_row i d = Some r" and i: "i \<notin> recovers st t d"
  shows "\<exists>r'. find_row i (exec st t d) = Some r' \<and> undisturbed r r'"
proof (cases st)
  case (SInsert n)
  with row show ?thesis
    by (auto simp: sql_insert_def find_row_def dest: insert_row_find split: sum.splits)
next
  case (SCopy ns)
  with row show ?thesis
    by (auto simp: sql_copy_def find_row_def dest: copy_rows_find split: sum.splits)
next
  case (SCancel j)
  have "undisturbed r (r\<lparr>status := StatusCancelled, updated_at := t\<rparr>)"
    if "status r \<in> set CancellableStatuses"
    using that by (auto simp: undisturbed_def CancellableStatuses_def CanTransition_iff)
  with SCancel row show ?thesis
    by (auto simp: snd_update_status intro!: update_undisturbed)
next
  case (SMarkQueued j)
  with row show ?thesis
    by (auto simp: snd_update_status intro!: update_undisturbed status_undisturbed
        simp del: status_string.simps)
next
  case (SMarkQueuedBulk ids)
  with row show ?thesis
    by (auto simp: sql_mark_queued_bulk_def intro!: update_undisturbed status_undisturbed)
next
  case (STouchQueued j)
  with row show ?thesis
    by (auto simp: sql_touch_queued_def intro!: update_undisturbed touch_undisturbed)
next
  case (SClaimDue s l k)
  have "undisturbed r (r\<lparr>status := StatusQueued, updated_at := t\<rparr>)"
    if "nid r \<in> set (select_ids (due s t) created_at l k (notifications d))"
    using claim_due_row [OF ok _ that] row find_row_iff [OF ok] by (auto simp: undisturbed_def)
  with SClaimDue row show ?thesis
    by (auto simp: snd_claim_due intro!: update_undisturbed)
next
  case (SRecoverStale s l k)
  with i row db_ok_rowD [OF ok row] show ?thesis
    by (auto simp: snd_recover_stale recovers_def intro!: update_undisturbed)
next
  case (SInsertTemplate tm)
  with row show ?thesis by (auto simp: sql_insert_template_def find_row_def)
qed (use row in \<open>auto simp: sql_set_paused_def sql_set_provider_def find_row_def\<close>)

end
