(* ===== verification/System.thy ===== *)
theory System
  imports Statements WorkerFacts
begin

text \<open>
  Many handler goroutines in many processes, and everybody else, on one database and one broker.
  A handler runs \<open>processNotification\<close> in pieces, one external interaction that matters per
  piece; between any two pieces other handlers and the other components may act, a process may
  die, and any message may be delivered again at any time. \<open>run_handler\<close> proves that the pieces in
  sequence are \<open>processNotification\<close>.
\<close>

section \<open>One handler in pieces\<close>

datatype pc =
    Settled "unit result"
  | Start uuid
  | Claimed uuid notification
  | Releasing notification error
  | Ready uuid notification
  | SendFailed notification error
  | SendOk uuid notification send_result
  | RetryMarked notification error
  | FailMarked notification error
  | SentMarked notification send_result

text \<open>Sending: measure, call the provider, record the attempt.\<close>

definition send_piece ::
  "worker \<Rightarrow> notification \<Rightarrow> world \<Rightarrow> send_result result \<times> worker \<times> world" where
  "send_piece wk n w =
     (case Now w of (sendStarted, w1) \<Rightarrow>
      case Switchable_Send (wk_sender wk) n w1 of (r, s', w2) \<Rightarrow>
      case Now w2 of (sendEnded, w3) \<Rightarrow>
      let wk' = wk\<lparr>wk_sender := s'\<rparr>; dur = sendEnded - sendStarted in
      (r, wk',
       recordAttempt wk' (channel n)
         (case r of Inl e \<Rightarrow> (if IsRetryable e then ''retryable'' else ''permanent'')
                  | Inr sr \<Rightarrow> ''success'') dur w3))"

definition mark_outcome ::
  "string \<Rightarrow> unit result \<Rightarrow> pc \<Rightarrow> pc" where
  "mark_outcome what r next =
     (case r of
        Inl e \<Rightarrow> if errors_is e ErrInvalidTransition then Settled (Inr ())
                 else Settled (Inl (Wrap [Plain what] e))
      | Inr _ \<Rightarrow> next)"

fun handler_step :: "worker \<Rightarrow> ctx \<Rightarrow> pc \<Rightarrow> world \<Rightarrow> pc \<times> worker \<times> world" where
  "handler_step wk ctx (Settled r) w = (Settled r, wk, w)"
| "handler_step wk ctx (Start i) w =
     (case ClaimForProcessing i (StatusesAllowedInto StatusProcessing) w of
        (Inl e, w1) \<Rightarrow>
          (if errors_is e ErrNotFound then Settled (Inr ())
           else if errors_is e ErrInvalidTransition then Settled (Inr ())
           else Settled (Inl (Wrap [Plain ''claim notification''] e)), wk, w1)
      | (Inr n, w1) \<Rightarrow> (Claimed i n, wk, w1))"
| "handler_step wk ctx (Claimed i n) w =
     (case wk_limiters wk (channel n) of
        None \<Rightarrow> (Settled (Inl GoPanic), wk, w)
      | Some rate \<Rightarrow>
          (case limiter_Wait rate w of
             (Inl e, w1) \<Rightarrow> (Releasing n e, wk, w1)
           | (Inr _, w1) \<Rightarrow> (Ready i n, wk, w1)))"
| "handler_step wk ctx (Releasing n e) w =
     (case MarkRetrying (nid n) [Plain ''delivery interrupted before send''] w of
        (_, w1) \<Rightarrow> (Settled (Inl (Wrap [Plain ''rate limit wait''] e)), wk, w1))"
| "handler_step wk ctx (Ready i n) w =
     (case send_piece wk n w of
        (Inl e, wk', w1) \<Rightarrow> (SendFailed n e, wk', w1)
      | (Inr sr, wk', w1) \<Rightarrow> (SendOk i n sr, wk', w1))"
| "handler_step wk ctx (SendFailed n e) w =
     (if IsRetryable e \<and> attempts n < wk_max_attempts wk then
        (case MarkRetrying (nid n) (error_text e) w of
           (r, w1) \<Rightarrow> (mark_outcome ''mark retrying'' r (RetryMarked n e), wk, w1))
      else
        (case MarkFailed (nid n) (error_text e) w of
           (r, w1) \<Rightarrow> (mark_outcome ''mark failed'' r (FailMarked n e), wk, w1)))"
| "handler_step wk ctx (SendOk i n sr) w =
     (case Now w of (sentAt, w1) \<Rightarrow>
      case MarkSent i (sr_message_id sr) sentAt w1 of
        (r, w2) \<Rightarrow> (mark_outcome ''mark sent'' r (SentMarked n sr), wk, w2))"
| "handler_step wk ctx (RetryMarked n e) w =
     (case PublishRetry ctx n (attempts n) w of
        (Inl e2, w1) \<Rightarrow> (Settled (Inl (Wrap [Plain ''publish retry''] e2)), wk, w1)
      | (Inr _, w1) \<Rightarrow> (Settled (Inr ()), wk, emitEvent n StatusRetrying (error_text e) w1))"
| "handler_step wk ctx (FailMarked n e) w =
     (Settled (Inr ()), wk,
      snd (PublishDeadLetter ctx n (failure_reason n (wk_max_attempts wk) e)
        (emitEvent n StatusFailed (error_text e) (recordDelivered wk (channel n) StatusFailed w))))"
| "handler_step wk ctx (SentMarked n sr) w =
     (Settled (Inr ()), wk, emitSentEvent n sr (recordDelivered wk (channel n) StatusSent w))"

fun run_handler :: "nat \<Rightarrow> ctx \<Rightarrow> pc \<times> worker \<times> world \<Rightarrow> pc \<times> worker \<times> world" where
  "run_handler 0 ctx s = s"
| "run_handler (Suc k) ctx (p, wk, w) = run_handler k ctx (handler_step wk ctx p w)"

lemma run_settled [simp]: "run_handler k ctx (Settled r, wk, w) = (Settled r, wk, w)"
  by (induction k) auto

text \<open>Six pieces at most, and together they are the handler of the source.\<close>

lemma run_failure:
  "run_handler (Suc (Suc k)) ctx (SendFailed n e, wk, w) =
   (case handleSendFailure wk ctx n e w of (r, w') \<Rightarrow> (Settled r, wk, w'))"
  by (auto simp: handleSendFailure_def mark_outcome_def Let_def
      split: prod.splits sum.splits)

lemma run_success:
  "run_handler (Suc (Suc k)) ctx (SendOk i n sr, wk, w) =
   (case Now w of (sentAt, w1) \<Rightarrow>
    case MarkSent i (sr_message_id sr) sentAt w1 of
      (Inl e, w2) \<Rightarrow>
        (Settled (if errors_is e ErrInvalidTransition then Inr ()
                  else Inl (Wrap [Plain ''mark sent''] e)), wk, w2)
    | (Inr _, w2) \<Rightarrow>
        (Settled (Inr ()), wk, emitSentEvent n sr (recordDelivered wk (channel n) StatusSent w2)))"
  by (auto simp: mark_outcome_def split: prod.splits sum.splits)

lemma run_deliver:
  "run_handler (Suc (Suc (Suc k))) ctx (Ready i n, wk, w) =
   (case deliver wk ctx i n w of (r, wk', w') \<Rightarrow> (Settled r, wk', w'))"
  unfolding run_handler.simps(2) [of "Suc (Suc k)"]
  by (auto simp: send_piece_def deliver_def Let_def run_failure run_success
      simp del: run_handler.simps split: prod.splits sum.splits)

lemma run_release:
  "run_handler (Suc k) ctx (Releasing n e, wk, w) =
   (case MarkRetrying (nid n) [Plain ''delivery interrupted before send''] w of
      (_, w1) \<Rightarrow> (Settled (Inl (Wrap [Plain ''rate limit wait''] e)), wk, w1))"
  by (auto split: prod.splits)

lemma run_handler_process:
  "run_handler (Suc (Suc (Suc (Suc (Suc k))))) ctx (Start i, wk, w) =
   (case processNotification wk ctx i w of (r, wk', w') \<Rightarrow> (Settled r, wk', w'))"
  unfolding run_handler.simps(2) [of "Suc (Suc (Suc (Suc k)))"]
    run_handler.simps(2) [of "Suc (Suc (Suc k))"]
  by (auto simp: processNotification_def run_deliver run_release run_handler.simps(2) [of "Suc (Suc (Suc k))"]
      simp del: run_handler.simps split: prod.splits sum.splits option.splits)

section \<open>The system\<close>

text \<open>
  Handlers are numbered; \<open>proc h\<close> is the process of handler \<open>h\<close>, and the handlers of a process share
  its worker. The log keeps every request made to a provider and the log of acceptances every
  success, both with the notification and the attempt; \<open>recovered\<close> collects the rows that a stale
  recovery has taken out of processing.
\<close>

record system =
  sys_world :: world
  workers :: "nat \<Rightarrow> worker"
  handlers :: "nat \<Rightarrow> pc"
  sent_log :: "(uuid \<times> int) list"
  accepted_log :: "(uuid \<times> int) list"
  recovered :: "uuid set"

definition proc :: "nat \<Rightarrow> nat" where "proc h = h div 1000"

definition ticket :: "notification \<Rightarrow> uuid \<times> int" where
  "ticket n = (nid n, attempts n)"

fun sends :: "pc \<Rightarrow> (uuid \<times> int) list" where
  "sends (Ready i n) = [ticket n]"
| "sends p = []"

fun accepts :: "pc \<Rightarrow> (uuid \<times> int) list" where
  "accepts (SendOk i n sr) = [ticket n]"
| "accepts p = []"

definition handler_moves :: "nat \<Rightarrow> ctx \<Rightarrow> system \<Rightarrow> system" where
  "handler_moves h ctx s =
     (case handler_step (workers s (proc h)) ctx (handlers s h) (sys_world s) of
        (p, wk, w) \<Rightarrow>
          s\<lparr>sys_world := w, workers := (workers s)(proc h := wk), handlers := (handlers s)(h := p),
            sent_log := sent_log s @ sends (handlers s h),
            accepted_log := accepted_log s @ (if sends (handlers s h) = [] then [] else accepts p)\<rparr>)"

definition other_writes :: "statement \<Rightarrow> time \<Rightarrow> system \<Rightarrow> system" where
  "other_writes st t s =
     s\<lparr>sys_world := (sys_world s)\<lparr>db := exec st t (db (sys_world s))\<rparr>,
       recovered := recovered s \<union> recovers st t (db (sys_world s))\<rparr>"

inductive sys_step :: "system \<Rightarrow> system \<Rightarrow> bool" where
  deliver_message: "handlers s h = Settled r \<Longrightarrow>
     sys_step s (s\<lparr>handlers := (handlers s)(h := Start i)\<rparr>)"
| handler_move: "sys_step s (handler_moves h ctx s)"
| crash: "sys_step s (s\<lparr>handlers := (\<lambda>h. if proc h = p then Settled (Inl GoPanic) else handlers s h),
     workers := (workers s)(p := wk)\<rparr>)"
| other: "issued st \<Longrightarrow> sys_step s (other_writes st t s)"
| quiet_move: "db w' = db (sys_world s) \<Longrightarrow> sys_step s (s\<lparr>sys_world := w'\<rparr>)"

inductive_cases sys_stepE: "sys_step s s'"

definition sys_start :: "system \<Rightarrow> bool" where
  "sys_start s \<longleftrightarrow> db_ok (db (sys_world s)) \<and> (\<forall>h. \<exists>r. handlers s h = Settled r) \<and>
     sent_log s = [] \<and> accepted_log s = [] \<and> recovered s = {}"

abbreviation sys_reaches :: "system \<Rightarrow> system \<Rightarrow> bool" where
  "sys_reaches \<equiv> sys_step\<^sup>*\<^sup>*"

end
