(* ===== verification/SystemFacts.thy ===== *)
theory SystemFacts
  imports System
begin

text \<open>
  Two invariants of the system. Tickets: a claim's pair of notification and attempt is unique and
  is used for at most one request. Exclusion: while nobody recovers a row from processing, at
  most one handler works on it, and after a provider has accepted it nobody sends it again.
\<close>

section \<open>One piece of a handler\<close>

lemma send_piece_frame:
  assumes "send_piece wk n w = (r, wk', w')"
  shows "db w' = db w" "world_le w w'"
proof -
  obtain t1 w1 where n1: "Now w = (t1, w1)" by fastforce
  obtain x s' w2 where sd: "Switchable_Send (wk_sender wk) n w1 = (x, s', w2)"
    by (cases "Switchable_Send (wk_sender wk) n w1") auto
  obtain t3 w3 where n3: "Now w2 = (t3, w3)" by fastforce
  have w': "\<exists>wk c oc d. w' = recordAttempt wk c oc d w3"
    using assms n1 sd n3 by (auto simp: send_piece_def Let_def)
  show "db w' = db w"
    using w' Now_frame [OF n1] switch.send_db [OF sd] Now_frame [OF n3] by auto
  have "world_le w w3"
    using Now_le [OF n1] switch.send_le [OF sd] Now_le [OF n3] by (blast intro: world_le_trans)
  with w' show "world_le w w'" by (auto intro: world_le_trans)
qed

lemma handler_step_le:
  assumes "handler_step wk ctx p w = (p', wk', w')"
  shows "world_le w w'"
proof (cases p)
  case (RetryMarked n e)
  with assms show ?thesis
    by (auto split: prod.splits sum.splits dest!: PublishRetry_effect(4) intro: le_before)
next
  case (Ready i n)
  with assms show ?thesis by (auto split: prod.splits sum.splits dest: send_piece_frame)
next
  case (FailMarked n e)
  with assms show ?thesis by (auto intro!: le_before)
next
  case (SentMarked n sr)
  with assms show ?thesis by (auto intro!: le_before)
qed (use assms in \<open>auto split: method_splits dest!: ClaimForProcessing_le limiter_Wait_frame
      MarkRetrying_le MarkFailed_le MarkSent_le Now_le intro: world_le_trans\<close>)

section \<open>Rows other than the one a piece works on\<close>

definition only_row :: "uuid \<Rightarrow> database \<Rightarrow> database \<Rightarrow> bool" where
  "only_row i d d' \<longleftrightarrow> (\<forall>j. j \<noteq> i \<longrightarrow> find_row j d' = find_row j d)"

lemma only_row_same [simp]: "only_row i d d"
  by (simp add: only_row_def)

lemma db_call_only_row:
  assumes "db_call f w = (r, w')" and "\<And>t x d. f t (db w) = (x, d) \<Longrightarrow> only_row i (db w) d"
  shows "only_row i (db w) (db w')"
  using assms(1) by (cases rule: db_call_cases) (use assms(2) in auto)

lemma update_only_row:
  assumes "db_ok d" "keeps_identity f"
  shows "only_row i d (snd (update_returning (\<lambda>r. nid r = i \<and> Q r) f d))"
  using guarded_update_other [OF assms] by (auto simp: only_row_def update_returning_def)

lemma claim_only_row:
  assumes "db_ok (db w)" "ClaimForProcessing i src w = (r, w')"
  shows "only_row i (db w) (db w')"
proof -
  obtain x w1 where c: "db_call (sql_claim i (map status_string src)) w = (x, w1)" by fastforce
  have "only_row i (db w) d"
    if "sql_claim i (map status_string src) t (db w) = (y, d)" for t y d
  proof -
    from that have "d = snd (sql_claim i (map status_string src) t (db w))" by simp
    then show ?thesis
      unfolding snd_claim using update_only_row [OF assms(1) keeps_identity_intros(3)]
      by (simp only: only_row_same split: if_split) simp
  qed
  with c have "only_row i (db w) (db w1)" by (rule db_call_only_row)
  moreover have "db w' = db w1"
    using assms(2) c by (auto simp: ClaimForProcessing_def split: method_splits dest: GetByID_db)
  ultimately show ?thesis by simp
qed

text \<open>The outcome writes: the row is as it was, or in processing before and marked now.\<close>

definition marked :: "uuid \<Rightarrow> status \<Rightarrow> database \<Rightarrow> database \<Rightarrow> bool" where
  "marked i s d d' \<longleftrightarrow> only_row i d d' \<and>
     (find_row i d' = find_row i d \<or>
      (\<exists>r r'. find_row i d = Some r \<and> status r = StatusProcessing \<and> find_row i d' = Some r' \<and>
         status r' = s))"

lemma update_marked:
  assumes "db_ok d" "keeps_identity f" "\<And>r. status (f r) = s"
  shows "marked i s d (snd (update_returning (\<lambda>r. nid r = i \<and> status r = StatusProcessing) f d))"
  using update_only_row [OF assms(1,2), of i "\<lambda>r. status r = StatusProcessing"]
  by (cases "find_row i d") (auto simp: marked_def find_row_update [OF assms(2)] assms(3))

lemma db_call_marked:
  assumes "db_call f w = (r, w')" and "\<And>t. marked i s (db w) (snd (f t (db w)))"
  shows "marked i s (db w) (db w')"
proof -
  have "marked i s (db w) d" if "f t (db w) = (x, d)" for t x d
    using assms(2) [of t] that by simp
  with assms(1) show ?thesis by (cases rule: db_call_cases) (auto simp: marked_def)
qed

lemma Mark_marked:
  assumes "db_ok (db w)"
  shows "MarkRetrying i e w = (r, w') \<Longrightarrow> marked i StatusRetrying (db w) (db w')"
    "MarkFailed i e w = (r, w') \<Longrightarrow> marked i StatusFailed (db w) (db w')"
    "MarkSent i p u w = (r, w') \<Longrightarrow> marked i StatusSent (db w) (db w')"
proof -
  have same: "marked i s (db w) (db w)" for s by (simp add: marked_def)
  have o: "marked i s (db w) (snd (sql_record_outcome i s e t (db w)))" for s t
    unfolding snd_record_outcome using assms same by (auto intro!: update_marked)
  have m: "marked i StatusSent (db w) (snd (sql_mark_sent i p u t (db w)))" for t
    unfolding snd_mark_sent using assms same by (auto intro!: update_marked)
  show "MarkRetrying i e w = (r, w') \<Longrightarrow> marked i StatusRetrying (db w) (db w')"
    "MarkFailed i e w = (r, w') \<Longrightarrow> marked i StatusFailed (db w) (db w')"
    by (auto simp: MarkRetrying_def MarkFailed_def recordOutcome_def split: method_splits
        intro: db_call_marked o)
  show "MarkSent i p u w = (r, w') \<Longrightarrow> marked i StatusSent (db w) (db w')"
    by (auto simp: MarkSent_def split: method_splits intro: db_call_marked m)
qed

section \<open>Tickets\<close>

text \<open>The claim that a handler holds, and whether its request is still to come.\<close>

fun holds :: "pc \<Rightarrow> notification option" where
  "holds (Claimed i n) = Some n"
| "holds (Releasing n e) = Some n"
| "holds (Ready i n) = Some n"
| "holds (SendFailed n e) = Some n"
| "holds (SendOk i n sr) = Some n"
| "holds p = None"

fun unsent :: "pc \<Rightarrow> notification option" where
  "unsent (Claimed i n) = Some n"
| "unsent (Releasing n e) = Some n"
| "unsent (Ready i n) = Some n"
| "unsent p = None"

definition covers :: "database \<Rightarrow> uuid \<times> int \<Rightarrow> bool" where
  "covers d x \<longleftrightarrow> (\<exists>row. find_row (fst x) d = Some row \<and> 1 \<le> snd x \<and> snd x \<le> attempts row)"

lemma covers_mono:
  assumes "db_evolves d d'" "covers d x"
  shows "covers d' x"
proof -
  from assms(2) obtain r where r: "find_row (fst x) d = Some r" "1 \<le> snd x" "snd x \<le> attempts r"
    by (auto simp: covers_def)
  from assms(1) r(1) obtain r' where "find_row (fst x) d' = Some r'" "row_evolves r r'"
    by (rule db_evolvesD)
  with row_evolves_attempts [of r r'] r show ?thesis by (simp add: covers_def)
qed

lemma unsent_holds: "unsent p = Some n \<Longrightarrow> holds p = Some n"
  by (cases p) auto

lemma sends_iff: "sends p \<noteq> [] \<longleftrightarrow> (\<exists>i n. p = Ready i n)"
  by (cases p) auto

lemma mark_outcome_simps [simp]:
  "holds (mark_outcome m r q) = (case r of Inl e \<Rightarrow> None | Inr u \<Rightarrow> holds q)"
  "unsent (mark_outcome m r q) = (case r of Inl e \<Rightarrow> None | Inr u \<Rightarrow> unsent q)"
  by (auto simp: mark_outcome_def split: sum.splits)

text \<open>A piece makes no claim of its own, except the claim, whose ticket is new.\<close>

lemma claim_ticket:
  assumes "db_ok (db w)" "ClaimForProcessing i (StatusesAllowedInto StatusProcessing) w = (Inr n, w')"
  shows "covers (db w') (ticket n)" "\<not> covers (db w) (ticket n)" "nid n = i"
    "find_row i (db w') = Some n" "status n = StatusProcessing" "claimable i (db w)"
proof -
  from ClaimForProcessing_Inr [OF assms] obtain r t where
    r: "find_row i (db w) = Some r" "CanTransition (status r) StatusProcessing"
      "n = claimed t r" "find_row i (db w') = Some n" by auto
  from db_ok_rowD [OF assms(1) r(1)] have "nid r = i" "0 \<le> attempts r"
    by (auto simp: row_ok_def)
  with r show "covers (db w') (ticket n)" "\<not> covers (db w) (ticket n)" "nid n = i"
    "find_row i (db w') = Some n" "status n = StatusProcessing" "claimable i (db w)"
    by (auto simp: covers_def ticket_def claimable_def)
qed

lemma handler_step_keeps:
  assumes "handler_step wk ctx p w = (p', wk', w')" "\<forall>i. p \<noteq> Start i"
  shows "(holds p' = None \<or> holds p' = holds p) \<and> (unsent p' = None \<or> unsent p' = unsent p) \<and>
    (sends p \<noteq> [] \<longrightarrow> unsent p' = None)"
proof (cases p)
  case (SendFailed n e)
  with assms(1) show ?thesis
    by (auto split: if_splits prod.splits sum.splits)
next
  case (SendOk i n sr)
  with assms(1) show ?thesis by (auto split: prod.splits sum.splits)
next
  case (Claimed i n)
  with assms(1) show ?thesis by (auto split: prod.splits sum.splits option.splits)
next
  case (Ready i n)
  with assms(1) show ?thesis by (auto split: prod.splits sum.splits)
next
  case (Start i)
  with assms(2) show ?thesis by blast
qed (use assms(1) in \<open>auto split: prod.splits sum.splits\<close>)

lemma handler_step_holds:
  assumes "db_ok (db w)" "handler_step wk ctx p w = (p', wk', w')"
  shows "(\<exists>n. holds p' = Some n \<and> unsent p' = Some n \<and> covers (db w') (ticket n) \<and>
      \<not> covers (db w) (ticket n)) \<or>
    (holds p' = None \<or> holds p' = holds p) \<and> (unsent p' = None \<or> unsent p' = unsent p) \<and>
    (sends p \<noteq> [] \<longrightarrow> unsent p' = None)"
proof (cases "\<exists>i. p = Start i")
  case True
  then obtain i where Start: "p = Start i" ..
  obtain x w1 where c: "ClaimForProcessing i (StatusesAllowedInto StatusProcessing) w = (x, w1)"
    by fastforce
  show ?thesis
  proof (cases x)
    case (Inr n)
    with Start assms(2) c have "p' = Claimed i n" "w' = w1" by auto
    with claim_ticket(1,2) [OF assms(1) c [unfolded Inr]] show ?thesis by simp
  next
    case (Inl e)
    with Start assms(2) c show ?thesis by (auto split: if_splits)
  qed
qed (use handler_step_keeps [OF assms(2)] in blast)

definition tickets_ok :: "system \<Rightarrow> bool" where
  "tickets_ok s \<longleftrightarrow>
     db_ok (db (sys_world s)) \<and>
     (\<forall>h n. holds (handlers s h) = Some n \<longrightarrow> covers (db (sys_world s)) (ticket n)) \<and>
     (\<forall>x \<in> set (sent_log s). covers (db (sys_world s)) x) \<and>
     distinct (sent_log s) \<and>
     (\<forall>h n. unsent (handlers s h) = Some n \<longrightarrow> ticket n \<notin> set (sent_log s)) \<and>
     (\<forall>h h' n n'. h \<noteq> h' \<longrightarrow> holds (handlers s h) = Some n \<longrightarrow> holds (handlers s h') = Some n' \<longrightarrow>
        ticket n \<noteq> ticket n')"

lemma tickets_okD:
  assumes "tickets_ok s"
  shows "db_ok (db (sys_world s))"
    "holds (handlers s h) = Some n \<Longrightarrow> covers (db (sys_world s)) (ticket n)"
    "x \<in> set (sent_log s) \<Longrightarrow> covers (db (sys_world s)) x"
    "distinct (sent_log s)"
    "unsent (handlers s h) = Some n \<Longrightarrow> ticket n \<notin> set (sent_log s)"
    "h \<noteq> h' \<Longrightarrow> holds (handlers s h) = Some n \<Longrightarrow> holds (handlers s h') = Some n' \<Longrightarrow>
       ticket n \<noteq> ticket n'"
  using assms unfolding tickets_ok_def by blast+

lemma sends_unsent: "x \<in> set (sends p) \<Longrightarrow> \<exists>n. unsent p = Some n \<and> x = ticket n"
  by (cases p) auto

lemma distinct_sends: "distinct (sends p)"
  by (cases p) auto

lemma tickets_handler:
  assumes T: "tickets_ok s"
  shows "tickets_ok (handler_moves h ctx s)"
proof -
  let ?p = "handlers s h" and ?w = "sys_world s"
  obtain p' wk' w' where st: "handler_step (workers s (proc h)) ctx ?p ?w = (p', wk', w')"
    by (cases "handler_step (workers s (proc h)) ctx ?p ?w") auto
  define s' where "s' = handler_moves h ctx s"
  have s': "sys_world s' = w'" "handlers s' = (handlers s)(h := p')"
    "sent_log s' = sent_log s @ sends ?p"
    by (simp_all add: s'_def handler_moves_def st)
  note ok = tickets_okD(1) [OF T]
  note le = handler_step_le [OF st]
  have ok': "db_ok (db w')" and ev: "db_evolves (db ?w) (db w')"
    using world_le_db_ok [OF le ok] world_le_evolves [OF le ok] by auto
  note cov = covers_mono [OF ev]
  note hs = handler_step_holds [OF ok st]
  have H: "holds (handlers s' g) = Some n \<Longrightarrow>
      (g \<noteq> h \<or> holds p' = holds ?p) \<and> holds (handlers s g) = Some n \<or>
      g = h \<and> unsent p' = Some n \<and> covers (db w') (ticket n) \<and> \<not> covers (db ?w) (ticket n)" for g n
    using hs by (auto simp: s'(2) split: if_splits)
  have U: "unsent (handlers s' g) = Some n \<Longrightarrow>
      unsent (handlers s g) = Some n \<and> (g = h \<longrightarrow> sends ?p = []) \<or>
      g = h \<and> \<not> covers (db ?w) (ticket n)" for g n
    using hs by (auto simp: s'(2) split: if_splits)
  have log: "covers (db ?w) x" if "x \<in> set (sent_log s')" for x
  proof -
    from that have "x \<in> set (sent_log s) \<or> x \<in> set (sends ?p)" by (simp add: s'(3))
    then show ?thesis
      using tickets_okD(2) [OF T] tickets_okD(3) [OF T] sends_unsent [of x ?p] unsent_holds [of ?p]
      by blast
  qed
  have c1: "covers (db w') (ticket n)" if "holds (handlers s' g) = Some n" for g n
    using H [OF that] tickets_okD(2) [OF T, of g n] cov by blast
  have c2: "covers (db w') x" if "x \<in> set (sent_log s')" for x
    using log [OF that] cov by blast
  have c3: "distinct (sent_log s')"
  proof -
    have "set (sent_log s) \<inter> set (sends ?p) = {}"
      using tickets_okD(5) [OF T] sends_unsent [of _ ?p] by blast
    with tickets_okD(4) [OF T] distinct_sends [of ?p] show ?thesis by (simp add: s'(3))
  qed
  have c4: "ticket n \<notin> set (sent_log s')" if u: "unsent (handlers s' g) = Some n" for g n
  proof
    assume l: "ticket n \<in> set (sent_log s')"
    from U [OF u] log [OF l] have o: "unsent (handlers s g) = Some n" "g = h \<longrightarrow> sends ?p = []"
      by auto
    with tickets_okD(5) [OF T o(1)] l have "ticket n \<in> set (sends ?p)" "g \<noteq> h"
      by (auto simp: s'(3))
    then obtain m where "unsent ?p = Some m" "ticket n = ticket m" using sends_unsent by blast
    with tickets_okD(6) [OF T \<open>g \<noteq> h\<close> unsent_holds [OF o(1)] unsent_holds] show False by blast
  qed
  have c5: "ticket n \<noteq> ticket n'"
    if "g \<noteq> g'" "holds (handlers s' g) = Some n" "holds (handlers s' g') = Some n'" for g g' n n'
    using H [OF that(2)] H [OF that(3)] that(1) tickets_okD(6) [OF T, of g g' n n']
      tickets_okD(2) [OF T, of g n] tickets_okD(2) [OF T, of g' n'] by metis
  show ?thesis
    unfolding tickets_ok_def s'_def [symmetric] s'(1)
    using ok' c1 c2 c3 c4 c5 by blast
qed

lemma tickets_step:
  assumes "sys_step s s'" "tickets_ok s"
  shows "tickets_ok s'"
  using assms
proof (cases rule: sys_step.cases)
  case (deliver_message h r i)
  with assms(2) show ?thesis by (auto simp: tickets_ok_def)
next
  case (handler_move h ctx)
  with tickets_handler [OF assms(2)] show ?thesis by simp
next
  case (crash p wk)
  with assms(2) show ?thesis by (auto simp: tickets_ok_def split: if_splits)
next
  case (other st t)
  let ?d = "db (sys_world s)"
  have "db_ok (exec st t ?d)" "db_evolves ?d (exec st t ?d)"
    using exec_legal [OF other(2)] tickets_okD(1) [OF assms(2)] by (auto intro: db_step_evolves)
  moreover have "sys_world s' = (sys_world s)\<lparr>db := exec st t ?d\<rparr>" "handlers s' = handlers s"
    "sent_log s' = sent_log s"
    by (simp_all add: other(1) other_writes_def)
  ultimately show ?thesis
    using assms(2) covers_mono [of ?d "exec st t ?d"] by (simp add: tickets_ok_def)
next
  case (quiet_move w')
  with assms(2) show ?thesis by (auto simp: tickets_ok_def)
qed

lemma tickets_start: "sys_start s \<Longrightarrow> tickets_ok s"
  unfolding tickets_ok_def sys_start_def by (metis distinct.simps(1) empty_iff holds.simps(6)
    list.set(1) option.distinct(1) unsent.simps(4))

lemma tickets_reachable: "sys_reaches s s' \<Longrightarrow> tickets_ok s \<Longrightarrow> tickets_ok s'"
  by (induction rule: rtranclp_induct) (auto intro: tickets_step)

text \<open>Requests for one notification are at most its attempts.\<close>

lemma tickets_bound:
  assumes "tickets_ok s" "find_row i (db (sys_world s)) = Some row"
  shows "int (length (filter (\<lambda>x. fst x = i) (sent_log s))) \<le> attempts row"
proof -
  let ?l = "filter (\<lambda>x. fst x = i) (sent_log s)"
  have "inj_on snd (set ?l)" by (auto simp: inj_on_def prod_eq_iff)
  moreover have "snd ` set ?l \<subseteq> {1..attempts row}"
  proof
    fix a
    assume "a \<in> snd ` set ?l"
    then have "(i, a) \<in> set (sent_log s)" by auto
    from tickets_okD(3) [OF assms(1) this] assms(2) show "a \<in> {1..attempts row}"
      by (simp add: covers_def)
  qed
  ultimately have "card (set ?l) \<le> card {1..attempts row}"
    by (metis card_image card_mono finite_atLeastAtMost_int)
  moreover have "card (set ?l) = length ?l"
    using tickets_okD(4) [OF assms(1)] by (intro distinct_card distinct_filter)
  moreover have "0 \<le> attempts row"
    using db_ok_rowD [OF tickets_okD(1) [OF assms(1)] assms(2)] by (auto simp: row_ok_def)
  ultimately show ?thesis by simp
qed

section \<open>Exclusion\<close>

fun pc_ok :: "pc \<Rightarrow> bool" where
  "pc_ok (Claimed i n) = (nid n = i)"
| "pc_ok (Ready i n) = (nid n = i)"
| "pc_ok (SendOk i n sr) = (nid n = i)"
| "pc_ok p = True"

lemma pc_ok_no_claim: "holds p = None \<Longrightarrow> pc_ok p"
  by (cases p) auto

lemma handler_step_pc_ok:
  assumes "db_ok (db w)" "pc_ok p" "handler_step wk ctx p w = (p', wk', w')"
  shows "pc_ok p'"
proof (cases "\<exists>i. p = Start i")
  case True
  then obtain i where Start: "p = Start i" ..
  obtain x w1 where c: "ClaimForProcessing i (StatusesAllowedInto StatusProcessing) w = (x, w1)"
    by fastforce
  show ?thesis
  proof (cases x)
    case (Inr n)
    with Start assms(3) c have "p' = Claimed i n" by auto
    with claim_ticket(3) [OF assms(1) c [unfolded Inr]] show ?thesis by simp
  next
    case (Inl e)
    with Start assms(3) c show ?thesis by (auto split: if_splits)
  qed
next
  case False
  show ?thesis
  proof (cases "holds p' = None")
    case True
    then show ?thesis by (rule pc_ok_no_claim)
  next
    case h: False
    show ?thesis
      using assms(2,3) False h
      by (cases p) (auto simp: mark_outcome_def split: if_splits prod.splits sum.splits option.splits)
  qed
qed

text \<open>What one identifier owes to the exclusion: the holders, the row, the acceptances.\<close>

definition excl :: "uuid \<Rightarrow> database \<Rightarrow> (nat \<Rightarrow> pc) \<Rightarrow> (uuid \<times> int) list \<Rightarrow> bool" where
  "excl i d H A \<longleftrightarrow>
     (\<forall>h h' n n'. holds (H h) = Some n \<longrightarrow> nid n = i \<longrightarrow> holds (H h') = Some n' \<longrightarrow> nid n' = i \<longrightarrow>
        h = h') \<and>
     (\<forall>h n. holds (H h) = Some n \<longrightarrow> nid n = i \<longrightarrow>
        (\<exists>row. find_row i d = Some row \<and> status row = StatusProcessing)) \<and>
     (i \<in> fst ` set A \<longrightarrow>
        (\<exists>row. find_row i d = Some row \<and> status row \<in> {StatusProcessing, StatusSent}) \<and>
        (\<forall>h n. holds (H h) = Some n \<longrightarrow> nid n = i \<longrightarrow> accepts (H h) \<noteq> [])) \<and>
     length (filter (\<lambda>x. fst x = i) A) \<le> 1"

lemma exclD:
  assumes "excl i d H A"
  shows "holds (H h) = Some n \<Longrightarrow> nid n = i \<Longrightarrow> holds (H h') = Some n' \<Longrightarrow> nid n' = i \<Longrightarrow> h = h'"
    "holds (H h) = Some n \<Longrightarrow> nid n = i \<Longrightarrow>
       \<exists>row. find_row i d = Some row \<and> status row = StatusProcessing"
    "i \<in> fst ` set A \<Longrightarrow>
       \<exists>row. find_row i d = Some row \<and> status row \<in> {StatusProcessing, StatusSent}"
    "i \<in> fst ` set A \<Longrightarrow> holds (H h) = Some n \<Longrightarrow> nid n = i \<Longrightarrow> accepts (H h) \<noteq> []"
    "length (filter (\<lambda>x. fst x = i) A) \<le> 1"
  using assms unfolding excl_def by blast+

text \<open>Nobody's claim: the handler lets go of what it held, or holds what it held before.\<close>

lemma excl_release:
  assumes E: "excl i d H A" and p': "holds p' = None"
    and row: "find_row i d' = find_row i d \<or> (\<exists>n. holds (H h) = Some n \<and> nid n = i) \<and>
      (i \<in> fst ` set A \<longrightarrow> (\<exists>r. find_row i d' = Some r \<and> status r \<in> {StatusProcessing, StatusSent}))"
  shows "excl i d' (H(h := p')) A"
proof (cases "find_row i d' = find_row i d")
  case True
  show ?thesis
    using E p' unfolding excl_def True by (auto split: if_splits)
next
  case False
  with row obtain n where n: "holds (H h) = Some n" "nid n = i"
    and acc: "i \<in> fst ` set A \<longrightarrow>
      (\<exists>r. find_row i d' = Some r \<and> status r \<in> {StatusProcessing, StatusSent})"
    by blast
  have none: "\<not> (holds ((H(h := p')) g) = Some m \<and> nid m = i)" for g m
    using exclD(1) [OF E n, of g m] p' by (auto split: if_splits)
  with acc exclD(5) [OF E] show ?thesis unfolding excl_def by blast
qed

lemma excl_same_holds:
  assumes E: "excl i d H A" and p': "holds p' = holds (H h)"
    and a: "accepts (H h) = []"
    and A': "A' = A \<or> (\<exists>n a. holds (H h) = Some n \<and> A' = A @ [(nid n, a)] \<and> accepts p' \<noteq> [])"
  shows "excl i d (H(h := p')) A'"
proof -
  have H: "holds ((H(h := p')) g) = holds (H g)" for g using p' by simp
  from A' show ?thesis
  proof (elim disjE exE conjE)
    assume A: "A' = A"
    have acc: "accepts ((H(h := p')) g) \<noteq> []"
      if "i \<in> fst ` set A" "holds (H g) = Some n" "nid n = i" for g n
      using exclD(4) [OF E that] a by (auto split: if_splits)
    show ?thesis
      unfolding A excl_def H using exclD [OF E] acc by blast
  next
    fix n b
    assume n: "holds (H h) = Some n" and A: "A' = A @ [(nid n, b)]" and acc': "accepts p' \<noteq> []"
    show ?thesis
    proof (cases "nid n = i")
      case True
      have "i \<notin> fst ` set A" using exclD(4) [OF E _ n True] a by auto
      then have "filter (\<lambda>x. fst x = i) A = []" by (auto simp: filter_empty_conv image_iff)
      then have len: "length (filter (\<lambda>x. fst x = i) A') \<le> 1" by (simp add: A)
      have acc: "accepts ((H(h := p')) g) \<noteq> []" if "holds (H g) = Some m" "nid m = i" for g m
        using exclD(1) [OF E that n True] acc' by simp
      show ?thesis
        unfolding excl_def H using exclD(1,2) [OF E] exclD(2) [OF E n True] len acc by blast
    next
      case False
      then have A'': "i \<in> fst ` set A' \<longleftrightarrow> i \<in> fst ` set A"
        by (auto simp: A)
      have A1: "length (filter (\<lambda>x. fst x = i) A') \<le> 1"
        using exclD(5) [OF E] False by (simp add: A)
      have acc: "accepts ((H(h := p')) g) \<noteq> []"
        if "i \<in> fst ` set A" "holds (H g) = Some m" "nid m = i" for g m
        using exclD(4) [OF E that] a by (auto split: if_splits)
      show ?thesis
        unfolding excl_def H A'' using exclD [OF E] A1 acc by blast
    qed
  qed
qed

lemma excl_free:
  assumes E: "excl i d H A" and free: "claimable i d"
  shows "i \<notin> fst ` set A" "\<not> (holds (H g) = Some m \<and> nid m = i)"
proof -
  from free obtain r where r: "find_row i d = Some r" "CanTransition (status r) StatusProcessing"
    by (auto simp: claimable_def)
  then have st: "status r \<noteq> StatusProcessing" "status r \<noteq> StatusSent"
    by (auto simp: CanTransition_iff)
  show "i \<notin> fst ` set A"
  proof
    assume "i \<in> fst ` set A"
    from exclD(3) [OF E this] r(1) st show False by simp
  qed
  show "\<not> (holds (H g) = Some m \<and> nid m = i)"
    using exclD(2) [OF E, of g m] r(1) st by auto
qed

lemma excl_claim:
  assumes E: "excl i d H A" and free: "claimable i d" and H0: "holds (H h) = None"
    and p': "holds p' = Some n"
    and row: "nid n = i" "find_row i d' = Some r" "status r = StatusProcessing"
  shows "excl i d' (H(h := p')) A"
proof -
  note nobody = excl_free(2) [OF E free] and fresh = excl_free(1) [OF E free]
  from nobody fresh row exclD(5) [OF E] show ?thesis
    unfolding excl_def by (auto split: if_splits)
qed

lemma excl_start_lost:
  assumes E: "excl i d H A" and H0: "holds (H h) = None" and p': "holds p' = None"
    and row: "find_row i d' = find_row i d \<or> claimable i d"
  shows "excl i d' (H(h := p')) A"
proof (cases "find_row i d' = find_row i d")
  case True
  with E H0 p' show ?thesis by (intro excl_release) auto
next
  case False
  with row have free: "claimable i d" by blast
  note nobody = excl_free(2) [OF E free] and fresh = excl_free(1) [OF E free]
  from nobody fresh p' exclD(5) [OF E] show ?thesis
    unfolding excl_def by (auto split: if_splits)
qed

definition excl_ok :: "system \<Rightarrow> bool" where
  "excl_ok s \<longleftrightarrow> db_ok (db (sys_world s)) \<and> (\<forall>h. pc_ok (handlers s h)) \<and>
     (\<forall>i. i \<notin> recovered s \<longrightarrow> excl i (db (sys_world s)) (handlers s) (accepted_log s))"

lemma marked_row:
  "marked j t d d' \<Longrightarrow> i \<noteq> j \<Longrightarrow> find_row i d' = find_row i d"
  by (auto simp: marked_def only_row_def)

lemma marked_sent_row:
  assumes "marked i StatusSent d d'" "find_row i d = Some r" "status r \<in> {StatusProcessing, StatusSent}"
  shows "\<exists>r'. find_row i d' = Some r' \<and> status r' \<in> {StatusProcessing, StatusSent}"
  using assms by (auto simp: marked_def)

text \<open>The exclusion of one identifier across one piece of one handler.\<close>

lemma excl_handler:
  assumes ok: "db_ok (db w)" and pc: "pc_ok (H h)" and E: "excl i (db w) H A"
    and st: "handler_step wk ctx (H h) w = (p', wk', w')"
  shows "excl i (db w') (H(h := p')) (A @ (if sends (H h) = [] then [] else accepts p'))"
proof (cases "H h")
  case (Settled r)
  with st have "p' = H h" "w' = w" by auto
  with E Settled show ?thesis by (simp add: fun_upd_idem)
next
  case (Start j)
  obtain x w1 where c: "ClaimForProcessing j (StatusesAllowedInto StatusProcessing) w = (x, w1)"
    by fastforce
  note only = claim_only_row [OF ok c]
  show ?thesis
  proof (cases x)
    case (Inr n)
    with Start st c have p': "p' = Claimed j n" "w' = w1" by auto
    note t = claim_ticket [OF ok c [unfolded Inr]]
    show ?thesis
    proof (cases "j = i")
      case True
      have "excl i (db w') (H(h := p')) A"
        using t p' True Start
        by (intro excl_claim [OF E, of h p' n "db w'" n]) simp_all
      with Start show ?thesis by simp
    next
      case False
      then have row: "find_row i (db w') = find_row i (db w)"
        using only p' by (simp add: only_row_def)
      have "\<not> (\<exists>m. holds p' = Some m \<and> nid m = i)" using p' t(3) False by simp
      with E row p' Start show ?thesis
        unfolding excl_def row by (auto split: if_splits)
    qed
  next
    case (Inl e)
    with Start st c have p': "holds p' = None" "w' = w1" by (auto split: if_splits)
    have "find_row i (db w') = find_row i (db w) \<or> claimable i (db w)"
    proof (cases "j = i \<and> claimable i (db w)")
      case False
      then show ?thesis
        using only p' ClaimForProcessing_unclaimable [OF ok _ c]
        by (cases "j = i") (auto simp: only_row_def)
    qed blast
    from excl_start_lost [OF E _ p'(1) this] Start show ?thesis by simp
  qed
next
  case (Claimed j n)
  with st have d: "db w' = db w" and "holds p' = None \<or> holds p' = Some n" "accepts p' = []"
    by (auto split: option.splits prod.splits sum.splits dest!: limiter_Wait_frame)
  then show ?thesis
    using excl_release [OF E, of p' "db w'" h] excl_same_holds [OF E, of p' h A] Claimed by auto
next
  case (Releasing n e)
  with st obtain r where m: "MarkRetrying (nid n) [Plain ''delivery interrupted before send''] w =
      (r, w')" and p': "holds p' = None" by (auto split: prod.splits)
  have "i \<in> fst ` set A \<longrightarrow> nid n \<noteq> i"
    using exclD(4) [OF E, of h n] Releasing by auto
  moreover have "find_row i (db w') = find_row i (db w) \<or> nid n = i"
    using marked_row [OF Mark_marked(1) [OF ok m], of i] by blast
  ultimately have "excl i (db w') (H(h := p')) A"
    using Releasing by (intro excl_release [OF E p']) auto
  with Releasing show ?thesis by simp
next
  case (Ready j n)
  obtain x wk1 w1 where s: "send_piece wk n w = (x, wk1, w1)"
    by (cases "send_piece wk n w") auto
  with st Ready send_piece_frame(1) [OF s] have d: "db w' = db w" and
    p': "holds p' = Some n" "accepts p' = [] \<or> accepts p' = [ticket n]"
    by (auto split: sum.splits)
  have "excl i (db w) (H(h := p')) (A @ accepts p')"
    using p' Ready by (intro excl_same_holds [OF E]) (auto simp: ticket_def)
  with Ready d show ?thesis by simp
next
  case (SendFailed n e)
  have na: "i \<in> fst ` set A \<longrightarrow> nid n \<noteq> i"
    using exclD(4) [OF E, of h n] SendFailed by auto
  have p': "holds p' = None"
    using st SendFailed by (auto split: if_splits prod.splits sum.splits)
  have "\<exists>s. marked (nid n) s (db w) (db w')"
    using st SendFailed by (auto split: if_splits prod.splits intro: Mark_marked [OF ok])
  then have "find_row i (db w') = find_row i (db w) \<or> nid n = i"
    using marked_row [of "nid n" _ "db w" "db w'" i] by blast
  with na have "excl i (db w') (H(h := p')) A"
    using SendFailed by (intro excl_release [OF E p']) auto
  with SendFailed show ?thesis by simp
next
  case (SendOk j n sr)
  with pc have j: "nid n = j" by simp
  have p': "holds p' = None" using st SendOk by (auto split: prod.splits sum.splits)
  obtain t w1 where n1: "Now w = (t, w1)" by fastforce
  with st SendOk obtain r where m: "MarkSent j (sr_message_id sr) t w1 = (r, w')"
    by (auto split: prod.splits)
  have d1: "db w1 = db w" using Now_frame [OF n1] by simp
  have mk: "marked j StatusSent (db w) (db w')"
    using Mark_marked(3) [of w1] ok m by (simp add: d1)
  have "excl i (db w') (H(h := p')) A"
  proof (cases "j = i")
    case True
    have "\<exists>r. find_row i (db w') = Some r \<and> status r \<in> {StatusProcessing, StatusSent}"
      if "i \<in> fst ` set A"
      using exclD(3) [OF E that] marked_sent_row mk True by blast
    with True j SendOk show ?thesis by (intro excl_release [OF E p']) auto
  next
    case False
    with marked_row [OF mk, of i] show ?thesis by (intro excl_release [OF E p']) auto
  qed
  with SendOk show ?thesis by simp
next
  case (RetryMarked n e)
  with st have d: "db w' = db w" and p': "holds p' = None"
    by (auto split: prod.splits sum.splits dest: PublishRetry_effect(1))
  with RetryMarked show ?thesis by (auto intro: excl_release [OF E])
next
  case (FailMarked n e)
  with st have d: "db w' = db w" and p': "holds p' = None"
    by (auto simp: PublishDeadLetter_effect(1) [OF surjective_pairing])
  with FailMarked show ?thesis by (auto intro: excl_release [OF E])
next
  case (SentMarked n sr)
  with st have d: "db w' = db w" and p': "holds p' = None" by auto
  with SentMarked show ?thesis by (auto intro: excl_release [OF E])
qed

lemma excl_undisturbed:
  assumes E: "excl i d H A"
    and u: "\<And>r. find_row i d = Some r \<Longrightarrow> \<exists>r'. find_row i d' = Some r' \<and> undisturbed r r' \<and>
      (status r = StatusSent \<longrightarrow> r' = r)"
  shows "excl i d' H A"
proof -
  have keep: "\<exists>r'. find_row i d' = Some r' \<and> status r' = status r"
    if "find_row i d = Some r" "status r \<in> {StatusProcessing, StatusSent}" for r
    using u [OF that(1)] that(2) by (auto simp: undisturbed_def)
  have e2: "\<exists>row. find_row i d' = Some row \<and> status row = StatusProcessing"
    if h: "holds (H h) = Some n" "nid n = i" for h n
  proof -
    from exclD(2) [OF E h] obtain r where "find_row i d = Some r" "status r = StatusProcessing"
      by blast
    with keep [of r] show ?thesis by auto
  qed
  have e3: "\<exists>row. find_row i d' = Some row \<and> status row \<in> {StatusProcessing, StatusSent}"
    if a: "i \<in> fst ` set A"
  proof -
    from exclD(3) [OF E a] obtain r where
      "find_row i d = Some r" "status r \<in> {StatusProcessing, StatusSent}" by blast
    with keep [of r] show ?thesis by auto
  qed
  show ?thesis
    unfolding excl_def using exclD(1,4,5) [OF E] e2 e3 by blast
qed

lemma excl_step:
  assumes "sys_step s s'" "excl_ok s"
  shows "excl_ok s'"
  using assms
proof (cases rule: sys_step.cases)
  case (deliver_message h r i)
  have "excl j (db (sys_world s)) ((handlers s)(h := Start i)) (accepted_log s)"
    if "j \<notin> recovered s" for j
    using assms(2) that deliver_message(2) by (intro excl_release) (auto simp: excl_ok_def)
  with assms(2) deliver_message show ?thesis by (auto simp: excl_ok_def)
next
  case (handler_move h ctx)
  obtain p' wk' w' where st: "handler_step (workers s (proc h)) ctx (handlers s h) (sys_world s) =
      (p', wk', w')"
    by (cases "handler_step (workers s (proc h)) ctx (handlers s h) (sys_world s)") auto
  have ok: "db_ok (db (sys_world s))" and pc: "pc_ok (handlers s h)"
    using assms(2) by (auto simp: excl_ok_def)
  have s': "sys_world s' = w'" "handlers s' = (handlers s)(h := p')" "recovered s' = recovered s"
    "accepted_log s' =
      accepted_log s @ (if sends (handlers s h) = [] then [] else accepts p')"
    by (simp_all add: handler_move handler_moves_def st)
  show ?thesis
    unfolding excl_ok_def s'
    using assms(2) world_le_db_ok [OF handler_step_le [OF st] ok]
      handler_step_pc_ok [OF ok pc st] excl_handler [of "sys_world s" "handlers s", OF ok pc _ st]
    by (auto simp: excl_ok_def)
next
  case (crash p wk)
  define H where "H = (\<lambda>h. if proc h = p then Settled (Inl GoPanic) else handlers s h)"
  have "excl i (db (sys_world s)) H (accepted_log s)"
    if "excl i (db (sys_world s)) (handlers s) (accepted_log s)" for i
    using that unfolding excl_def H_def by (auto split: if_splits)
  moreover have "pc_ok (H h)" for h using assms(2) by (simp add: H_def excl_ok_def)
  ultimately show ?thesis
    using assms(2) by (simp add: crash(1) excl_ok_def H_def [symmetric])
next
  case (other st t)
  let ?d = "db (sys_world s)"
  have ok: "db_ok ?d" using assms(2) by (simp add: excl_ok_def)
  have ok': "db_ok (exec st t ?d)" "db_step ?d (exec st t ?d)"
    using exec_legal [OF other(2) ok] by auto
  have "excl i (exec st t ?d) (handlers s) (accepted_log s)"
    if "excl i ?d (handlers s) (accepted_log s)" "i \<notin> recovers st t ?d" for i
  proof (rule excl_undisturbed [OF that(1)])
    fix r
    assume r: "find_row i ?d = Some r"
    from exec_undisturbed [OF ok r that(2)] obtain r' where
      "find_row i (exec st t ?d) = Some r'" "undisturbed r r'" by blast
    moreover have "status r = StatusSent \<longrightarrow> r' = r"
    proof
      assume "status r = StatusSent"
      moreover from ok'(2) r obtain r2 where "find_row i (exec st t ?d) = Some r2" "row_step r r2"
        by (auto simp: db_step_def)
      ultimately show "r' = r"
        using row_step_terminal [of r r2] \<open>find_row i (exec st t ?d) = Some r'\<close>
        by (simp add: terminal_iff)
    qed
    ultimately show "\<exists>r'. find_row i (exec st t ?d) = Some r' \<and> undisturbed r r' \<and>
        (status r = StatusSent \<longrightarrow> r' = r)" by blast
  qed
  with assms(2) ok' show ?thesis
    by (auto simp: other(1) other_writes_def excl_ok_def)
next
  case (quiet_move w')
  with assms(2) show ?thesis by (auto simp: excl_ok_def)
qed

lemma excl_start: "sys_start s \<Longrightarrow> excl_ok s"
proof -
  assume s: "sys_start s"
  then have "holds (handlers s h) = None" "pc_ok (handlers s h)" for h
    unfolding sys_start_def by (metis holds.simps(6), metis pc_ok.simps(4))
  with s show "excl_ok s" by (auto simp: excl_ok_def excl_def sys_start_def)
qed

lemma excl_reachable: "sys_reaches s s' \<Longrightarrow> excl_ok s \<Longrightarrow> excl_ok s'"
  by (induction rule: rtranclp_induct) (auto intro: excl_step)

end
