(* ===== verification/Scenarios.thy ===== *)
theory Scenarios
  imports SystemFacts SchedulerFacts BatchFacts
begin

text \<open>
  Concrete inputs for the witnesses: a world in which every call succeeds, whose clocks advance
  by a second per interaction and whose provider answers 200, and small databases.
\<close>

definition calm :: "database \<Rightarrow> world" where
  "calm d =
     \<lparr>db_fate = (\<lambda>k. Succeeds), publish_fate = (\<lambda>k. Confirmed),
      clock = (\<lambda>k. 1000 * second), db_clock = (\<lambda>k. 1000 * second),
      fresh_uuid = (\<lambda>k. word_of_nat (k + 100)), row_locked = (\<lambda>k i. False),
      limiter_ok = (\<lambda>k. True), provider_reply = (\<lambda>k rq. Reply 200 [] True),
      url_ok = (\<lambda>u. True), json_message_id = (\<lambda>b. None), uuid_text = (\<lambda>i. ''id''),
      tmpl_parse = (\<lambda>b. None), tmpl_execute = (\<lambda>b vars. Inr b),
      db = d, published = [], metrics = NewMetrics, requests = [], steps = 0\<rparr>"

lemma calm_simps [simp]:
  "db_fate (calm d) k = Succeeds" "publish_fate (calm d) k = Confirmed"
  "clock (calm d) k = 1000 * second" "db_clock (calm d) k = 1000 * second"
  "fresh_uuid (calm d) k = word_of_nat (k + 100)" "row_locked (calm d) k i = False"
  "limiter_ok (calm d) k = True" "provider_reply (calm d) k rq = Reply 200 [] True"
  "url_ok (calm d) u = True" "json_message_id (calm d) b = None" "uuid_text (calm d) i = ''id''"
  "tmpl_parse (calm d) b = None" "tmpl_execute (calm d) b vars = Inr b"
  "db (calm d) = d" "published (calm d) = []" "metrics (calm d) = NewMetrics"
  "requests (calm d) = []" "steps (calm d) = 0"
  by (simp_all add: calm_def)

lemma Inr_result: "\<not> isl (fst x) \<Longrightarrow> \<exists>y. x = (Inr y, snd x)"
  by (cases x; cases "fst x") auto

text \<open>One SMS notification with identifier 1 in a given state.\<close>

definition sms_row :: "status \<Rightarrow> int \<Rightarrow> notification" where
  "sms_row s a =
     \<lparr>nid = 1, batch_id = None, recipient = ''+905551234567'', channel = ''sms'',
      content = ''hi'', priority = ''normal'', status = s, idempotency_key = Some ''k'',
      scheduled_at = Some 1, attempts = a,
      last_error = (if s = StatusRetrying \<or> s = StatusFailed then Some [] else None),
      provider_message_id = (if s = StatusSent then Some [] else None),
      created_at = 0, updated_at = 0, sent_at = (if s = StatusSent then Some 1 else None)\<rparr>"

definition one_row :: "status \<Rightarrow> int \<Rightarrow> database" where
  "one_row s a = \<lparr>notifications = [sms_row s a], templates = [],
     control = Some \<lparr>wc_paused = False, wc_provider_url = [], wc_updated_at = 0\<rparr>\<rparr>"

lemma sms_row_simps [simp]:
  "nid (sms_row s a) = 1" "status (sms_row s a) = s" "attempts (sms_row s a) = a"
  "channel (sms_row s a) = ''sms''" "priority (sms_row s a) = ''normal''"
  "idempotency_key (sms_row s a) = Some ''k''" "scheduled_at (sms_row s a) = Some 1"
  "created_at (sms_row s a) = 0" "updated_at (sms_row s a) = 0"
  "content (sms_row s a) = ''hi''" "recipient (sms_row s a) = ''+905551234567''"
  by (simp_all add: sms_row_def)

lemma one_row_simps [simp]:
  "notifications (one_row s a) = [sms_row s a]" "templates (one_row s a) = []"
  "control (one_row s a) = Some \<lparr>wc_paused = False, wc_provider_url = [], wc_updated_at = 0\<rparr>"
  by (simp_all add: one_row_def)

lemma one_row_find [simp]: "find_row 1 (one_row s a) = Some (sms_row s a)"
  by (simp add: find_row_def)

lemma one_row_ok:
  "0 \<le> a \<Longrightarrow> a \<le> max_int4 \<Longrightarrow> a = 0 \<longleftrightarrow> s \<in> unstarted \<Longrightarrow> db_ok (one_row s a)"
  by (auto simp: db_ok_def row_ok_def template_ok_def sms_row_def Channel_Valid_def Channels_def
      Priority_Valid_def List.map_filter_simps)

lemma one_row_oks [simp]:
  "db_ok (one_row StatusPending 0)" "db_ok (one_row StatusScheduled 0)"
  "db_ok (one_row StatusQueued 0)" "db_ok (one_row StatusCancelled 0)"
  "db_ok (one_row StatusProcessing 1)" "db_ok (one_row StatusRetrying 1)"
  "db_ok (one_row StatusSent 1)" "db_ok (one_row StatusFailed 1)"
  by (rule one_row_ok; simp add: max_int4_def unstarted_def)+

definition no_rows :: database where
  "no_rows = \<lparr>notifications = [], templates = [], control = None\<rparr>"

lemma no_rows_simps [simp]:
  "notifications no_rows = []" "templates no_rows = []" "db_ok no_rows" "find_row i no_rows = None"
  by (simp_all add: no_rows_def empty_db_ok find_row_def)

definition log_worker :: worker where
  "log_worker = New_worker (newSender [] (10 * second)) True 4 100 10"

section \<open>A slow worker\<close>

text \<open>
  A queued notification, claimed and sent by handler 0, which is then slow to record the
  outcome; the scheduler recovers the row as stale; handler 1 claims and sends it again.
\<close>

definition sys0 :: system where
  "sys0 = \<lparr>sys_world = calm (one_row StatusQueued 0), workers = (\<lambda>p. log_worker),
     handlers = (\<lambda>h. Settled (Inr ())), sent_log = [], accepted_log = [], recovered = {}\<rparr>"

definition start_on :: "nat \<Rightarrow> uuid \<Rightarrow> system \<Rightarrow> system" where
  "start_on h i s = s\<lparr>handlers := (handlers s)(h := Start i)\<rparr>"

definition sys_sent :: system where
  "sys_sent = (handler_moves 0 [] ^^ 3) (start_on 0 1 sys0)"

definition sys_recovered :: system where
  "sys_recovered = other_writes (SRecoverStale (60 * second) 100 (\<lambda>i. False)) (2000 * second) sys_sent"

definition sys_resent :: system where
  "sys_resent = (handler_moves 1 [] ^^ 3) (start_on 1 1 sys_recovered)"

lemma sys0_start: "sys_start sys0"
  by (auto simp: sys_start_def sys0_def)

lemma moves_reach: "sys_reaches s ((handler_moves h ctx ^^ k) s)"
  by (induction k) (auto intro: rtranclp.rtrancl_into_rtrancl handler_move)

lemma start_reaches: "handlers s h = Settled r \<Longrightarrow> sys_reaches s (start_on h i s)"
  unfolding start_on_def by (intro r_into_rtranclp deliver_message)

lemma sys_sent_reachable: "sys_reaches sys0 sys_sent"
  unfolding sys_sent_def
  by (rule rtranclp_trans [OF start_reaches moves_reach]) (simp add: sys0_def)

lemma sys_sent_log: "sent_log sys_sent = [(1, 1)]" "accepted_log sys_sent = [(1, 1)]"
  "recovered sys_sent = {}"
  by code_simp+

lemma handler_moves_other [simp]: "h' \<noteq> h \<Longrightarrow> handlers (handler_moves h ctx s) h' = handlers s h'"
  by (simp add: handler_moves_def split: prod.splits)

lemma sys_resent_reachable: "sys_reaches sys0 sys_resent"
proof -
  have "sys_reaches sys0 sys_recovered"
    unfolding sys_recovered_def
    by (rule rtranclp.rtrancl_into_rtrancl [OF sys_sent_reachable other]) simp
  moreover have "handlers sys_recovered 1 = Settled (Inr ())"
    by (simp add: sys_recovered_def other_writes_def sys_sent_def numeral_3_eq_3 start_on_def sys0_def)
  ultimately show ?thesis
    unfolding sys_resent_def by (meson rtranclp_trans start_reaches moves_reach)
qed

lemma sys_resent_log: "accepted_log sys_resent = [(1, 1), (1, 2)]"
  by code_simp

text \<open>A scheduler that recovers after a minute.\<close>

definition minute_scheduler :: scheduler where
  "minute_scheduler = \<lparr>sc_poll_interval = second, sc_stale_after = 60 * second\<rparr>"

end
