(* ===== verification/Crawl.thy ===== *)
theory Crawl
  imports ApiFacts
begin

text \<open>
  A client that reads a listing page by page: it sends its query, follows \<open>next_cursor\<close>, and stops
  at an empty one. The facts say that the token survives its trip through the client and that
  the crawl ends with the whole listing, every notification once.
\<close>

section \<open>The token\<close>

text \<open>
  What the code relies on from encoding/json and the uuid package: a time that has an RFC 3339
  form is marshalled, and unmarshalling what was marshalled gives it back.
\<close>

definition cursor_codec :: "edge \<Rightarrow> bool" where
  "cursor_codec e \<longleftrightarrow> (\<forall>t i. json_time t \<longrightarrow>
     cursor_json e t i \<noteq> [] \<and> cursor_unjson e (cursor_json e t i) = Some (t, i))"

lemma encodeCursor_nonempty:
  assumes "cursor_codec e" "json_time t"
  shows "encodeCursor e t i \<noteq> []"
proof
  assume "encodeCursor e t i = []"
  then have "DecodeString [] = Some (cursor_json e t i)"
    unfolding encodeCursor_def by (metis DecodeString_EncodeToString)
  then have "cursor_json e t i = []" by (simp add: DecodeString_def)
  moreover have "cursor_json e t i \<noteq> []" using assms by (simp add: cursor_codec_def)
  ultimately show False by contradiction
qed

lemma decode_encodeCursor:
  assumes "cursor_codec e" "json_time t"
  shows "decodeCursor e (encodeCursor e t i) =
    (if t = 0 \<or> i = uuid_Nil then Inl (Errorf [Plain ''cursor missing fields'']) else Inr (t, i))"
  using assms by (simp add: decodeCursor_def encodeCursor_def cursor_codec_def)

section \<open>Pages\<close>

definition with_cursor_param :: "http_request \<Rightarrow> string \<Rightarrow> http_request" where
  "with_cursor_param req c =
     (if c = [] then req else req\<lparr>hr_query := (''cursor'', c) # hr_query req\<rparr>)"

definition page_of :: "http_response \<Rightarrow> (json list \<times> string) option" where
  "page_of resp =
     (case hs_body resp of
        Json (JObj [(k1, JArr ds), (k2, JStr c)]) \<Rightarrow>
          if hs_status resp = 200 \<and> k1 = ''data'' \<and> k2 = ''next_cursor'' then Some (ds, c) else None
      | _ \<Rightarrow> None)"

fun crawl ::
  "notification_handler \<Rightarrow> edge \<Rightarrow> http_request \<Rightarrow> nat \<Rightarrow> string \<Rightarrow> world \<Rightarrow> json list option \<times> world" where
  "crawl h e req 0 c w = (None, w)"
| "crawl h e req (Suc k) c w =
     (case notifications_list h e (with_cursor_param req c) w of (resp, w1) \<Rightarrow>
      case page_of resp of
        None \<Rightarrow> (None, w1)
      | Some (ds, nxt) \<Rightarrow>
          if nxt = [] then (Some ds, w1)
          else case crawl h e req k nxt w1 of (r, w2) \<Rightarrow> (map_option ((@) ds) r, w2))"

lemma query_Get_cursor [simp]:
  "key \<noteq> ''cursor'' \<Longrightarrow> query_Get (with_cursor_param req c) key = query_Get req key"
  by (simp add: query_Get_def with_cursor_param_def)

lemma hr_map_order_cursor [simp]: "hr_map_order (with_cursor_param req c) = hr_map_order req"
  by (simp add: with_cursor_param_def)

lemma parse_cursor_param:
  assumes "c \<noteq> []" "decodeCursor e c = Inr (t, i)"
  shows "parse_cursor e (with_cursor_param req c) q =
    Inr (q\<lparr>q_cursor_created_at := Some t, q_cursor_id := Some i\<rparr>)"
  using assms by (simp add: parse_cursor_def with_cursor_param_def query_Get_def)

lemma parse_others_cursor [simp]:
  "parse_limit (with_cursor_param req c) = parse_limit req"
  "parse_batch_id e (with_cursor_param req c) = parse_batch_id e req"
  "parse_from e (with_cursor_param req c) = parse_from e req"
  "parse_to e (with_cursor_param req c) = parse_to e req"
  by (simp_all add: fun_eq_iff parse_limit_def parse_batch_id_def parse_from_def parse_to_def
      parse_time_param_def)

lemma parse_parts_no_cursor:
  "parse_limit req q = Inr q' \<Longrightarrow> no_cursor q \<Longrightarrow> no_cursor q'"
  "parse_batch_id e req q = Inr q' \<Longrightarrow> no_cursor q \<Longrightarrow> no_cursor q'"
  "parse_from e req q = Inr q' \<Longrightarrow> no_cursor q \<Longrightarrow> no_cursor q'"
  "parse_to e req q = Inr q' \<Longrightarrow> no_cursor q \<Longrightarrow> no_cursor q'"
  by (auto simp: parse_limit_def parse_batch_id_def parse_from_def parse_to_def parse_time_param_def
      no_cursor_def Let_def split: if_splits option.splits)

lemma parseListQuery_no_cursor:
  assumes "parseListQuery e req = Inr q" "query_Get req ''cursor'' = []"
  shows "no_cursor q"
  using assms
  by (auto simp: parseListQuery_def bind_Inr parse_cursor_def Let_def split: if_splits
      dest!: parse_parts_no_cursor intro: no_cursor_def [THEN iffD2])

lemma parseListQuery_with_cursor:
  assumes "parseListQuery e req = Inr q" "query_Get req ''cursor'' = []"
    and "c \<noteq> []" "decodeCursor e c = Inr (created_at r, nid r)"
  shows "parseListQuery e (with_cursor_param req c) = Inr (with_cursor q r)"
  using assms
  by (auto simp: parseListQuery_def bind_Inr parse_cursor_param with_cursor_def)
    (auto simp: parse_cursor_def)

section \<open>The crawl\<close>

lemma effectiveLimit_clamp: "effectiveLimit q = q_limit (clamp_limit q)"
  by (simp add: effectiveLimit_def clamp_limit_def Let_def)

lemma Service_List_succeeds:
  assumes "db_fate w (steps w) = Succeeds" "db_fate w (Suc (steps w)) = Succeeds"
    and "ListQuery_Validate q = None"
  shows "Service_List q w = (Inr (take (nat (effectiveLimit q))
      (newest_first (filter (list_matches q) (notifications (db w))))), w\<lparr>steps := Suc (Suc (steps w))\<rparr>)"
proof -
  let ?q = "clamp_limit q"
  have v: "ListQuery_Validate ?q = None" using assms(3) by simp
  then have "q_status ?q = [] \<or> q_status ?q \<in> status_string ` set allStatuses"
    "q_channel ?q = [] \<or> Channel_Valid (q_channel ?q)"
    by (auto simp: ListQuery_Validate_def Let_def statusValid_def list_ex_iff split: if_splits)
  with assms(1,2) v clamp_limit_bounds(1) [of q] show ?thesis
    by (auto simp: Service_List_def Let_def Repo_List_def db_call_def sql_list_def
        collectNotifications_def read_rows_def effectiveLimit_clamp)
qed

lemma notifications_list_page:
  assumes "parseListQuery e req = Inr q" "ListQuery_Validate q = None"
    and "db_fate w (steps w) = Succeeds" "db_fate w (Suc (steps w)) = Succeeds"
    and ns: "ns = take (nat (effectiveLimit q)) (newest_first (filter (list_matches q) (notifications (db w))))"
    and enc: "\<forall>r \<in> set ns. encodable (toNotificationResponse r)"
  shows "\<exists>resp. notifications_list h e req w = (resp, w\<lparr>steps := Suc (Suc (steps w))\<rparr>) \<and>
    page_of resp = Some (map toNotificationResponse ns, next_cursor e q ns)"
  using assms(1,2) Service_List_succeeds [OF assms(3,4,2), folded ns]
  by (simp add: notifications_list_def writeJSONResponse_def page_of_def list_all_iff enc)

text \<open>A single row with a time that cannot be encoded empties the whole page.\<close>

lemma encodable_notification:
  "encodable (toNotificationResponse n) \<longleftrightarrow> json_time (created_at n) \<and> json_time (updated_at n) \<and>
     (\<forall>t. scheduled_at n = Some t \<longrightarrow> json_time t) \<and> (\<forall>t. sent_at n = Some t \<longrightarrow> json_time t)"
  by (auto simp: toNotificationResponse_def omit_nil_def split: option.splits)

lemma unencodable_row_empties_the_page:
  assumes "parseListQuery e req = Inr q" "Service_List q w = (Inr ns, w')"
    and "r \<in> set ns" "\<not> encodable (toNotificationResponse r)"
  shows "notifications_list h e req w = (\<lparr>hs_status = 200, hs_body = NoBody\<rparr>, w')"
  using assms by (auto simp: notifications_list_def writeJSONResponse_def list_all_iff)

text \<open>
  The state of the crawl: \<open>m\<close> notifications of the listing have been read, and the token is
  empty or stands for the last of them.
\<close>

definition crawl_token :: "edge \<Rightarrow> notification list \<Rightarrow> nat \<Rightarrow> string \<Rightarrow> bool" where
  "crawl_token e xs m c \<longleftrightarrow> m \<le> length xs \<and>
     (if m = 0 then c = []
      else c \<noteq> [] \<and> decodeCursor e c = Inr (created_at (xs ! (m - 1)), nid (xs ! (m - 1))))"

lemma crawl_token_next:
  assumes "cursor_codec e" "\<forall>r \<in> set xs. json_time (created_at r) \<and> created_at r \<noteq> 0 \<and> nid r \<noteq> uuid_Nil"
    and "0 < m" "m \<le> length xs"
  shows "crawl_token e xs m (encodeCursor e (created_at (xs ! (m - 1))) (nid (xs ! (m - 1))))"
proof -
  have "xs ! (m - 1) \<in> set xs" using assms(3,4) by simp
  with assms show ?thesis
    by (simp add: crawl_token_def encodeCursor_nonempty decode_encodeCursor)
qed

lemma limit_with_cursor [simp]:
  "effectiveLimit (with_cursor q r) = effectiveLimit q"
  "ListQuery_Validate (with_cursor q r) = ListQuery_Validate q"
  by (simp_all add: effectiveLimit_def with_cursor_def ListQuery_Validate_def)

lemma crawl_step_query:
  assumes "parseListQuery e req = Inr q" "query_Get req ''cursor'' = []" "ListQuery_Validate q = None"
    and "xs = newest_first (filter (list_matches q) rows)" "distinct (map nid rows)"
    and "\<forall>r \<in> set rows. timestamptz (created_at r) = created_at r"
    and "crawl_token e xs m c"
  shows "\<exists>q'. parseListQuery e (with_cursor_param req c) = Inr q' \<and> ListQuery_Validate q' = None \<and>
    effectiveLimit q' = effectiveLimit q \<and> newest_first (filter (list_matches q') rows) = drop m xs"
proof (cases "m = 0")
  case True
  with assms show ?thesis by (auto simp: crawl_token_def with_cursor_param_def)
next
  case False
  let ?r = "xs ! (m - 1)"
  have "parseListQuery e (with_cursor_param req c) = Inr (with_cursor q ?r)"
    using assms(7) False by (intro parseListQuery_with_cursor [OF assms(1,2)]) (auto simp: crawl_token_def)
  moreover have "newest_first (filter (list_matches (with_cursor q ?r)) rows) = drop m xs"
    using next_page_rows [OF assms(5,6) parseListQuery_no_cursor [OF assms(1,2)] assms(4)] False assms(7)
    by (simp add: crawl_token_def)
  ultimately show ?thesis using assms(3) by simp
qed

lemma next_cursor_cases:
  assumes "pg = take (nat (effectiveLimit q)) rest"
  shows "next_cursor e q pg =
    (if nat (effectiveLimit q) \<le> length rest
     then encodeCursor e (created_at (rest ! (nat (effectiveLimit q) - 1)))
            (nid (rest ! (nat (effectiveLimit q) - 1)))
     else [])"
  using assms clamp_limit_bounds(1) [of q]
  by (auto simp: next_cursor_def effectiveLimit_clamp min_def)

lemma crawl_from:
  assumes codec: "cursor_codec e" and fate: "\<And>k. db_fate w k = Succeeds"
    and q: "parseListQuery e req = Inr q" "query_Get req ''cursor'' = []" "ListQuery_Validate q = None"
    and d: "distinct (map nid (notifications (db w)))"
      "\<forall>r \<in> set (notifications (db w)). timestamptz (created_at r) = created_at r"
    and xs: "xs = newest_first (filter (list_matches q) (notifications (db w)))"
    and rows: "\<forall>r \<in> set xs. encodable (toNotificationResponse r) \<and> created_at r \<noteq> 0 \<and> nid r \<noteq> uuid_Nil"
  shows "crawl_token e xs m c \<Longrightarrow> length xs - m < k \<Longrightarrow> db w' = db w \<Longrightarrow> db_fate w' = db_fate w \<Longrightarrow>
    fst (crawl h e req k c w') = Some (map toNotificationResponse (drop m xs))"
proof (induction k arbitrary: m c w')
  case (Suc k)
  let ?L = "nat (effectiveLimit q)"
  have L: "0 < ?L" using clamp_limit_bounds(1) [of q] by (simp add: effectiveLimit_clamp)
  obtain q' where q': "parseListQuery e (with_cursor_param req c) = Inr q'" "ListQuery_Validate q' = None"
    "effectiveLimit q' = effectiveLimit q" "newest_first (filter (list_matches q') (notifications (db w))) = drop m xs"
    using crawl_step_query [OF q xs d Suc.prems(1)] by blast
  define pg where "pg = take ?L (drop m xs)"
  have alive: "db_fate w' (steps w') = Succeeds" "db_fate w' (Suc (steps w')) = Succeeds" using fate Suc.prems(4) by simp_all
  have pg': "pg = take (nat (effectiveLimit q'))
      (newest_first (filter (list_matches q') (notifications (db w'))))"
    using q'(3,4) Suc.prems(3) by (simp add: pg_def)
  have "set pg \<subseteq> set xs" unfolding pg_def by (meson set_drop_subset set_take_subset subset_trans)
  then have enc: "\<forall>r \<in> set pg. encodable (toNotificationResponse r)" using rows by blast
  have rows': "\<forall>r \<in> set xs. json_time (created_at r) \<and> created_at r \<noteq> 0 \<and> nid r \<noteq> uuid_Nil"
    using rows by (simp add: encodable_notification)
  obtain resp where p: "notifications_list h e (with_cursor_param req c) w' =
      (resp, w'\<lparr>steps := Suc (Suc (steps w'))\<rparr>)"
    "page_of resp = Some (map toNotificationResponse pg, next_cursor e q' pg)"
    using notifications_list_page [OF q'(1,2) alive pg' enc, of h] by blast
  have nc: "next_cursor e q' pg =
      (if ?L \<le> length (drop m xs)
       then encodeCursor e (created_at (drop m xs ! (?L - 1))) (nid (drop m xs ! (?L - 1))) else [])"
    using next_cursor_cases [of pg q' "drop m xs" e] q'(3) by (simp add: pg_def)
  show ?case
  proof (cases "?L \<le> length (drop m xs)")
    case True
    then have m: "m + ?L \<le> length xs" using L by simp
    then have "drop m xs ! (?L - 1) = xs ! (m + ?L - 1)" using L by (simp add: nth_drop)
    with nc True have nc: "next_cursor e q' pg =
        encodeCursor e (created_at (xs ! (m + ?L - 1))) (nid (xs ! (m + ?L - 1)))" by simp
    have tok: "crawl_token e xs (m + ?L) (next_cursor e q' pg)"
      unfolding nc using m L by (intro crawl_token_next [OF codec rows']) simp_all
    then have "next_cursor e q' pg \<noteq> []" using L by (auto simp: crawl_token_def split: if_splits)
    moreover have "fst (crawl h e req k (next_cursor e q' pg) (w'\<lparr>steps := Suc (Suc (steps w'))\<rparr>)) =
        Some (map toNotificationResponse (drop (m + ?L) xs))"
      by (rule Suc.IH [OF tok]) (use Suc.prems m L in auto)
    moreover have "drop m xs = pg @ drop (m + ?L) xs"
      unfolding pg_def by (metis append_take_drop_id add.commute drop_drop)
    ultimately show ?thesis
      by (simp add: p case_prod_unfold)
  next
    case False
    with nc have "next_cursor e q' pg = []" by simp
    moreover have "pg = drop m xs" unfolding pg_def using False by simp
    ultimately show ?thesis by (simp add: p)
  qed
qed simp

end
