(* ===== verification/ApiHealth.thy ===== *)
theory ApiHealth
  imports Crawl
begin

text \<open>
  While the database answers, the notification and template endpoints blame nobody but the
  client: a request whose texts the database can store is never answered with a 5xx.
\<close>

section \<open>Requests that can be stored\<close>

text \<open>
  A text column takes valid UTF-8 without NUL. The content of a notification made from a template
  is what the rendering of that template gives.
\<close>

definition storable_create :: "world \<Rightarrow> create_request \<Rightarrow> bool" where
  "storable_create w p \<longleftrightarrow> pg_text (cq_recipient p) \<and> pg_text (cq_content p) \<and>
     (case cq_idempotency_key p of None \<Rightarrow> True | Some k \<Rightarrow> pg_text k) \<and>
     (case cq_template p of
        None \<Rightarrow> True
      | Some ref \<Rightarrow> list_all (\<lambda>tm. case tmpl_execute w (t_body tm) (tr_vars ref) of
            Inl t \<Rightarrow> True | Inr s \<Rightarrow> pg_text s) (templates (db w)))"

definition storable_request :: "edge \<Rightarrow> world \<Rightarrow> endpoint \<Rightarrow> http_request \<Rightarrow> bool" where
  "storable_request e w ep req =
     (case ep of
        NotificationsCreate \<Rightarrow>
          (case Decode_limited (scan_create e) maxRequestBodyBytes (hr_body req) of
             Inl _ \<Rightarrow> True | Inr p \<Rightarrow> storable_create w p)
      | TemplatesCreate \<Rightarrow>
          (case Decode (scan_template e) (hr_body req) of
             None \<Rightarrow> True | Some p \<Rightarrow> pg_text (tq_name p) \<and> pg_text (tq_body p))
      | TemplatesGet \<Rightarrow> pg_text (hr_param req)
      | _ \<Rightarrow> True)"

definition healthy :: "world \<Rightarrow> bool" where
  "healthy w \<longleftrightarrow> (\<forall>k. db_fate w k = Succeeds) \<and>
     (\<forall>k \<ge> steps w. find_row (fresh_uuid w k) (db w) = None)"

lemma healthy_quiet: "healthy w \<Longrightarrow> quiet w w' \<Longrightarrow> steps w \<le> steps w' \<Longrightarrow> healthy w'"
  by (auto simp: healthy_def quiet_def)

lemma healthy_call:
  assumes "healthy w" "db_call f w = (r, w')"
  shows "f (db_clock w (steps w)) (db w) = (r, db w')"
  using assms by (auto simp: healthy_def db_call_def Let_def split: prod.splits)

lemma healthy_read:
  assumes "healthy w" "query f" "db_call f w = (r, w')"
  shows "fst (f (db_clock w (steps w)) (db w)) = r" "healthy w'"
proof -
  show "fst (f (db_clock w (steps w)) (db w)) = r" using healthy_call [OF assms(1,3)] by simp
  have "steps w' = Suc (steps w)"
    using assms(3) by (auto simp: db_call_def Let_def split: prod.splits fate.splits)
  then show "healthy w'" using healthy_quiet [OF assms(1) query_quiet [OF assms(2,3)]] by simp
qed

section \<open>Reading\<close>

lemma healthy_GetByID_db:
  "(\<forall>k. db_fate w k = Succeeds) \<Longrightarrow> GetByID i w = (Inl e, w') \<Longrightarrow> cause e = ErrNotFound"
  by (auto simp: GetByID_def db_call_def Let_def sql_select_id_def
      split: prod.splits sum.splits if_splits option.splits)

lemma healthy_Service_Get:
  "healthy w \<Longrightarrow> Service_Get i w = (Inl e, w') \<Longrightarrow> cause e = ErrNotFound"
  by (auto simp: Service_Get_def healthy_def dest: healthy_GetByID_db split: prod.splits sum.splits)

lemma healthy_Service_List:
  assumes "healthy w" "Service_List q w = (Inl e, w')"
  shows "as_validation e \<noteq> None"
proof (cases "ListQuery_Validate q")
  case None
  with assms show ?thesis by (simp add: Service_List_succeeds healthy_def)
next
  case (Some x)
  with assms(2) have "e = x" by (simp add: Service_List_def)
  with Some show ?thesis
    by (auto simp: ListQuery_Validate_def Let_def client_fault_def split: if_splits)
qed

lemma healthy_templates:
  "healthy w \<Longrightarrow> pg_text n \<Longrightarrow> Template_GetByName n w = (Inl e, w') \<Longrightarrow> cause e = ErrNotFound"
  "healthy w \<Longrightarrow> Template_List w \<noteq> (Inl e, w')"
  by (auto simp: Template_GetByName_def GetTemplateByName_def Template_List_def Repo_ListTemplates_def
      sql_select_template_def sql_list_templates_def read_rows_def Let_def healthy_def db_call_def
      split: prod.splits sum.splits if_splits option.splits)

section \<open>Writing\<close>

lemma db_call_fate: "db_call f w = (r, w') \<Longrightarrow> db_fate w' = db_fate w"
  by (auto simp: db_call_def Let_def split: prod.splits fate.splits)

lemma healthy_update_call:
  "healthy w \<Longrightarrow> db_call (sql_update_status i to s) w \<noteq> (Inl e, w')"
  by (auto simp: db_call_def healthy_def sql_update_status_def Let_def split: prod.splits)

lemma healthy_UpdateStatus:
  assumes "healthy w" "UpdateStatus i to src w = (Inl e, w')"
  shows "e \<in> {ErrNotFound, ErrInvalidTransition}"
proof -
  obtain r w1 where c: "db_call (sql_update_status i to (map status_string src)) w = (r, w1)"
    by fastforce
  have fate: "\<forall>k. db_fate w1 k = Succeeds"
    using assms(1) db_call_fate [OF c] by (simp add: healthy_def)
  obtain rows where r: "r = Inr rows"
    using healthy_update_call [OF assms(1)] c by (cases r) auto
  obtain x w2 where g: "GetByID i w1 = (x, w2)" by fastforce
  show ?thesis
    using assms(2) c r g healthy_GetByID_db [OF fate]
    by (auto simp: UpdateStatus_def split: if_splits sum.splits)
qed

lemma healthy_Service_Cancel:
  assumes "healthy w" "Service_Cancel i w = (Inl e, w')"
  shows "cause e \<in> {ErrNotFound, ErrInvalidTransition}"
proof -
  obtain y w1 where u: "UpdateStatus i StatusCancelled CancellableStatuses w = (y, w1)" by fastforce
  show ?thesis
  proof (cases y)
    case (Inl x)
    with healthy_UpdateStatus [OF assms(1)] u have "x \<in> {ErrNotFound, ErrInvalidTransition}" by blast
    with assms(2) u Inl show ?thesis by (auto simp: Service_Cancel_def)
  next
    case (Inr z)
    have "db_fate w1 = db_fate w"
      using u Inr by (auto simp: UpdateStatus_def GetByID_def split: prod.splits sum.splits if_splits
          dest!: db_call_fate)
    then have "\<forall>k. db_fate w1 k = Succeeds" using assms(1) by (simp add: healthy_def)
    with assms(2) u Inr show ?thesis
      by (auto simp: Service_Cancel_def split: prod.splits sum.splits
          dest!: healthy_GetByID_db)
  qed
qed

lemma ValidateNew_channel:
  "ValidateNew n now = None \<Longrightarrow> Channel_Valid (channel n) \<and> Priority_Valid (priority n)"
  by (auto simp: ValidateNew_def Let_def split: if_splits)

lemma healthy_Create:
  assumes "healthy w" "Channel_Valid (channel n)" "Priority_Valid (priority n)" "texts_ok n"
    and "find_row (nid n) (db w) = None" "Create n w = (Inl e, w')"
  shows "e = ErrDuplicateIdempotencyKey \<and> db w' = db w \<and> healthy w' \<and>
    find_by idempotency_key (idempotency_key n) (notifications (db w)) \<noteq> None \<and> idempotency_key n \<noteq> None"
proof -
  obtain r w1 where c: "db_call (sql_insert n) w = (r, w1)" by fastforce
  from healthy_call [OF assms(1) c] have i: "sql_insert n (db_clock w (steps w)) (db w) = (r, db w1)" .
  from assms(6) c obtain x where r: "r = Inl x" "w' = w1"
    by (cases r) (auto simp: Create_def split: if_splits)
  with i assms(2-5) have x: "x = PgError ''23505'' ''ux_notifications_idem''" "db w1 = db w"
    "idempotency_key n \<noteq> None"
    "find_by idempotency_key (idempotency_key n) (notifications (db w)) \<noteq> None"
    by (auto simp: sql_insert_def insert_row_def find_row_def split: sum.splits if_splits)
  have "quiet w w1 \<and> steps w1 = Suc (steps w)"
    using c r x assms(1)
    by (auto simp: db_call_def Let_def healthy_def split: prod.splits)
  then have "healthy w1" using healthy_quiet [OF assms(1)] by simp
  with assms(6) c r x show ?thesis
    by (auto simp: Create_def isIdempotencyKeyViolation_def)
qed

lemma db_call_steps: "db_call f w = (r, w') \<Longrightarrow> steps w' = Suc (steps w)"
  by (auto simp: db_call_def Let_def split: prod.splits fate.splits)

lemma resolveContent_steps:
  "resolveContent sv rs inp w = (r, rs', w') \<Longrightarrow> steps w \<le> steps w'"
  by (auto simp: resolveContent_def resolver_render_def resolver_load_def GetTemplateByName_def
      split: option.splits if_splits prod.splits sum.splits dest!: db_call_steps)

lemma GetTemplateByName_stored:
  "GetTemplateByName n w = (Inr tm, w') \<Longrightarrow> tm \<in> set (templates (db w)) \<and> tmpl_execute w' = tmpl_execute w"
  by (auto simp: GetTemplateByName_def sql_select_template_def db_call_def Let_def
      split: prod.splits sum.splits if_splits option.splits fate.splits dest!: find_by_SomeD)

lemma resolveContent_storable:
  assumes "resolveContent sv newTemplateResolver (toCreateInput p) w = (Inr body, rs, w')"
    and "storable_create w p"
  shows "pg_text body"
  using assms
  by (auto simp: resolveContent_def toCreateInput_def storable_create_def resolver_render_def
      resolver_load_def resolver_compile_def newTemplateResolver_def Parsed_Render_def
      template_Parse_def list_all_iff
      split: option.splits if_splits prod.splits sum.splits dest!: GetTemplateByName_stored)

lemma storable_texts_ok:
  assumes "newNotification (toCreateInput p) body now b w = (n, w')" "storable_create v p" "pg_text body"
  shows "texts_ok n"
  using assms
  by (auto simp: newNotification_def texts_ok_def toCreateInput_def storable_create_def
      split: prod.splits option.splits)

lemma healthy_Service_Create:
  assumes ok: "db_ok (db w)" and h: "healthy w" and s: "storable_create w p" and inp: "inp = toCreateInput p"
    and c: "Service_Create sv ctx inp w = (Inl e, w')"
  shows "as_validation e \<noteq> None"
proof -
  obtain now w1 where 1: "Now w = (now, w1)" by fastforce
  obtain r rs w2 where 2: "resolveContent sv newTemplateResolver inp w1 = (r, rs, w2)"
    by (rule prod_cases3)
  have q: "quiet w w2" using Now_quiet [OF 1] resolveContent_quiet [OF 2] by (rule quiet_trans)
  have st: "steps w \<le> steps w2" using 1 resolveContent_steps [OF 2] by (auto simp: Now_def)
  have h2: "healthy w2" using healthy_quiet [OF h q st] .
  show ?thesis
  proof (cases r)
    case (Inl x)
    with c 1 2 resolveContent_Inl [of sv newTemplateResolver inp w1 x rs w2] show ?thesis
      by (auto simp: Service_Create_def invalid_def client_fault_def)
  next
    case (Inr body)
    obtain n w3 where 3: "newNotification inp body now None w2 = (n, w3)" by fastforce
    have n: "nid n = fresh_uuid w2 (steps w2)" "w3 = w2\<lparr>steps := Suc (steps w2)\<rparr>"
      using 3 by (auto simp: newNotification_def uuid_New_def)
    have h3: "healthy w3" "find_row (nid n) (db w3) = None"
      using h2 n by (auto simp: healthy_def)
    show ?thesis
    proof (cases "ValidateNew n now")
      case (Some x)
      with c 1 2 3 Inr as_validation_ValidateNew [OF Some] show ?thesis
        by (auto simp: Service_Create_def client_fault_def)
    next
      case None
      obtain y w4 where 4: "Create n w3 = (y, w4)" by fastforce
      with c 1 2 3 Inr None obtain x where y: "y = Inl x"
        by (cases y) (auto simp: Service_Create_def Let_def split: if_splits prod.splits)
      have "storable_create w1 p" using s 1
        by (auto simp: storable_create_def Now_def split: option.splits)
      then have t: "texts_ok n"
        using storable_texts_ok [OF 3 [unfolded inp] s] resolveContent_storable 2 Inr inp by blast
      then have k_ok: "pg_text k" if "idempotency_key n = Some k" for k using that by (simp add: texts_ok_def)
      from healthy_Create [OF h3(1) _ _ t h3(2), of x w4] ValidateNew_channel [OF None] 4 y
      have x: "x = ErrDuplicateIdempotencyKey" "db w4 = db w3" "healthy w4"
        "find_by idempotency_key (idempotency_key n) (notifications (db w3)) \<noteq> None"
        "idempotency_key n \<noteq> None"
        by auto
      from x(5) newNotification_fields(2) [OF 3] obtain key where k: "ci_idempotency_key inp = Some key"
        "idempotency_key n = Some key" by auto
      obtain z w5 where 5: "GetByIdempotencyKey key w4 = (z, w5)" by fastforce
      have "\<exists>row. z = Inr row"
        using 5 x k k_ok healthy_call [OF x(3)]
        by (auto simp: GetByIdempotencyKey_def sql_select_key_def split: prod.splits sum.splits option.splits
            if_splits dest!: healthy_call [OF x(3)])
      with c 1 2 3 4 5 y Inr None x(1) k(1) show ?thesis
        by (auto simp: Service_Create_def)
    qed
  qed
qed

lemma healthy_CreateTemplate:
  assumes "\<forall>k. db_fate w k = Succeeds" "Channel_Valid (t_channel tm)"
    and "pg_text (t_name tm)" "pg_text (t_body tm)"
    and "Repo_CreateTemplate tm w = (Inl e, w')"
  shows "e = ErrDuplicateTemplateName"
  using assms
  by (auto simp: Repo_CreateTemplate_def db_call_def Let_def sql_insert_template_def
      split: prod.splits sum.splits if_splits option.splits)

lemma ValidateNewTemplate_channel: "ValidateNewTemplate tm = None \<Longrightarrow> Channel_Valid (t_channel tm)"
  by (auto simp: ValidateNewTemplate_def Let_def split: if_splits)

lemma ValidateNewTemplate_as_validation:
  "ValidateNewTemplate tm = Some e \<Longrightarrow> as_validation e \<noteq> None"
  by (auto simp: ValidateNewTemplate_def Let_def split: if_splits)

lemma healthy_Template_Create:
  assumes "healthy w" "pg_text (ct_name inp)" "pg_text (ct_body inp)" "Template_Create inp w = (Inl e, w')"
  shows "as_validation e \<noteq> None \<or> cause e = ErrDuplicateTemplateName"
proof -
  obtain now w1 where 1: "Now w = (now, w1)" by fastforce
  obtain i w2 where 2: "uuid_New w1 = (i, w2)" by fastforce
  have fate: "\<forall>k. db_fate w2 k = Succeeds"
    using assms(1) 1 2 by (auto simp: healthy_def Now_def uuid_New_def)
  let ?tm = "\<lparr>t_id = i, t_name = ct_name inp, t_channel = ct_channel inp, t_body = ct_body inp,
     t_created_at = now, t_updated_at = now\<rparr>"
  show ?thesis
  proof (cases "ValidateNewTemplate ?tm")
    case (Some x)
    with assms(4) 1 2 ValidateNewTemplate_as_validation [OF Some] show ?thesis
      by (simp add: Template_Create_def Let_def)
  next
    case None
    then have "e = ErrDuplicateTemplateName" if "Repo_CreateTemplate ?tm w2 = (Inl e, w3)" for e w3
      using healthy_CreateTemplate [OF fate ValidateNewTemplate_channel _ _ that] assms(2,3) by simp
    with assms(4) 1 2 None show ?thesis
      by (auto simp: Template_Create_def Let_def split: option.splits prod.splits sum.splits)
  qed
qed

section \<open>The endpoints\<close>

definition guarded_endpoints :: "endpoint list" where
  "guarded_endpoints = [NotificationsCreate, NotificationsList, NotificationsGet, NotificationsCancel,
     TemplatesCreate, TemplatesList, TemplatesGet]"

lemma validation_status: "as_validation e \<noteq> None \<Longrightarrow> hs_status (writeServiceError e) = 400"
  by (auto simp: writeServiceError_def)

lemma not_found_status: "cause e = ErrNotFound \<Longrightarrow> hs_status (writeServiceError e) < 500"
  by (simp add: writeServiceError_def split: option.split)

lemma body_error_status: "hs_status (write_body_error l b) < 500"
  by (simp add: write_body_error_def split: body_error.split)

lemma healthy_pages:
  assumes "healthy w"
  shows "db_ok (db w) \<Longrightarrow> storable_request e w NotificationsCreate req \<Longrightarrow>
      hs_status (fst (notifications_create h e ctx req w)) < 500"
    and "hs_status (fst (notifications_list h e req w)) < 500"
    and "hs_status (fst (notifications_get h e req w)) < 500"
    and "hs_status (fst (notifications_cancel h e req w)) < 500"
    and "storable_request e w TemplatesCreate req \<Longrightarrow> hs_status (fst (templates_create e req w)) < 500"
    and "hs_status (fst (templates_list w)) < 500"
    and "storable_request e w TemplatesGet req \<Longrightarrow> hs_status (fst (templates_get req w)) < 500"
proof -
  show "hs_status (fst (notifications_create h e ctx req w)) < 500"
    if "db_ok (db w)" "storable_request e w NotificationsCreate req"
    using that(2)
    by (auto simp: notifications_create_def storable_request_def body_error_status split: sum.splits prod.splits
        dest!: healthy_Service_Create [OF that(1) assms _ refl] validation_status)
  show "hs_status (fst (notifications_list h e req w)) < 500"
    by (auto simp: notifications_list_def split: sum.splits prod.splits
        dest!: healthy_Service_List [OF assms] validation_status)
  show "hs_status (fst (notifications_get h e req w)) < 500"
    by (auto simp: notifications_get_def split: sum.splits prod.splits option.splits
        dest!: healthy_Service_Get [OF assms] not_found_status)
  show "hs_status (fst (notifications_cancel h e req w)) < 500"
    by (auto simp: notifications_cancel_def split: sum.splits prod.splits option.splits
        dest!: healthy_Service_Cancel [OF assms] not_found_status)
  show "hs_status (fst (templates_create e req w)) < 500" if "storable_request e w TemplatesCreate req"
    using that
    by (auto simp: templates_create_def storable_request_def split: sum.splits prod.splits option.splits
        dest!: healthy_Template_Create [OF assms, rotated -1])
  show "hs_status (fst (templates_list w)) < 500"
    using healthy_templates(2) [OF assms] by (auto simp: templates_list_def split: sum.splits prod.splits)
  show "hs_status (fst (templates_get req w)) < 500" if "storable_request e w TemplatesGet req"
    using healthy_templates(1) [OF assms] that
    by (auto simp: templates_get_def storable_request_def split: sum.splits prod.splits)
qed

section \<open>Texts that no column can hold\<close>

text \<open>A valid creation whose texts no column can hold: the client gets the blame of the server.\<close>

definition valid_creation :: "create_request \<Rightarrow> bool" where
  "valid_creation p \<longleftrightarrow> cq_template p = None \<and> cq_scheduled_at p = None \<and>
     cq_channel p \<in> set Channels \<and> (cq_priority p = [] \<or> Priority_Valid (cq_priority p)) \<and>
     recipient_ok (cq_channel p) (cq_recipient p) \<and> content_ok (cq_channel p) (cq_content p)"

lemma unstorable_creation:
  assumes "db_fate w (Suc (Suc (steps w))) = Succeeds"
    and "Decode_limited (scan_create e) maxRequestBodyBytes (hr_body req) = Inr p" "valid_creation p"
    and "\<not> storable_create w p"
  shows "fst (notifications_create h e ctx req w) = writeErrorResponse 500 [Plain ''internal error''] [] \<and>
    quiet w (snd (notifications_create h e ctx req w))"
proof -
  let ?inp = "toCreateInput p"
  obtain now w1 where 1: "Now w = (now, w1)" by fastforce
  obtain n w2 where 2: "newNotification ?inp (cq_content p) now None w1 = (n, w2)" by fastforce
  have rc: "resolveContent (nh_service h) newTemplateResolver ?inp w1 = (Inr (cq_content p), newTemplateResolver, w1)"
    using assms(3) by (simp add: resolveContent_def toCreateInput_def valid_creation_def)
  have v: "ValidateNew n now = None" "\<not> texts_ok n" "Channel_Valid (channel n)" "Priority_Valid (priority n)"
    using 2 assms(3,4)
    by (auto simp: ValidateNew_None_iff new_ok_def valid_creation_def newNotification_def toCreateInput_def
        texts_ok_def storable_create_def Channel_Valid_def Priority_Valid_def
        split: prod.splits option.splits)
  have st: "steps w2 = Suc (Suc (steps w))" "db_fate w2 = db_fate w" "quiet w w2"
    using 1 2 by (auto simp: Now_def newNotification_def uuid_New_def)
  have "Create n w2 = (Inl (Wrap [Plain ''insert notification''] (PgError ''22021'' [])), w2\<lparr>steps := Suc (steps w2)\<rparr>)"
    using v assms(1) st
    by (simp add: Create_def db_call_def sql_insert_def insert_row_def isIdempotencyKeyViolation_def)
  with 1 2 rc v(1) have "Service_Create (nh_service h) ctx ?inp w =
      (Inl (Wrap [Plain ''create notification''] (Wrap [Plain ''insert notification''] (PgError ''22021'' []))),
       w2\<lparr>steps := Suc (steps w2)\<rparr>)"
    by (simp add: Service_Create_def)
  with assms(2) st(3) show ?thesis
    by (auto simp: notifications_create_def writeServiceError_def)
qed

end
