(* ===== verification/Reachability.thy ===== *)
theory Reachability
  imports Main
begin

text \<open>
  Invariants of a step relation: what holds at the start and is kept by every step holds in
  every state that is reached.
\<close>

locale machine =
  fixes start :: "'s \<Rightarrow> bool"
    and step :: "'s \<Rightarrow> 's \<Rightarrow> bool"
    and inv :: "'s \<Rightarrow> bool"
  assumes inv_start: "start s \<Longrightarrow> inv s"
    and inv_step: "inv s \<Longrightarrow> step s s' \<Longrightarrow> inv s'"
begin

lemma inv_steps: "step\<^sup>*\<^sup>* s s' \<Longrightarrow> inv s \<Longrightarrow> inv s'"
  by (induction rule: rtranclp_induct) (auto intro: inv_step)

lemma inv_reached: "start s \<Longrightarrow> step\<^sup>*\<^sup>* s s' \<Longrightarrow> inv s'"
  using inv_steps inv_start by blast

text \<open>Work that some step can always bring closer to its goal can be brought to its goal.\<close>

lemma measure_ends:
  fixes m :: "'s \<Rightarrow> nat"
  assumes "\<And>s. inv s \<Longrightarrow> P s \<Longrightarrow> \<exists>s'. step s s' \<and> R s s' \<and> (G s' \<or> P s' \<and> m s' < m s)"
    and "\<And>a b c. R a b \<Longrightarrow> R b c \<Longrightarrow> R a c"
  shows "inv s \<Longrightarrow> P s \<Longrightarrow> \<exists>s'. step\<^sup>*\<^sup>* s s' \<and> R s s' \<and> G s'"
proof (induction "m s" arbitrary: s rule: less_induct)
  case less
  from assms(1) [OF less.prems] obtain s1 where s1: "step s s1" "R s s1" "G s1 \<or> P s1 \<and> m s1 < m s"
    by blast
  show ?case
  proof (cases "G s1")
    case False
    with less.hyps [of s1] s1 inv_step [OF less.prems(1) s1(1)] obtain s2 where
      "step\<^sup>*\<^sup>* s1 s2" "R s1 s2" "G s2" by blast
    with s1 assms(2) show ?thesis by (meson converse_rtranclp_into_rtranclp)
  qed (use s1 in blast)
qed

end

end
