(* ===== verification/Hub.thy ===== *)
theory Hub
  imports Prelude Reachability
begin

text \<open>
  internal/api/hub.go: the goroutine that owns the WebSocket clients (\<open>Run\<close>), the bounded
  \<open>Broadcast\<close>, and the loop that serves one connection (\<open>serveWS\<close>), as a machine. A client's
  send channel is a queue with a closed flag; receiving from a closed channel gives what is
  left in it first. Clients are numbered by their connection.
\<close>

definition clientSendBuffer :: nat where "clientSendBuffer = 32"
definition broadcastBuffer :: nat where "broadcastBuffer = 64"

record hub_event =
  he_id :: uuid
  he_payload :: string

datatype close_status = PolicyViolation | GoingAway | NormalClosure | WriteFailed

datatype ws_phase = Connecting | Streaming | Left close_status

text \<open>
  \<open>wc_member\<close>: the client is in the hub's map. \<open>wc_taken\<close>, \<open>wc_from\<close> and \<open>wc_upto\<close> are history:
  what the connection has taken from its channel, and the events between which it was a member.
\<close>

record ws_client =
  wc_filter :: uuid
  wc_send :: "string list"
  wc_closed :: bool
  wc_phase :: ws_phase
  wc_member :: bool
  wc_taken :: "string list"
  wc_from :: nat
  wc_upto :: "nat option"

record hub =
  hb_broadcast :: "hub_event list"
  hb_done :: bool
  hb_clients :: "nat \<Rightarrow> ws_client option"
  hb_log :: "hub_event list"

definition NewHub :: hub where
  "NewHub = \<lparr>hb_broadcast = [], hb_done = False, hb_clients = (\<lambda>_. None), hb_log = []\<rparr>"

section \<open>Broadcast, BroadcastRaw\<close>

definition Broadcast :: "uuid \<Rightarrow> string \<Rightarrow> hub \<Rightarrow> hub" where
  "Broadcast i payload h =
     (if length (hb_broadcast h) < broadcastBuffer
      then h\<lparr>hb_broadcast := hb_broadcast h @ [\<lparr>he_id = i, he_payload = payload\<rparr>]\<rparr> else h)"

text \<open>\<open>envelope\<close> is what \<open>json.Unmarshal\<close> finds in a payload.\<close>

definition BroadcastRaw :: "(string \<Rightarrow> uuid option) \<Rightarrow> string \<Rightarrow> hub \<Rightarrow> hub" where
  "BroadcastRaw envelope payload h =
     (case envelope payload of None \<Rightarrow> h | Some i \<Rightarrow> Broadcast i payload h)"

section \<open>Run\<close>

definition wants :: "uuid \<Rightarrow> hub_event \<Rightarrow> bool" where
  "wants f ev \<longleftrightarrow> \<not> (f \<noteq> uuid_Nil \<and> f \<noteq> he_id ev)"

text \<open>\<open>delete(clients, client); close(client.send)\<close> after \<open>n\<close> events.\<close>

definition drop_client :: "nat \<Rightarrow> ws_client \<Rightarrow> ws_client" where
  "drop_client n c = c\<lparr>wc_member := False, wc_closed := True, wc_upto := Some n\<rparr>"

text \<open>What unregistering and the end of \<open>Run\<close> do to a client.\<close>

definition dismiss :: "nat \<Rightarrow> ws_client \<Rightarrow> ws_client" where
  "dismiss n c = (if wc_member c then drop_client n c else c)"

definition offer :: "nat \<Rightarrow> hub_event \<Rightarrow> ws_client \<Rightarrow> ws_client" where
  "offer n ev c =
     (if \<not> wc_member c \<or> \<not> wants (wc_filter c) ev then c
      else if length (wc_send c) < clientSendBuffer
      then c\<lparr>wc_send := wc_send c @ [he_payload ev]\<rparr>
      else drop_client n c)"

definition hub_event_case :: "hub \<Rightarrow> hub" where
  "hub_event_case h =
     (case hb_broadcast h of
        [] \<Rightarrow> h
      | ev # evs \<Rightarrow>
          h\<lparr>hb_broadcast := evs, hb_log := hb_log h @ [ev],
            hb_clients := (\<lambda>k. map_option (offer (length (hb_log h)) ev) (hb_clients h k))\<rparr>)"

definition upd_client :: "nat \<Rightarrow> (ws_client \<Rightarrow> ws_client) \<Rightarrow> hub \<Rightarrow> hub" where
  "upd_client k f h = h\<lparr>hb_clients := (hb_clients h)(k := map_option f (hb_clients h k))\<rparr>"

definition hub_register_case :: "nat \<Rightarrow> hub \<Rightarrow> hub" where
  "hub_register_case k h =
     upd_client k (\<lambda>c. c\<lparr>wc_member := True, wc_phase := Streaming,
       wc_from := length (hb_log h), wc_upto := None\<rparr>) h"

definition hub_unregister_case :: "nat \<Rightarrow> hub \<Rightarrow> hub" where
  "hub_unregister_case k h =
     upd_client k (dismiss (length (hb_log h))) h"

definition hub_stop_case :: "hub \<Rightarrow> hub" where
  "hub_stop_case h =
     h\<lparr>hb_done := True,
       hb_clients := (\<lambda>k. map_option (dismiss (length (hb_log h))) (hb_clients h k))\<rparr>"

section \<open>serveWS\<close>

definition new_client :: "uuid \<Rightarrow> ws_client" where
  "new_client f =
     \<lparr>wc_filter = f, wc_send = [], wc_closed = False, wc_phase = Connecting, wc_member = False,
      wc_taken = [], wc_from = 0, wc_upto = Some 0\<rparr>"

text \<open>The query parameter \<open>id\<close>: absent, or parsed, or a policy violation.\<close>

definition ws_connect :: "(string \<Rightarrow> uuid option) \<Rightarrow> string \<Rightarrow> ws_client" where
  "ws_connect uuid_parse idParam =
     (if idParam = [] then new_client uuid_Nil
      else case uuid_parse idParam of
        None \<Rightarrow> (new_client uuid_Nil)\<lparr>wc_phase := Left PolicyViolation\<rparr>
      | Some f \<Rightarrow> new_client f)"

definition ws_refused :: "ws_client \<Rightarrow> ws_client" where
  "ws_refused c = c\<lparr>wc_phase := Left GoingAway\<rparr>"

text \<open>One turn of the serving loop on the send channel; \<open>ok\<close> is whether the write succeeds.\<close>

definition ws_receive :: "bool \<Rightarrow> ws_client \<Rightarrow> ws_client" where
  "ws_receive ok c =
     (case wc_send c of
        p # ps \<Rightarrow> c\<lparr>wc_send := ps, wc_taken := wc_taken c @ [p],
                     wc_phase := (if ok then Streaming else Left WriteFailed)\<rparr>
      | [] \<Rightarrow> if wc_closed c then c\<lparr>wc_phase := Left GoingAway\<rparr> else c)"

definition ws_reader_done :: "ws_client \<Rightarrow> ws_client" where
  "ws_reader_done c = c\<lparr>wc_phase := Left NormalClosure\<rparr>"

section \<open>The machine\<close>

inductive hub_step :: "hub \<Rightarrow> hub \<Rightarrow> bool" where
  broadcast: "hub_step h (Broadcast i payload h)"
| event: "\<not> hb_done h \<Longrightarrow> hub_step h (hub_event_case h)"
| connect: "hb_clients h k = None \<Longrightarrow>
    hub_step h (h\<lparr>hb_clients := (hb_clients h)(k := Some (ws_connect uuid_parse idParam))\<rparr>)"
| register: "hb_clients h k = Some c \<Longrightarrow> wc_phase c = Connecting \<Longrightarrow> \<not> hb_done h \<Longrightarrow>
    hub_step h (hub_register_case k h)"
| refused: "hb_clients h k = Some c \<Longrightarrow> wc_phase c = Connecting \<Longrightarrow> hb_done h \<Longrightarrow>
    hub_step h (upd_client k ws_refused h)"
| receive: "hb_clients h k = Some c \<Longrightarrow> wc_phase c = Streaming \<Longrightarrow>
    hub_step h (upd_client k (ws_receive ok) h)"
| reader_done: "hb_clients h k = Some c \<Longrightarrow> wc_phase c = Streaming \<Longrightarrow>
    hub_step h (upd_client k ws_reader_done h)"
| unregister: "hb_clients h k = Some c \<Longrightarrow> wc_phase c = Left r \<Longrightarrow> \<not> hb_done h \<Longrightarrow>
    hub_step h (hub_unregister_case k h)"
| stop: "\<not> hb_done h \<Longrightarrow> hub_step h (hub_stop_case h)"

section \<open>What a client receives\<close>

text \<open>The events of a client: those handled while it was a member, as far as it wants them.\<close>

definition client_events :: "hub_event list \<Rightarrow> ws_client \<Rightarrow> string list" where
  "client_events log c =
     map he_payload (filter (wants (wc_filter c))
       (drop (wc_from c) (case wc_upto c of None \<Rightarrow> log | Some u \<Rightarrow> take u log)))"

definition client_ok :: "hub_event list \<Rightarrow> ws_client \<Rightarrow> bool" where
  "client_ok log c \<longleftrightarrow>
     wc_taken c @ wc_send c = client_events log c \<and> length (wc_send c) \<le> clientSendBuffer \<and>
     (wc_member c \<longleftrightarrow> wc_upto c = None) \<and> (wc_member c \<longrightarrow> \<not> wc_closed c) \<and>
     wc_from c \<le> length log \<and> (\<forall>u. wc_upto c = Some u \<longrightarrow> u \<le> length log) \<and>
     (wc_phase c = Connecting \<longrightarrow> \<not> wc_member c \<and> \<not> wc_closed c \<and> wc_taken c = [] \<and> wc_send c = [])"

definition hub_ok :: "hub \<Rightarrow> bool" where
  "hub_ok h \<longleftrightarrow> length (hb_broadcast h) \<le> broadcastBuffer \<and>
     (\<forall>k c. hb_clients h k = Some c \<longrightarrow> client_ok (hb_log h) c) \<and>
     (hb_done h \<longrightarrow> (\<forall>k c. hb_clients h k = Some c \<longrightarrow> \<not> wc_member c))"

lemma hub_okD: "hub_ok h \<Longrightarrow> hb_clients h k = Some c \<Longrightarrow> client_ok (hb_log h) c"
  by (simp add: hub_ok_def)

lemma hub_ok_doneD: "hub_ok h \<Longrightarrow> hb_done h \<Longrightarrow> hb_clients h k = Some c \<Longrightarrow> \<not> wc_member c"
  by (simp add: hub_ok_def)

lemma drop_client_member [simp]: "\<not> wc_member (drop_client n c)"
  by (simp add: drop_client_def)

lemma ws_receive_member [simp]: "wc_member (ws_receive ok c) = wc_member c"
  by (simp add: ws_receive_def split: list.split)

lemma upd_client_ok:
  assumes "hub_ok h" "\<And>c. hb_clients h k = Some c \<Longrightarrow> client_ok (hb_log h) (f c)"
    and "\<And>c. hb_clients h k = Some c \<Longrightarrow> hb_done h \<Longrightarrow> \<not> wc_member (f c)"
  shows "hub_ok (upd_client k f h)"
  using assms by (auto simp: hub_ok_def upd_client_def)

lemma drop_client_ok: "client_ok log c \<Longrightarrow> wc_member c \<Longrightarrow> client_ok log (drop_client (length log) c)"
  by (auto simp: client_ok_def drop_client_def client_events_def)

lemma dismiss_ok: "client_ok log c \<Longrightarrow> client_ok log (dismiss (length log) c)"
  by (simp add: dismiss_def drop_client_ok)

lemma dismiss_member [simp]: "\<not> wc_member (dismiss n c)"
  by (simp add: dismiss_def)

lemma offer_ok: "client_ok log c \<Longrightarrow> client_ok (log @ [ev]) (offer (length log) ev c)"
  by (auto simp: client_ok_def offer_def drop_client_def client_events_def split: option.splits)

lemma ws_receive_ok: "client_ok log c \<Longrightarrow> wc_phase c = Streaming \<Longrightarrow> client_ok log (ws_receive ok c)"
  by (auto simp: client_ok_def ws_receive_def client_events_def split: list.splits)

lemma ws_connect_ok:
  "client_ok log (ws_connect uuid_parse idParam) \<and> \<not> wc_member (ws_connect uuid_parse idParam)"
  by (auto simp: client_ok_def ws_connect_def new_client_def client_events_def split: option.splits)

lemma hub_event_case_ok: "hub_ok h \<Longrightarrow> \<not> hb_done h \<Longrightarrow> hub_ok (hub_event_case h)"
  by (auto simp: hub_ok_def hub_event_case_def split: list.splits intro: offer_ok)

lemma hub_stop_case_ok: "hub_ok h \<Longrightarrow> hub_ok (hub_stop_case h)"
  by (auto simp: hub_ok_def hub_stop_case_def intro: dismiss_ok)

lemma client_ok_left: "client_ok log c \<Longrightarrow> client_ok log (c\<lparr>wc_phase := Left r\<rparr>)"
  by (simp add: client_ok_def client_events_def)

lemma client_registers:
  "client_ok log c \<Longrightarrow> wc_phase c = Connecting \<Longrightarrow> client_ok log (c\<lparr>wc_member := True,
     wc_phase := Streaming, wc_from := length log, wc_upto := None\<rparr>)"
  by (auto simp: client_ok_def client_events_def)

lemma hub_step_ok:
  assumes "hub_ok h" "hub_step h h'"
  shows "hub_ok h'"
  using assms(2)
proof cases
  case (broadcast i payload)
  with assms(1) show ?thesis by (auto simp: hub_ok_def Broadcast_def)
next
  case (connect k uuid_parse idParam)
  with assms(1) ws_connect_ok show ?thesis by (auto simp: hub_ok_def)
next
  case (register k c)
  with assms(1) show ?thesis
    unfolding hub_register_case_def by (auto intro!: upd_client_ok client_registers dest: hub_okD)
next
  case (refused k c)
  with assms(1) show ?thesis
    by (auto simp: ws_refused_def intro!: upd_client_ok client_ok_left dest: hub_okD hub_ok_doneD)
next
  case (receive k c ok)
  with assms(1) show ?thesis
    by (auto intro!: upd_client_ok ws_receive_ok dest: hub_okD hub_ok_doneD)
next
  case (reader_done k c)
  with assms(1) show ?thesis
    by (auto simp: ws_reader_done_def intro!: upd_client_ok client_ok_left dest: hub_okD hub_ok_doneD)
next
  case (unregister k c r)
  with assms(1) show ?thesis
    by (auto simp: hub_unregister_case_def intro!: upd_client_ok dismiss_ok dest: hub_okD hub_ok_doneD)
qed (auto intro: hub_event_case_ok hub_stop_case_ok assms(1))

lemma NewHub_ok: "hub_ok NewHub"
  by (simp add: hub_ok_def NewHub_def)

interpretation live_stream: machine "\<lambda>h. h = NewHub" hub_step hub_ok
  by unfold_locales (auto intro: NewHub_ok hub_step_ok)

end
