(* ===== verification/Boot.thy ===== *)
theory Boot
  imports Router Hub
begin

text \<open>
  cmd/notifier/main.go: \<open>run\<close> from loading the configuration to starting the components that the
  role asks for, and its end. With the constructors that open connections (\<open>Migrate\<close>, the two
  \<open>Connect\<close> functions, \<open>NewPublisher\<close>) and the consumer of the event exchange
  (internal/queue/rabbit/events.go). What the foreign calls answer is a parameter.
\<close>

datatype up_outcome = UpApplied | UpNoChange | UpFailed error

record boot_env =
  bt_lookup :: lookup
  bt_source :: "error option"
  bt_migrator :: "string \<Rightarrow> error option"
  bt_up :: up_outcome
  bt_pool_New :: "string \<Rightarrow> error option"
  bt_dial :: "string \<Rightarrow> error option"
  bt_declare_fails :: "nat \<Rightarrow> bool"
  bt_channel :: "error option"
  bt_confirm :: "error option"
  bt_event_channel :: "error option"

section \<open>Opening the connections\<close>

text \<open>One foreign call of a constructor and the message its error is wrapped in.\<close>

definition attempt :: "string \<Rightarrow> error option \<Rightarrow> unit result" where
  "attempt m r = (case r of Some e \<Rightarrow> Inl (Wrap [Plain m] e) | None \<Rightarrow> Inr ())"

definition Migrate :: "boot_env \<Rightarrow> string \<Rightarrow> bool result" where
  "Migrate b databaseURL =
     bind (attempt ''open embedded migrations'' (bt_source b)) (\<lambda>_.
     bind (attempt ''create migrator'' (bt_migrator b (migrateURL databaseURL))) (\<lambda>_.
     case bt_up b of
       UpApplied \<Rightarrow> Inr True
     | UpNoChange \<Rightarrow> Inr False
     | UpFailed e \<Rightarrow> Inl (Wrap [Plain ''apply migrations''] e)))"

definition postgres_Connect :: "boot_env \<Rightarrow> string \<Rightarrow> world \<Rightarrow> unit result \<times> world" where
  "postgres_Connect b databaseURL w =
     (case attempt ''create pgx pool'' (bt_pool_New b databaseURL) of
        Inl e \<Rightarrow> (Inl e, w)
      | Inr _ \<Rightarrow>
          (case ping_postgres w of
             (Some e, w1) \<Rightarrow> (Inl (Wrap [Plain ''ping postgres''] e), w1)
           | (None, w1) \<Rightarrow> (Inr (), w1)))"

definition rabbit_Connect :: "boot_env \<Rightarrow> string \<Rightarrow> unit result" where
  "rabbit_Connect b rabbitURL = attempt ''dial rabbitmq'' (bt_dial b rabbitURL)"

definition NewPublisher :: "boot_env \<Rightarrow> unit result" where
  "NewPublisher b =
     bind (attempt ''open publisher channel'' (bt_channel b)) (\<lambda>_.
     bind (attempt ''enable publisher confirms'' (bt_confirm b)) (\<lambda>_.
     attempt ''open event channel'' (bt_event_channel b)))"

section \<open>The components that a role starts\<close>

datatype component =
    DepthPoller
  | EventHub
  | EventConsumer
  | HttpServer int router_config
  | SchedulerLoop scheduler
  | QueueWorker worker int

definition started :: "config \<Rightarrow> edge \<Rightarrow> component list" where
  "started c e =
     [DepthPoller] @
     (if runsAPI c
      then [EventHub, EventConsumer, HttpServer (cf_http_port c) (main_router c e),
            SchedulerLoop (main_scheduler c)] else []) @
     (if runsWorker c
      then [QueueWorker (main_worker c) (cf_worker_prefetch c)] @
        (if \<not> runsAPI c then [HttpServer (cf_http_port c) (main_ops_router e)] else []) else [])"

section \<open>run\<close>

text \<open>Everything before the components, in order; the first error ends the process.\<close>

definition boot ::
  "boot_env \<Rightarrow> edge \<Rightarrow> topology \<Rightarrow> world \<Rightarrow> component list result \<times> topology \<times> world" where
  "boot b e T w =
     (case Load (bt_lookup b) of
        Inl err \<Rightarrow> (Inl (Wrap [Plain ''load config''] err), T, w)
      | Inr c \<Rightarrow>
      case Migrate b (cf_database_url c) of
        Inl err \<Rightarrow> (Inl (Wrap [Plain ''run migrations''] err), T, w)
      | Inr applied \<Rightarrow>
      case postgres_Connect b (cf_database_url c) w of
        (Inl err, w1) \<Rightarrow> (Inl (Wrap [Plain ''connect postgres''] err), T, w1)
      | (Inr _, w1) \<Rightarrow>
      case EnsureWorkerControl w1 of
        (Inl err, w2) \<Rightarrow> (Inl (Wrap [Plain ''ensure worker control''] err), T, w2)
      | (Inr _, w2) \<Rightarrow>
      case rabbit_Connect b (cf_rabbit_url c) of
        Inl err \<Rightarrow> (Inl (Wrap [Plain ''connect rabbitmq''] err), T, w2)
      | Inr _ \<Rightarrow>
      case DeclareTopology (bt_declare_fails b) T of
        (Some err, T1) \<Rightarrow> (Inl (Wrap [Plain ''declare topology''] err), T1, w2)
      | (None, T1) \<Rightarrow>
      case NewPublisher b of
        Inl err \<Rightarrow> (Inl (Wrap [Plain ''create publisher''] err), T1, w2)
      | Inr _ \<Rightarrow> (Inr (started c e), T1, w2))"

text \<open>
  The end: a component's fatal error is returned at once; after a signal the HTTP server is shut
  down first and then every component is joined.
\<close>

datatype exit_cause = Signalled | FatalError error

definition fatal :: "component \<Rightarrow> config \<Rightarrow> error \<Rightarrow> error option" where
  "fatal cp c e =
     (case cp of
        HttpServer port cfg \<Rightarrow>
          Some (Wrap [Plain (if runsAPI c then ''http server'' else ''ops server'')] e)
      | QueueWorker wk prefetch \<Rightarrow> Some (Wrap [Plain ''worker''] e)
      | _ \<Rightarrow> None)"

definition run_end :: "exit_cause \<Rightarrow> error option \<Rightarrow> error option" where
  "run_end why shutdown_err =
     (case why of
        FatalError e \<Rightarrow> Some e
      | Signalled \<Rightarrow> map_option (\<lambda>e. Wrap [Plain ''shutdown http server''] e) shutdown_err)"

text \<open>\<open>main\<close>: the exit code of the process.\<close>

definition main_exit :: "error option \<Rightarrow> int" where
  "main_exit r = (case r of None \<Rightarrow> 0 | Some e \<Rightarrow> 1)"

section \<open>The event consumer (events.go)\<close>

datatype stream_item = Delivered string | StreamClosed | ContextDone

fun consume_items :: "(string \<Rightarrow> 's \<Rightarrow> 's) \<Rightarrow> stream_item list \<Rightarrow> 's \<Rightarrow> 's" where
  "consume_items handle_payload [] s = s"
| "consume_items handle_payload (Delivered payload # items) s =
     consume_items handle_payload items (handle_payload payload s)"
| "consume_items handle_payload (StreamClosed # items) s = s"
| "consume_items handle_payload (ContextDone # items) s = s"

record events_setup =
  es_channel :: "error option"
  es_declare :: "error option"
  es_bind :: "error option"
  es_consume :: "error option"

definition ConsumeEvents ::
  "events_setup \<Rightarrow> (string \<Rightarrow> 's \<Rightarrow> 's) \<Rightarrow> stream_item list \<Rightarrow> 's \<Rightarrow> unit result \<times> 's" where
  "ConsumeEvents su handle_payload items s =
     (case bind (attempt ''open events channel'' (es_channel su)) (\<lambda>_.
           bind (attempt ''declare events queue'' (es_declare su)) (\<lambda>_.
           bind (attempt ''bind events queue'' (es_bind su)) (\<lambda>_.
           attempt ''consume events'' (es_consume su)))) of
        Inl e \<Rightarrow> (Inl e, s)
      | Inr _ \<Rightarrow> (Inr (), consume_items handle_payload items s))"

text \<open>As main.go wires it: every payload goes to the hub.\<close>

definition feed_hub ::
  "events_setup \<Rightarrow> (string \<Rightarrow> uuid option) \<Rightarrow> stream_item list \<Rightarrow> hub \<Rightarrow> unit result \<times> hub" where
  "feed_hub su envelope items h = ConsumeEvents su (BroadcastRaw envelope) items h"

section \<open>What a successful boot has put in place\<close>

lemma sql_ensure_control_control: "control (snd (sql_ensure_control t d)) \<noteq> None"
  by (simp add: sql_ensure_control_def split: option.split)

lemma EnsureWorkerControl_Inr:
  assumes "EnsureWorkerControl w = (Inr (), w')"
  shows "control (db w') \<noteq> None"
proof -
  from assms obtain w4 u where "db_call sql_ensure_control w4 = (Inr u, w')"
    by (auto simp: EnsureWorkerControl_def Let_def split: prod.splits sum.splits)
  from db_call_Inr [OF this] sql_ensure_control_control show ?thesis by (metis snd_conv)
qed

lemma postgres_Connect_quiet: "postgres_Connect b u w = (r, w') \<Longrightarrow> quiet w w'"
  by (auto simp: postgres_Connect_def ping_postgres_def split: sum.splits prod.splits option.splits
      dest: query_quiet [rotated])

lemma boot_Inr:
  assumes "boot b e T w = (Inr comps, T', w')"
  obtains c where "config_of (bt_lookup b) c" "comps = started c e" "control (db w') \<noteq> None"
    "DeclareTopology (bt_declare_fails b) T = (None, T')"
  using assms
  by (auto simp: boot_def Load_Inr split: sum.splits prod.splits option.splits
      dest!: EnsureWorkerControl_Inr)

end
