(* ===== verification/Consumer.thy ===== *)
theory Consumer
  imports Worker WorkerFacts Reachability "HOL-Library.Multiset"
begin

text \<open>
  internal/worker/consume.go: \<open>Run\<close>, \<open>superviseQueue\<close>, \<open>waitWhilePaused\<close> and
  \<open>consumeUntilPaused\<close> as a machine. Each queue has a supervisor that waits out pauses,
  subscribes, and watches its session; a session is a buffer of deliveries that the broker has
  pushed and a pool of handlers that take from it. A delivery that is taken is handled in one
  step by \<open>handleDelivery\<close>; theory System says what changes when its pieces interleave.
  The broker's part is the documented one: it pushes while the subscription is open and the
  prefetch count allows, keeps a message until it is acknowledged or discarded, and takes back
  what was not when the channel ends; the client then hands over what it had buffered, or drops it.
\<close>

section \<open>State\<close>

datatype slot = Idle | Busy publishing | Exited

record session =
  ss_buffered :: "publishing list"
  ss_slots :: "slot list"
  ss_draining :: bool
  ss_cancel_requested :: bool
  ss_closed :: bool
  ss_lost :: bool

datatype phase = Waiting | Subscribing | Consuming session | Ended "error option"

text \<open>\<open>qs_arrived\<close> and \<open>qs_settled\<close> are the history: what the queue got and what has left it.\<close>

record queue_state =
  qs_ready :: "publishing list"
  qs_phase :: phase
  qs_arrived :: "publishing list"
  qs_settled :: "publishing list"

record consumers =
  cs_worker :: worker
  cs_world :: world
  cs_prefetch :: nat
  cs_ctx_done :: bool
  cs_signalled :: bool
  cs_errs :: "error list"
  cs_queue :: "string \<Rightarrow> queue_state"

definition busy_in :: "slot list \<Rightarrow> publishing list" where
  "busy_in slots = concat (map (\<lambda>s. case s of Busy m \<Rightarrow> [m] | _ \<Rightarrow> []) slots)"

definition unacked :: "session \<Rightarrow> publishing list" where
  "unacked ses = ss_buffered ses @ busy_in (ss_slots ses)"

text \<open>What the broker counts as delivered and not yet settled.\<close>

definition held :: "queue_state \<Rightarrow> publishing list" where
  "held qs = (case qs_phase qs of Consuming ses \<Rightarrow> if ss_lost ses then [] else unacked ses | _ \<Rightarrow> [])"

definition handling :: "queue_state \<Rightarrow> publishing list" where
  "handling qs = (case qs_phase qs of Consuming ses \<Rightarrow> busy_in (ss_slots ses) | _ \<Rightarrow> [])"

definition upd_queue :: "string \<Rightarrow> (queue_state \<Rightarrow> queue_state) \<Rightarrow> consumers \<Rightarrow> consumers" where
  "upd_queue q f s = s\<lparr>cs_queue := (cs_queue s)(q := f (cs_queue s q))\<rparr>"

definition in_session :: "string \<Rightarrow> (session \<Rightarrow> session) \<Rightarrow> consumers \<Rightarrow> consumers" where
  "in_session q f s = upd_queue q (\<lambda>qs. qs\<lparr>qs_phase :=
     (case qs_phase qs of Consuming ses \<Rightarrow> Consuming (f ses) | ph \<Rightarrow> ph)\<rparr>) s"

section \<open>Supervising a queue (superviseQueue, waitWhilePaused)\<close>

definition read_pause :: "consumers \<Rightarrow> bool \<times> consumers" where
  "read_pause s =
     (case isPaused (cs_worker s) (cs_world s) of
        (paused, wk, w) \<Rightarrow> (paused, s\<lparr>cs_worker := wk, cs_world := w\<rparr>))"

text \<open>One turn of the loop that waits: the context is looked at before the flag.\<close>

definition waitWhilePaused :: "string \<Rightarrow> consumers \<Rightarrow> consumers" where
  "waitWhilePaused q s =
     (if cs_ctx_done s then upd_queue q (\<lambda>qs. qs\<lparr>qs_phase := Ended None\<rparr>) s
      else case read_pause s of (paused, s1) \<Rightarrow>
        if paused then s1 else upd_queue q (\<lambda>qs. qs\<lparr>qs_phase := Subscribing\<rparr>) s1)"

text \<open>A supervisor that returns an error stops its siblings, and \<open>Run\<close> will report it.\<close>

definition consumer_dies :: "string \<Rightarrow> error \<Rightarrow> consumers \<Rightarrow> consumers" where
  "consumer_dies q e s =
     upd_queue q (\<lambda>qs. qs\<lparr>qs_phase := Ended (Some e)\<rparr>)
       (s\<lparr>cs_errs := cs_errs s @ [e], cs_ctx_done := True\<rparr>)"

section \<open>A session (consumeUntilPaused)\<close>

datatype subscription = Subscribed | OpenFailed error | QosFailed error | ConsumeFailed error

definition new_session :: "worker \<Rightarrow> session" where
  "new_session wk =
     \<lparr>ss_buffered = [], ss_slots = replicate (nat (wk_concurrency wk)) Idle, ss_draining = False,
      ss_cancel_requested = False, ss_closed = False, ss_lost = False\<rparr>"

definition subscribe :: "string \<Rightarrow> subscription \<Rightarrow> consumers \<Rightarrow> consumers" where
  "subscribe q outcome s =
     (if cs_ctx_done s then upd_queue q (\<lambda>qs. qs\<lparr>qs_phase := Ended None\<rparr>) s
      else case outcome of
        OpenFailed e \<Rightarrow> consumer_dies q (Wrap [Plain ''open consumer channel for '', Plain q] e) s
      | QosFailed e \<Rightarrow> consumer_dies q (Wrap [Plain ''set prefetch for '', Plain q] e) s
      | ConsumeFailed e \<Rightarrow> consumer_dies q (Wrap [Plain ''consume '', Plain q] e) s
      | Subscribed \<Rightarrow>
          upd_queue q (\<lambda>qs. qs\<lparr>qs_phase := Consuming (new_session (cs_worker s))\<rparr>) s)"

text \<open>A handler takes the next delivery: requeued when draining, handled otherwise.\<close>

definition take_delivery :: "string \<Rightarrow> nat \<Rightarrow> session \<Rightarrow> consumers \<Rightarrow> consumers" where
  "take_delivery q h ses s =
     (case ss_buffered ses of
        [] \<Rightarrow> s
      | m # ms \<Rightarrow>
          if ss_draining ses then
            upd_queue q (\<lambda>qs. qs\<lparr>qs_ready := (if ss_lost ses then qs_ready qs else qs_ready qs @ [m]),
              qs_phase := Consuming (ses\<lparr>ss_buffered := ms\<rparr>)\<rparr>) s
          else
            upd_queue q (\<lambda>qs. qs\<lparr>qs_phase := Consuming (ses\<lparr>ss_buffered := ms,
              ss_slots := (ss_slots ses)[h := Busy m]\<rparr>)\<rparr>) s)"

text \<open>
  What settling does to the queue: acknowledging and discarding (\<open>Nack\<close> without requeue, on a
  queue without a dead-letter exchange) remove the message, \<open>Nack\<close> with requeue puts it back.
  On a channel that is gone, none of them reaches the broker.
\<close>

definition settle :: "bool \<Rightarrow> settlement \<Rightarrow> publishing \<Rightarrow> queue_state \<Rightarrow> queue_state" where
  "settle lost st m qs =
     (if lost then qs
      else case st of
        Acked \<Rightarrow> qs\<lparr>qs_settled := qs_settled qs @ [m]\<rparr>
      | Discarded \<Rightarrow> qs\<lparr>qs_settled := qs_settled qs @ [m]\<rparr>
      | Requeued \<Rightarrow> qs\<lparr>qs_ready := qs_ready qs @ [m]\<rparr>
      | Crashed \<Rightarrow> qs)"

text \<open>A panic ends the process: every queue gets back what was not settled.\<close>

definition process_dies :: "consumers \<Rightarrow> consumers" where
  "process_dies s =
     s\<lparr>cs_ctx_done := True, cs_errs := cs_errs s @ [GoPanic],
       cs_queue := (\<lambda>q. (cs_queue s q)\<lparr>qs_ready := qs_ready (cs_queue s q) @ held (cs_queue s q),
         qs_phase := Ended (Some GoPanic)\<rparr>)\<rparr>"

definition finish_delivery :: "string \<Rightarrow> nat \<Rightarrow> session \<Rightarrow> publishing \<Rightarrow> consumers \<Rightarrow> consumers" where
  "finish_delivery q h ses m s =
     (case handleDelivery (cs_worker s) [] m (cs_world s) of
        (st, wk, w) \<Rightarrow>
          let s1 = s\<lparr>cs_worker := wk, cs_world := w\<rparr> in
          if st = Crashed then process_dies s1
          else upd_queue q (\<lambda>qs. (settle (ss_lost ses) st m qs)\<lparr>qs_phase :=
                 Consuming (ses\<lparr>ss_slots := (ss_slots ses)[h := Idle]\<rparr>)\<rparr>) s1)"

definition cancelSubscription :: "session \<Rightarrow> session" where
  "cancelSubscription ses =
     (if ss_cancel_requested ses then ses
      else ses\<lparr>ss_cancel_requested := True, ss_draining := True\<rparr>)"

text \<open>
  The supervisor's three events: shutdown, a pause tick, and the end of the pool. When the pool
  is gone the AMQP channel is closed, which gives the broker back whatever is not settled.
\<close>

definition supervise_shutdown :: "string \<Rightarrow> consumers \<Rightarrow> consumers" where
  "supervise_shutdown q s = in_session q cancelSubscription s"

definition supervise_tick :: "string \<Rightarrow> consumers \<Rightarrow> consumers" where
  "supervise_tick q s =
     (case read_pause s of (paused, s1) \<Rightarrow>
        if paused then in_session q cancelSubscription s1 else s1)"

definition session_ends :: "string \<Rightarrow> session \<Rightarrow> consumers \<Rightarrow> consumers" where
  "session_ends q ses s =
     (let s1 = upd_queue q (\<lambda>qs. qs\<lparr>qs_ready := qs_ready qs @ held qs, qs_phase := Waiting\<rparr>) s
      in if ss_cancel_requested ses then s1
         else consumer_dies q
           (Errorf [Plain ''delivery channel for '', Plain q, Plain '' closed by broker'']) s1)"

section \<open>The machine\<close>

definition may_push :: "consumers \<Rightarrow> session \<Rightarrow> bool" where
  "may_push s ses \<longleftrightarrow> \<not> ss_closed ses \<and>
     (cs_prefetch s = 0 \<or> length (unacked ses) < cs_prefetch s)"

definition push_delivery :: "string \<Rightarrow> nat \<Rightarrow> session \<Rightarrow> consumers \<Rightarrow> consumers" where
  "push_delivery q i ses s =
     upd_queue q (\<lambda>qs. qs\<lparr>qs_ready := take i (qs_ready qs) @ drop (Suc i) (qs_ready qs),
       qs_phase := Consuming (ses\<lparr>ss_buffered := ss_buffered ses @ [qs_ready qs ! i]\<rparr>)\<rparr>) s"

definition broker_closes :: "string \<Rightarrow> session \<Rightarrow> consumers \<Rightarrow> consumers" where
  "broker_closes q ses s =
     upd_queue q (\<lambda>qs. qs\<lparr>qs_ready := qs_ready qs @ unacked ses,
       qs_phase := Consuming (ses\<lparr>ss_closed := True, ss_lost := True\<rparr>)\<rparr>) s"

definition in_phase :: "consumers \<Rightarrow> string \<Rightarrow> phase \<Rightarrow> bool" where
  "in_phase s q ph \<longleftrightarrow> qs_phase (cs_queue s q) = ph"

inductive consumer_step :: "consumers \<Rightarrow> consumers \<Rightarrow> bool" where
  wait: "in_phase s q Waiting \<Longrightarrow> consumer_step s (waitWhilePaused q s)"
| subscribe: "in_phase s q Subscribing \<Longrightarrow> consumer_step s (subscribe q outcome s)"
| push: "in_phase s q (Consuming ses) \<Longrightarrow> may_push s ses \<Longrightarrow> i < length (qs_ready (cs_queue s q)) \<Longrightarrow>
    consumer_step s (push_delivery q i ses s)"
| take: "in_phase s q (Consuming ses) \<Longrightarrow> h < length (ss_slots ses) \<Longrightarrow> ss_slots ses ! h = Idle \<Longrightarrow>
    ss_buffered ses \<noteq> [] \<Longrightarrow> consumer_step s (take_delivery q h ses s)"
| finish: "in_phase s q (Consuming ses) \<Longrightarrow> h < length (ss_slots ses) \<Longrightarrow> ss_slots ses ! h = Busy m \<Longrightarrow>
    consumer_step s (finish_delivery q h ses m s)"
| shutdown: "in_phase s q (Consuming ses) \<Longrightarrow> cs_ctx_done s \<Longrightarrow>
    consumer_step s (supervise_shutdown q s)"
| tick: "in_phase s q (Consuming ses) \<Longrightarrow> \<not> ss_cancel_requested ses \<Longrightarrow>
    consumer_step s (supervise_tick q s)"
| cancelled: "in_phase s q (Consuming ses) \<Longrightarrow> ss_cancel_requested ses \<Longrightarrow>
    consumer_step s (in_session q (\<lambda>ses. ses\<lparr>ss_closed := True\<rparr>) s)"
| closes: "in_phase s q (Consuming ses) \<Longrightarrow> \<not> ss_lost ses \<Longrightarrow> consumer_step s (broker_closes q ses s)"
| loses: "in_phase s q (Consuming ses) \<Longrightarrow> ss_lost ses \<Longrightarrow>
    consumer_step s (in_session q (\<lambda>ses. ses\<lparr>ss_buffered := []\<rparr>) s)"
| exit: "in_phase s q (Consuming ses) \<Longrightarrow> h < length (ss_slots ses) \<Longrightarrow> ss_slots ses ! h = Idle \<Longrightarrow>
    ss_closed ses \<Longrightarrow> ss_buffered ses = [] \<Longrightarrow>
    consumer_step s (in_session q (\<lambda>ses. ses\<lparr>ss_slots := (ss_slots ses)[h := Exited]\<rparr>) s)"
| ends: "in_phase s q (Consuming ses) \<Longrightarrow> set (ss_slots ses) \<subseteq> {Exited} \<Longrightarrow>
    consumer_step s (session_ends q ses s)"
| arrives: "consumer_step s (upd_queue q (\<lambda>qs. qs\<lparr>qs_ready := qs_ready qs @ [m],
    qs_arrived := qs_arrived qs @ [m]\<rparr>) s)"
| signal: "consumer_step s (s\<lparr>cs_ctx_done := True, cs_signalled := True\<rparr>)"
| others: "world_le (cs_world s) w \<Longrightarrow> consumer_step s (s\<lparr>cs_world := w\<rparr>)"

inductive_cases consumer_stepE: "consumer_step s s'"

text \<open>\<open>Run\<close>: three supervisors, waiting at first; the other queues have none.\<close>

definition Run_start :: "worker \<Rightarrow> world \<Rightarrow> nat \<Rightarrow> (string \<Rightarrow> publishing list) \<Rightarrow> consumers" where
  "Run_start wk w prefetch backlog =
     \<lparr>cs_worker = wk, cs_world = w, cs_prefetch = prefetch, cs_ctx_done = False,
      cs_signalled = False, cs_errs = [],
      cs_queue = (\<lambda>q. \<lparr>qs_ready = backlog q,
        qs_phase = (if q \<in> set (map WorkQueueName Channels) then Waiting else Ended None),
        qs_arrived = backlog q, qs_settled = []\<rparr>)\<rparr>"

definition Run_returned :: "consumers \<Rightarrow> bool" where
  "Run_returned s = list_all (\<lambda>c. case qs_phase (cs_queue s (WorkQueueName c)) of
     Ended r \<Rightarrow> True | _ \<Rightarrow> False) Channels"

text \<open>\<open>loopErrs\<close> is drained in order and the first error is returned.\<close>

definition Run_result :: "consumers \<Rightarrow> error option" where
  "Run_result s = (case cs_errs s of [] \<Rightarrow> None | e # es \<Rightarrow> Some e)"

end
