(* ===== verification/ConsumerFacts.thy ===== *)
theory ConsumerFacts
  imports Consumer
begin

text \<open>
  The consumers' invariant: every message that reached a queue is ready, held by the session, or
  settled; a session holds no more than the prefetch count and runs no more handlers than the
  worker's concurrency; no supervisor ends without a shutdown or a reported error.
\<close>

section \<open>Bookkeeping\<close>

lemma upd_queue_simps [simp]:
  "cs_worker (upd_queue q f s) = cs_worker s" "cs_world (upd_queue q f s) = cs_world s"
  "cs_prefetch (upd_queue q f s) = cs_prefetch s" "cs_ctx_done (upd_queue q f s) = cs_ctx_done s"
  "cs_signalled (upd_queue q f s) = cs_signalled s" "cs_errs (upd_queue q f s) = cs_errs s"
  "cs_queue (upd_queue q f s) p = (if p = q then f (cs_queue s q) else cs_queue s p)"
  by (simp_all add: upd_queue_def)

lemma busy_in_simps [simp]:
  "busy_in [] = []" "busy_in (Idle # ss) = busy_in ss" "busy_in (Exited # ss) = busy_in ss"
  "busy_in (Busy m # ss) = m # busy_in ss" "busy_in (replicate k Idle) = []"
  by (simp_all add: busy_in_def)

lemma busy_in_append: "busy_in (ss @ ts) = busy_in ss @ busy_in ts"
  by (simp add: busy_in_def)

lemma busy_in_split:
  "h < length ss \<Longrightarrow> mset (busy_in (ss[h := x])) = mset (busy_in (take h ss)) + mset (busy_in [x]) +
     mset (busy_in (drop (Suc h) ss))"
  by (simp add: upd_conv_take_nth_drop busy_in_def)

lemma busy_in_at:
  "h < length ss \<Longrightarrow> mset (busy_in ss) = mset (busy_in (take h ss)) + mset (busy_in [ss ! h]) +
     mset (busy_in (drop (Suc h) ss))"
  using busy_in_split [of h ss "ss ! h"] by simp

lemma busy_in_starts:
  "h < length ss \<Longrightarrow> ss ! h = Idle \<Longrightarrow> mset (busy_in (ss[h := Busy m])) = mset (busy_in ss) + {#m#}"
  using busy_in_split [of h ss "Busy m"] busy_in_at [of h ss] by simp

lemma busy_in_finishes:
  "h < length ss \<Longrightarrow> ss ! h = Busy m \<Longrightarrow> mset (busy_in ss) = mset (busy_in (ss[h := Idle])) + {#m#}"
  using busy_in_split [of h ss Idle] busy_in_at [of h ss] by simp

lemma busy_in_exits:
  "h < length ss \<Longrightarrow> ss ! h = Idle \<Longrightarrow> mset (busy_in (ss[h := Exited])) = mset (busy_in ss)"
  using busy_in_split [of h ss Exited] busy_in_at [of h ss] by simp

lemma busy_in_length: "length (busy_in ss) \<le> length ss"
  by (induction ss) (auto simp: busy_in_def split: slot.splits)

lemma busy_in_exited: "set ss \<subseteq> {Exited} \<Longrightarrow> busy_in ss = []"
  by (induction ss) auto

lemma mset_remove_nth:
  "i < length xs \<Longrightarrow> mset xs = mset (take i xs @ drop (Suc i) xs) + {#xs ! i#}"
  using id_take_nth_drop [of i xs] by (metis add.commute mset.simps(2) mset_append union_mset_add_mset_right
      add_mset_add_single)

section \<open>The invariant\<close>

definition session_ok :: "nat \<Rightarrow> nat \<Rightarrow> session \<Rightarrow> bool" where
  "session_ok conc pre ses \<longleftrightarrow>
     length (ss_slots ses) = conc \<and> (Exited \<in> set (ss_slots ses) \<longrightarrow> ss_closed ses \<and> ss_buffered ses = []) \<and>
     (0 < pre \<longrightarrow> length (unacked ses) \<le> pre) \<and> (ss_lost ses \<longrightarrow> ss_closed ses) \<and>
     (ss_draining ses \<longleftrightarrow> ss_cancel_requested ses)"

definition queue_ok :: "nat \<Rightarrow> nat \<Rightarrow> queue_state \<Rightarrow> bool" where
  "queue_ok conc pre qs \<longleftrightarrow>
     mset (qs_arrived qs) = mset (qs_ready qs) + mset (held qs) + mset (qs_settled qs) \<and>
     (\<forall>ses. qs_phase qs = Consuming ses \<longrightarrow> session_ok conc pre ses)"

definition ended_ok :: "bool \<Rightarrow> error list \<Rightarrow> queue_state \<Rightarrow> bool" where
  "ended_ok done errs qs \<longleftrightarrow>
     (\<forall>r. qs_phase qs = Ended r \<longrightarrow> done \<and> (\<forall>e. r = Some e \<longrightarrow> e \<in> set errs))"

abbreviation work_queues :: "string set" where
  "work_queues \<equiv> set (map WorkQueueName Channels)"

definition consumers_ok :: "consumers \<Rightarrow> bool" where
  "consumers_ok s \<longleftrightarrow>
     (\<forall>q. queue_ok (nat (wk_concurrency (cs_worker s))) (cs_prefetch s) (cs_queue s q)) \<and>
     (\<forall>q \<in> work_queues. ended_ok (cs_ctx_done s) (cs_errs s) (cs_queue s q)) \<and>
     (cs_ctx_done s \<longrightarrow> cs_signalled s \<or> cs_errs s \<noteq> []) \<and>
     db_ok (db (cs_world s)) \<and> limiters_ok (cs_worker s)"

lemma consumers_okD:
  assumes "consumers_ok s"
  shows "queue_ok (nat (wk_concurrency (cs_worker s))) (cs_prefetch s) (cs_queue s q)"
    and "q \<in> work_queues \<Longrightarrow> ended_ok (cs_ctx_done s) (cs_errs s) (cs_queue s q)"
    and "cs_ctx_done s \<Longrightarrow> cs_signalled s \<or> cs_errs s \<noteq> []"
    and "db_ok (db (cs_world s))" "limiters_ok (cs_worker s)"
  using assms by (auto simp: consumers_ok_def)

text \<open>Changing one queue while the shared part only grows.\<close>

lemma consumers_ok_upd:
  assumes "consumers_ok s"
    and "queue_ok (nat (wk_concurrency (cs_worker s))) (cs_prefetch s) (f (cs_queue s q))"
    and "q \<in> work_queues \<Longrightarrow> ended_ok (cs_ctx_done s) (cs_errs s) (f (cs_queue s q))"
  shows "consumers_ok (upd_queue q f s)"
  using assms by (auto simp: consumers_ok_def)

lemma ended_ok_grow: "ended_ok done errs qs \<Longrightarrow> ended_ok True (errs @ es) qs"
  by (auto simp: ended_ok_def)

lemma ended_ok_other: "(\<And>r. qs_phase qs \<noteq> Ended r) \<Longrightarrow> ended_ok done errs qs"
  by (auto simp: ended_ok_def)

section \<open>Reading the flag and handling keep the shared part\<close>

lemma handleDelivery_worker:
  "handleDelivery wk ctx p w = (st, wk', w') \<Longrightarrow>
     wk_concurrency wk' = wk_concurrency wk \<and> wk_limiters wk' = wk_limiters wk"
  by (auto simp: handleDelivery_def processNotification_def deliver_def Let_def split: method_splits)

lemma isPaused_keeps:
  "isPaused wk w = (b, wk', w') \<Longrightarrow>
     wk_concurrency wk' = wk_concurrency wk \<and> wk_limiters wk' = wk_limiters wk \<and> world_le w w'"
  by (auto simp: isPaused_def split: method_splits dest!: control_le(3))

lemma read_pause_ok:
  assumes "read_pause s = (b, s1)"
  shows "consumers_ok s \<Longrightarrow> consumers_ok s1" "cs_queue s1 = cs_queue s"
    "cs_prefetch s1 = cs_prefetch s" "cs_ctx_done s1 = cs_ctx_done s" "cs_errs s1 = cs_errs s"
    "wk_concurrency (cs_worker s1) = wk_concurrency (cs_worker s)"
  using assms
  by (auto simp: read_pause_def consumers_ok_def limiters_ok_def split: prod.splits
      dest!: isPaused_keeps intro: world_le_db_ok)

lemma handle_ok:
  assumes "consumers_ok s" "handleDelivery (cs_worker s) ctx m (cs_world s) = (st, wk, w)"
  shows "consumers_ok (s\<lparr>cs_worker := wk, cs_world := w\<rparr>)"
  using assms(1) handleDelivery_worker [OF assms(2)] world_le_db_ok [OF handleDelivery_le [OF assms(2)]]
  by (auto simp: consumers_ok_def limiters_ok_def)

section \<open>Every operation keeps the invariant\<close>

lemma held_not_consuming: "(\<And>ses. ph \<noteq> Consuming ses) \<Longrightarrow> held (qs\<lparr>qs_phase := ph\<rparr>) = []"
  by (auto simp: held_def split: phase.splits)

lemma queue_ok_leave:
  assumes "queue_ok c p qs" "held qs = []" "\<And>ses. ph \<noteq> Consuming ses"
  shows "queue_ok c p (qs\<lparr>qs_phase := ph\<rparr>)"
  using assms by (auto simp: queue_ok_def held_not_consuming)

lemma held_in_phase:
  "in_phase s q Waiting \<Longrightarrow> held (cs_queue s q) = []"
  "in_phase s q Subscribing \<Longrightarrow> held (cs_queue s q) = []"
  by (simp_all add: in_phase_def held_def)

lemma phase_step_ok:
  assumes "consumers_ok s" "held (cs_queue s q) = []" "\<And>ses. ph \<noteq> Consuming ses"
    and "\<And>r. ph = Ended r \<Longrightarrow> r = None \<and> cs_ctx_done s"
  shows "consumers_ok (upd_queue q (\<lambda>qs. qs\<lparr>qs_phase := ph\<rparr>) s)"
  using assms consumers_okD(1) [OF assms(1)]
  by (intro consumers_ok_upd) (auto intro!: queue_ok_leave simp: ended_ok_def)

lemma consumer_dies_ok:
  assumes "consumers_ok s" "held (cs_queue s q) = []"
  shows "consumers_ok (consumer_dies q e s)"
proof -
  let ?s = "s\<lparr>cs_errs := cs_errs s @ [e], cs_ctx_done := True\<rparr>"
  have "consumers_ok ?s" using assms(1) by (auto simp: consumers_ok_def intro: ended_ok_grow)
  then show ?thesis
    unfolding consumer_dies_def using assms(2) consumers_okD(1) [OF assms(1)]
    by (intro consumers_ok_upd) (auto intro!: queue_ok_leave simp: ended_ok_def)
qed

lemma waitWhilePaused_ok:
  assumes "consumers_ok s" "in_phase s q Waiting"
  shows "consumers_ok (waitWhilePaused q s)"
proof -
  obtain b s1 where r: "read_pause s = (b, s1)" by fastforce
  have "in_phase s1 q Waiting" using assms(2) read_pause_ok(2) [OF r] by (simp add: in_phase_def)
  with assms read_pause_ok(1) [OF r] r show ?thesis
    by (auto simp: waitWhilePaused_def held_in_phase intro!: phase_step_ok)
qed

lemma new_session_ok: "session_ok (nat (wk_concurrency wk)) p (new_session wk)"
  by (simp add: session_ok_def new_session_def unacked_def)

lemma subscribe_ok:
  assumes "consumers_ok s" "in_phase s q Subscribing"
  shows "consumers_ok (subscribe q outcome s)"
proof (cases "cs_ctx_done s \<or> outcome \<noteq> Subscribed")
  case True
  with assms held_in_phase(2) [OF assms(2)] show ?thesis
    by (cases outcome) (auto simp: subscribe_def intro: consumer_dies_ok phase_step_ok)
next
  case False
  have "queue_ok (nat (wk_concurrency (cs_worker s))) (cs_prefetch s)
      ((cs_queue s q)\<lparr>qs_phase := Consuming (new_session (cs_worker s))\<rparr>)"
    using consumers_okD(1) [OF assms(1), of q] held_in_phase(2) [OF assms(2)] new_session_ok
    by (auto simp: queue_ok_def held_def unacked_def new_session_def)
  with False show ?thesis
    by (auto simp: subscribe_def ended_ok_other intro!: consumers_ok_upd assms(1))
qed

text \<open>Inside a session: the new queue state has its messages accounted for.\<close>

lemma session_step_ok:
  assumes "consumers_ok s" "in_phase s q (Consuming ses)"
    and "qs_phase (f (cs_queue s q)) = Consuming ses'"
    and "qs_arrived (f (cs_queue s q)) = qs_arrived (cs_queue s q)"
    and "session_ok (nat (wk_concurrency (cs_worker s))) (cs_prefetch s) ses \<Longrightarrow>
      session_ok (nat (wk_concurrency (cs_worker s))) (cs_prefetch s) ses'"
    and "mset (qs_ready (f (cs_queue s q))) + mset (if ss_lost ses' then [] else unacked ses') +
        mset (qs_settled (f (cs_queue s q))) =
      mset (qs_ready (cs_queue s q)) + mset (if ss_lost ses then [] else unacked ses) +
        mset (qs_settled (cs_queue s q))"
  shows "consumers_ok (upd_queue q f s)"
  using consumers_okD(1) [OF assms(1), of q] assms
  by (intro consumers_ok_upd) (simp_all add: queue_ok_def held_def in_phase_def ended_ok_other)

lemma push_ok:
  assumes "consumers_ok s" "in_phase s q (Consuming ses)" "may_push s ses"
    and "i < length (qs_ready (cs_queue s q))"
  shows "consumers_ok (push_delivery q i ses s)"
  unfolding push_delivery_def
proof (rule session_step_ok [OF assms(1,2), where
      ses' = "ses\<lparr>ss_buffered := ss_buffered ses @ [qs_ready (cs_queue s q) ! i]\<rparr>"], goal_cases)
  case 4
  have "\<not> ss_lost ses" using assms(1-3) consumers_okD(1) [OF assms(1), of q]
    by (auto simp: queue_ok_def session_ok_def may_push_def in_phase_def)
  with mset_remove_nth [OF assms(4)] show ?case by (simp add: unacked_def)
qed (use assms(3) in \<open>auto simp: session_ok_def may_push_def unacked_def\<close>)

lemma in_session_ok:
  assumes "consumers_ok s" "in_phase s q (Consuming ses)"
    and "session_ok (nat (wk_concurrency (cs_worker s))) (cs_prefetch s) ses \<Longrightarrow>
      session_ok (nat (wk_concurrency (cs_worker s))) (cs_prefetch s) (f ses)"
    and "ss_lost (f ses) = ss_lost ses" "mset (unacked (f ses)) = mset (unacked ses)"
  shows "consumers_ok (in_session q f s)"
  unfolding in_session_def
  by (rule session_step_ok [OF assms(1,2), where ses' = "f ses"])
    (use assms in \<open>auto simp: in_phase_def simp del: mset_append\<close>)

lemma take_ok:
  assumes "consumers_ok s" "in_phase s q (Consuming ses)" "h < length (ss_slots ses)"
    "ss_slots ses ! h = Idle"
  shows "consumers_ok (take_delivery q h ses s)"
proof (cases "ss_buffered ses")
  case Nil
  with assms(1) show ?thesis by (simp add: take_delivery_def)
next
  case (Cons m ms)
  have e: "Exited \<in> set ((ss_slots ses)[h := Busy m]) \<Longrightarrow> Exited \<in> set (ss_slots ses)"
    by (auto dest: set_update_subset_insert [THEN subsetD])
  have l: "length (busy_in ((ss_slots ses)[h := Busy m])) = Suc (length (busy_in (ss_slots ses)))"
    using arg_cong [OF busy_in_starts [OF assms(3,4), of m], of size] by simp
  show ?thesis
  proof (cases "ss_draining ses")
    case True
    show ?thesis
      unfolding take_delivery_def Cons list.case if_P [OF True]
      by (rule session_step_ok [OF assms(1,2), where ses' = "ses\<lparr>ss_buffered := ms\<rparr>"])
        (auto simp: Cons unacked_def session_ok_def)
  next
    case False
    show ?thesis
      unfolding take_delivery_def Cons list.case if_not_P [OF False]
      by (rule session_step_ok [OF assms(1,2), where
            ses' = "ses\<lparr>ss_buffered := ms, ss_slots := (ss_slots ses)[h := Busy m]\<rparr>"])
        (auto simp: Cons unacked_def session_ok_def busy_in_starts [OF assms(3,4)] l dest: e)
  qed
qed

lemma process_dies_ok: "consumers_ok s \<Longrightarrow> consumers_ok (process_dies s)"
  by (auto simp: consumers_ok_def process_dies_def queue_ok_def ended_ok_def held_def)

lemma finish_ok:
  assumes "consumers_ok s" "in_phase s q (Consuming ses)" "h < length (ss_slots ses)"
    "ss_slots ses ! h = Busy m"
  shows "consumers_ok (finish_delivery q h ses m s)"
proof -
  obtain st wk w where h: "handleDelivery (cs_worker s) [] m (cs_world s) = (st, wk, w)"
    by (rule prod_cases3)
  let ?s = "s\<lparr>cs_worker := wk, cs_world := w\<rparr>"
  let ?ses = "ses\<lparr>ss_slots := (ss_slots ses)[h := Idle]\<rparr>"
  have ok: "consumers_ok ?s" using handle_ok [OF assms(1) h] .
  have b: "mset (busy_in (ss_slots ses)) = mset (busy_in ((ss_slots ses)[h := Idle])) + {#m#}"
    using busy_in_finishes [OF assms(3,4)] .
  have l: "length (busy_in ((ss_slots ses)[h := Idle])) \<le> length (busy_in (ss_slots ses))"
    using arg_cong [OF b, of size] by simp
  have e: "Exited \<in> set ((ss_slots ses)[h := Idle]) \<Longrightarrow> Exited \<in> set (ss_slots ses)"
    by (auto dest: set_update_subset_insert [THEN subsetD])
  show ?thesis
  proof (cases "st = Crashed")
    case True
    with h process_dies_ok [OF ok] show ?thesis by (simp add: finish_delivery_def)
  next
    case False
    have "consumers_ok (upd_queue q (\<lambda>qs. (settle (ss_lost ses) st m qs)\<lparr>qs_phase := Consuming ?ses\<rparr>) ?s)"
      by (rule session_step_ok [OF ok, where ses = ses and ses' = ?ses])
        (use assms(2) False l in \<open>cases st; auto simp: in_phase_def settle_def unacked_def
          session_ok_def b dest: e\<close>)+
    with h False show ?thesis by (simp add: finish_delivery_def)
  qed
qed

lemma cancel_ok: "session_ok c p ses \<Longrightarrow> session_ok c p (cancelSubscription ses)"
  "ss_lost (cancelSubscription ses) = ss_lost ses" "unacked (cancelSubscription ses) = unacked ses"
  by (auto simp: session_ok_def cancelSubscription_def unacked_def)

lemma tick_ok:
  assumes "consumers_ok s" "in_phase s q (Consuming ses)"
  shows "consumers_ok (supervise_tick q s)"
proof -
  obtain b s1 where r: "read_pause s = (b, s1)" by fastforce
  have "in_phase s1 q (Consuming ses)" using assms(2) read_pause_ok(2) [OF r] by (simp add: in_phase_def)
  with read_pause_ok(1) [OF r assms(1)] r show ?thesis
    by (auto simp: supervise_tick_def cancel_ok intro!: in_session_ok)
qed

lemma closes_ok:
  assumes "consumers_ok s" "in_phase s q (Consuming ses)" "\<not> ss_lost ses"
  shows "consumers_ok (broker_closes q ses s)"
  unfolding broker_closes_def
  by (rule session_step_ok [OF assms(1,2), where ses' = "ses\<lparr>ss_closed := True, ss_lost := True\<rparr>"])
    (use assms(3) in \<open>auto simp: session_ok_def unacked_def\<close>)

lemma loses_ok:
  assumes "consumers_ok s" "in_phase s q (Consuming ses)" "ss_lost ses"
  shows "consumers_ok (in_session q (\<lambda>ses. ses\<lparr>ss_buffered := []\<rparr>) s)"
  unfolding in_session_def
  by (rule session_step_ok [OF assms(1,2), where ses' = "ses\<lparr>ss_buffered := []\<rparr>"])
    (use assms(2,3) in \<open>auto simp: in_phase_def session_ok_def unacked_def\<close>)

lemma exit_ok:
  assumes "consumers_ok s" "in_phase s q (Consuming ses)" "h < length (ss_slots ses)"
    "ss_slots ses ! h = Idle" "ss_closed ses" "ss_buffered ses = []"
  shows "consumers_ok (in_session q (\<lambda>ses. ses\<lparr>ss_slots := (ss_slots ses)[h := Exited]\<rparr>) s)"
proof (rule in_session_ok [OF assms(1,2)])
  have b: "mset (busy_in ((ss_slots ses)[h := Exited])) = mset (busy_in (ss_slots ses))"
    using busy_in_exits [OF assms(3,4)] .
  then show "mset (unacked (ses\<lparr>ss_slots := (ss_slots ses)[h := Exited]\<rparr>)) = mset (unacked ses)"
    by (simp add: unacked_def)
  show "session_ok c p ses \<Longrightarrow> session_ok c p (ses\<lparr>ss_slots := (ss_slots ses)[h := Exited]\<rparr>)" for c p
    using mset_eq_length [OF b] assms(5,6) by (simp add: session_ok_def unacked_def)
qed simp

text \<open>When the pool is gone, the session holds nothing.\<close>

lemma ended_session_holds_nothing:
  assumes "consumers_ok s" "in_phase s q (Consuming ses)" "set (ss_slots ses) \<subseteq> {Exited}"
    "ss_slots ses \<noteq> []"
  shows "unacked ses = []"
proof -
  have "Exited \<in> set (ss_slots ses)" using assms(3,4) by (cases "ss_slots ses") auto
  with consumers_okD(1) [OF assms(1), of q] assms(2) busy_in_exited [OF assms(3)] show ?thesis
    by (auto simp: queue_ok_def session_ok_def in_phase_def unacked_def)
qed

lemma ends_ok:
  assumes "consumers_ok s" "in_phase s q (Consuming ses)"
  shows "consumers_ok (session_ends q ses s)"
proof -
  let ?f = "\<lambda>qs. qs\<lparr>qs_ready := qs_ready qs @ held qs, qs_phase := Waiting\<rparr>"
  have "consumers_ok (upd_queue q ?f s)"
    using consumers_okD(1) [OF assms(1), of q]
    by (intro consumers_ok_upd [OF assms(1)]) (simp_all add: queue_ok_def held_def ended_ok_other)
  then show ?thesis
    by (auto simp: session_ends_def Let_def held_def intro!: consumer_dies_ok)
qed

lemma consumer_step_ok:
  assumes "consumers_ok s" "consumer_step s s'"
  shows "consumers_ok s'"
  using assms(2)
proof cases
  case (arrives q m)
  show ?thesis unfolding arrives
    using consumers_okD(1) [OF assms(1), of q] consumers_okD(2) [OF assms(1), of q]
    by (intro consumers_ok_upd [OF assms(1)]) (auto simp: queue_ok_def held_def ended_ok_def)
next
  case signal
  with assms(1) show ?thesis by (auto simp: consumers_ok_def ended_ok_def)
next
  case (others w)
  with assms(1) show ?thesis by (auto simp: consumers_ok_def intro: world_le_db_ok)
next
  case (shutdown q ses)
  then show ?thesis
    by (auto simp: supervise_shutdown_def cancel_ok intro!: in_session_ok assms(1))
next
  case (cancelled q ses)
  then show ?thesis
    by (auto simp: session_ok_def unacked_def intro!: in_session_ok assms(1))
qed (auto intro: assms(1) waitWhilePaused_ok subscribe_ok push_ok take_ok finish_ok tick_ok closes_ok
    loses_ok exit_ok ends_ok)

definition Run_starts :: "consumers \<Rightarrow> bool" where
  "Run_starts s \<longleftrightarrow> (\<exists>wk w prefetch backlog. s = Run_start wk w prefetch backlog \<and>
     db_ok (db w) \<and> limiters_ok wk)"

lemma Run_start_ok: "Run_starts s \<Longrightarrow> consumers_ok s"
  by (auto simp: Run_starts_def consumers_ok_def Run_start_def queue_ok_def held_def ended_ok_def
      split: if_splits)

interpretation consumer: machine Run_starts consumer_step consumers_ok
  by unfold_locales (fact Run_start_ok, fact consumer_step_ok)

section \<open>Fixed parameters\<close>

lemma consumer_step_prefetch: "consumer_step s s' \<Longrightarrow>
  cs_prefetch s' = cs_prefetch s \<and> wk_concurrency (cs_worker s') = wk_concurrency (cs_worker s)"
  by (induction rule: consumer_step.induct)
    (auto simp: waitWhilePaused_def subscribe_def push_delivery_def take_delivery_def
      finish_delivery_def supervise_shutdown_def supervise_tick_def broker_closes_def
      session_ends_def consumer_dies_def process_dies_def in_session_def Let_def
      read_pause_ok(3,6) split: prod.splits subscription.splits list.splits
      dest!: handleDelivery_worker dest: read_pause_ok(3,6))

lemma consumer_steps_prefetch: "consumer_step\<^sup>*\<^sup>* s s' \<Longrightarrow>
  cs_prefetch s' = cs_prefetch s \<and> wk_concurrency (cs_worker s') = wk_concurrency (cs_worker s)"
  by (induction rule: rtranclp_induct) (auto dest: consumer_step_prefetch)

section \<open>Draining\<close>

text \<open>Once the subscription is being cancelled, no handler starts on another message.\<close>

definition draining :: "consumers \<Rightarrow> string \<Rightarrow> bool" where
  "draining s q \<longleftrightarrow> (\<exists>ses. in_phase s q (Consuming ses) \<and> ss_cancel_requested ses)"

lemma handling_frame:
  "cs_queue s' q = cs_queue s q \<Longrightarrow> mset (handling (cs_queue s' q)) \<subseteq># mset (handling (cs_queue s q))"
  by simp

lemma draining_starts_nothing:
  assumes "consumers_ok s" "consumer_step s s'" "draining s q"
  shows "mset (handling (cs_queue s' q)) \<subseteq># mset (handling (cs_queue s q))"
proof -
  from assms(3) obtain ses where q: "qs_phase (cs_queue s q) = Consuming ses" "ss_cancel_requested ses"
    by (auto simp: draining_def in_phase_def)
  with consumers_okD(1) [OF assms(1), of q] have d: "ss_draining ses"
    by (auto simp: queue_ok_def session_ok_def)
  show ?thesis
    using assms(2)
  proof cases
    case (wait p)
    with q have "p \<noteq> q" by (auto simp: in_phase_def)
    with wait show ?thesis
      by (intro handling_frame) (auto simp: waitWhilePaused_def read_pause_ok(2) split: prod.splits
          dest: read_pause_ok(2))
  next
    case (subscribe p out)
    with q have "p \<noteq> q" by (auto simp: in_phase_def)
    with subscribe show ?thesis
      by (intro handling_frame) (auto simp: subscribe_def consumer_dies_def split: subscription.splits)
  next
    case (take p ses' h)
    then show ?thesis
      using q d by (cases "p = q")
        (auto simp: take_delivery_def handling_def in_phase_def split: list.splits)
  next
    case (finish p ses' h m)
    obtain st wk w where h: "handleDelivery (cs_worker s) [] m (cs_world s) = (st, wk, w)"
      by (rule prod_cases3)
    show ?thesis
      using finish q h busy_in_finishes [of h "ss_slots ses'" m]
      by (cases "p = q"; cases "st = Crashed")
        (auto simp: finish_delivery_def handling_def in_phase_def process_dies_def Let_def)
  next
    case (exit p ses' h)
    then show ?thesis
      using q busy_in_exits [of h "ss_slots ses'"]
      by (cases "p = q") (auto simp: in_session_def handling_def in_phase_def)
  next
    case (tick p ses')
    with q have "p \<noteq> q" by (auto simp: in_phase_def)
    with tick show ?thesis
      by (intro handling_frame) (auto simp: supervise_tick_def in_session_def split: prod.splits
          dest: read_pause_ok(2))
  qed (auto simp: push_delivery_def supervise_shutdown_def in_session_def broker_closes_def
      session_ends_def consumer_dies_def handling_def in_phase_def Let_def cancelSubscription_def
      split: phase.splits)
qed

definition drain_work :: "session \<Rightarrow> nat" where
  "drain_work ses = (if ss_closed ses then 0 else 1) + length (ss_buffered ses) +
     sum_list (map (\<lambda>s. case s of Idle \<Rightarrow> 1 | Busy m \<Rightarrow> 2 | Exited \<Rightarrow> 0) (ss_slots ses))"

definition drain_measure :: "string \<Rightarrow> consumers \<Rightarrow> nat" where
  "drain_measure q s = (case qs_phase (cs_queue s q) of Consuming ses \<Rightarrow> drain_work ses | _ \<Rightarrow> 0)"

text \<open>What draining one queue does not do: start work, fail, or touch another queue.\<close>

definition only_drains :: "string \<Rightarrow> consumers \<Rightarrow> consumers \<Rightarrow> bool" where
  "only_drains q s s' \<longleftrightarrow>
     mset (handling (cs_queue s' q)) + mset (qs_settled (cs_queue s' q)) \<subseteq>#
       mset (handling (cs_queue s q)) + mset (qs_settled (cs_queue s q)) \<and>
     qs_arrived (cs_queue s' q) = qs_arrived (cs_queue s q) \<and> cs_errs s' = cs_errs s \<and>
     cs_ctx_done s' = cs_ctx_done s \<and> (\<forall>p. p \<noteq> q \<longrightarrow> cs_queue s' p = cs_queue s p)"

lemma only_drains_trans: "only_drains q a b \<Longrightarrow> only_drains q b c \<Longrightarrow> only_drains q a c"
  by (auto simp: only_drains_def)

lemma weight_update:
  "h < length ss \<Longrightarrow> sum_list (map w (ss[h := x])) + w (ss ! h) = sum_list (map w ss) + (w x :: nat)"
  using elem_le_sum_list [of h "map w ss"] by (simp add: map_update sum_list_update)

lemma handleDelivery_not_crashed:
  assumes "db_ok (db w)" "limiters_ok wk" "handleDelivery wk ctx p w = (st, wk', w')"
  shows "st \<noteq> Crashed"
  using assms(3)
  by (auto simp: handleDelivery_def Let_def split: option.splits prod.splits sum.splits if_splits
      dest: processNotification_no_panic [OF assms(1,2)])

lemma drain_progress:
  assumes ok: "consumers_ok s" and "draining s q"
  shows "\<exists>s'. consumer_step s s' \<and> only_drains q s s' \<and>
    (in_phase s' q Waiting \<or> draining s' q \<and> drain_measure q s' < drain_measure q s)"
proof -
  from assms(2) obtain ses where q: "in_phase s q (Consuming ses)" "ss_cancel_requested ses"
    by (auto simp: draining_def)
  with consumers_okD(1) [OF ok, of q] have d: "ss_draining ses"
    by (auto simp: queue_ok_def session_ok_def in_phase_def)
  show ?thesis
  proof (cases "ss_closed ses")
    case False
    from q consumer_step.cancelled [OF q] False show ?thesis
      by (intro exI conjI disjI2) (assumption,
        auto simp: only_drains_def in_session_def handling_def in_phase_def draining_def
          drain_measure_def drain_work_def)
  next
    case True
    show ?thesis
    proof (cases "\<exists>h m. h < length (ss_slots ses) \<and> ss_slots ses ! h = Busy m")
      case True
      then obtain h m where h: "h < length (ss_slots ses)" "ss_slots ses ! h = Busy m" by blast
      obtain st wk w where hd: "handleDelivery (cs_worker s) [] m (cs_world s) = (st, wk, w)"
        by (rule prod_cases3)
      have "st \<noteq> Crashed"
        using handleDelivery_not_crashed [OF consumers_okD(4,5) [OF ok] hd] .
      with consumer_step.finish [OF q(1) h] q hd busy_in_finishes [OF h]
        weight_update [OF h(1), of "\<lambda>s. case s of Idle \<Rightarrow> 1 | Busy m \<Rightarrow> 2 | Exited \<Rightarrow> 0" Idle] h(2)
      show ?thesis
        by (intro exI conjI disjI2) (assumption,
          cases st, auto simp: only_drains_def finish_delivery_def handling_def in_phase_def
            draining_def drain_measure_def drain_work_def settle_def)
    next
      case no_busy: False
      show ?thesis
      proof (cases "set (ss_slots ses) \<subseteq> {Exited}")
        case True
        from q consumer_step.ends [OF q(1) True] show ?thesis
          by (intro exI conjI disjI1) (assumption,
            auto simp: only_drains_def session_ends_def in_phase_def handling_def Let_def)
      next
        case False
        then obtain x where "x \<in> set (ss_slots ses)" "x \<noteq> Exited" by blast
        then obtain h where h: "h < length (ss_slots ses)" "ss_slots ses ! h \<noteq> Exited"
          by (auto simp: in_set_conv_nth)
        with no_busy have i: "ss_slots ses ! h = Idle" by (cases "ss_slots ses ! h") auto
        show ?thesis
        proof (cases "ss_buffered ses = []")
          case True
          from q consumer_step.exit [OF q(1) h(1) i \<open>ss_closed ses\<close> True] busy_in_exits [OF h(1) i]
            weight_update [OF h(1), of "\<lambda>s. case s of Idle \<Rightarrow> 1 | Busy m \<Rightarrow> 2 | Exited \<Rightarrow> 0" Exited] i
          show ?thesis
            by (intro exI conjI disjI2) (assumption,
              auto simp: only_drains_def in_session_def handling_def in_phase_def draining_def
                drain_measure_def drain_work_def)
        next
          case False
          with q consumer_step.take [OF q(1) h(1) i False] d show ?thesis
            by (intro exI conjI disjI2) (assumption,
              auto simp: only_drains_def take_delivery_def handling_def in_phase_def draining_def
                drain_measure_def drain_work_def neq_Nil_conv)
        qed
      qed
    qed
  qed
qed

lemma drains_to_the_end:
  "consumers_ok s \<Longrightarrow> draining s q \<Longrightarrow>
     \<exists>s'. consumer_step\<^sup>*\<^sup>* s s' \<and> only_drains q s s' \<and> in_phase s' q Waiting"
  using consumer.measure_ends [where P = "\<lambda>s. draining s q" and R = "only_drains q" and
      G = "\<lambda>s. in_phase s q Waiting" and m = "drain_measure q"] drain_progress only_drains_trans
  by blast

lemma mset_exchange: "A + C = B + D \<Longrightarrow> D \<subseteq># C \<Longrightarrow> A \<subseteq># (B :: 'a multiset)"
proof -
  assume eq: "A + C = B + D" and "D \<subseteq># C"
  then obtain E where "C = D + E" by (auto simp: subset_mset.le_iff_add)
  with eq have "(A + E) + D = B + D" by (simp add: ac_simps)
  then have "B = A + E" by simp
  then show "A \<subseteq># B" by simp
qed

text \<open>At the end of a drained session, what had not been started is ready again.\<close>

lemma drained_is_ready:
  assumes "consumers_ok s" "consumers_ok s'" "only_drains q s s'" "in_phase s' q Waiting"
    and "in_phase s q (Consuming ses)" "\<not> ss_lost ses"
  shows "mset (qs_ready (cs_queue s q)) + mset (ss_buffered ses) \<subseteq># mset (qs_ready (cs_queue s' q))"
proof -
  let ?q = "cs_queue s q" and ?q' = "cs_queue s' q"
  have "mset (qs_arrived ?q) = mset (qs_ready ?q) + mset (ss_buffered ses) +
      (mset (handling ?q) + mset (qs_settled ?q))"
    using consumers_okD(1) [OF assms(1), of q] assms(5,6)
    by (simp add: queue_ok_def held_def handling_def in_phase_def unacked_def)
  moreover have "mset (qs_arrived ?q') = mset (qs_ready ?q') + mset (qs_settled ?q')"
    using consumers_okD(1) [OF assms(2), of q] held_in_phase(1) [OF assms(4)]
    by (simp add: queue_ok_def)
  moreover have "mset (qs_settled ?q') \<subseteq># mset (handling ?q) + mset (qs_settled ?q)"
    using assms(3) subset_mset.order_trans [OF mset_subset_eq_add_right]
    by (auto simp: only_drains_def)
  ultimately have "mset (qs_ready ?q) + mset (ss_buffered ses) + (mset (handling ?q) + mset (qs_settled ?q))
      = mset (qs_ready ?q') + mset (qs_settled ?q')"
    and "mset (qs_settled ?q') \<subseteq># mset (handling ?q) + mset (qs_settled ?q)"
    using assms(3) by (simp_all add: only_drains_def)
  then show ?thesis by (rule mset_exchange)
qed

end
