(* ===== verification/SummaryFacts.thy ===== *)
theory SummaryFacts
  imports ApiFacts
begin

text \<open>
  What the dashboard's summary (internal/api/metrics_summary.go) is worth: sums of whole numbers
  below \<open>2 ^ 53\<close> are exact in float64, and merging keeps one row per label set that adds up the
  samples of that label set and no others, whatever families they come from.
\<close>

section \<open>Sums of whole numbers are exact\<close>

lemma bits_nonneg: "0 \<le> bits n"
  by (induction n rule: bits.induct) (simp add: bits.simps)

lemma bits_upper: "n < 2 ^ nat (bits n)"
proof (induction n rule: bits.induct)
  case (1 n)
  show ?case
  proof (cases "n \<le> 0")
    case True
    then show ?thesis by (simp add: bits.simps)
  next
    case False
    with 1 have "n div 2 < 2 ^ nat (bits (n div 2))" by simp
    then have "n < 2 * 2 ^ nat (bits (n div 2))" by linarith
    also have "\<dots> = 2 ^ nat (bits n)"
      using False bits_nonneg [of "n div 2"] by (simp add: bits.simps [of n] nat_add_distrib)
    finally show ?thesis .
  qed
qed

lemma bits_le: "n < 2 ^ k \<Longrightarrow> bits n \<le> int k"
proof (induction n arbitrary: k rule: bits.induct)
  case (1 n)
  show ?case
  proof (cases "n \<le> 0")
    case True
    then show ?thesis by (simp add: bits.simps)
  next
    case False
    with 1(2) obtain j where k: "k = Suc j" by (cases k) auto
    from 1(2) have "n div 2 < 2 ^ j" by (simp add: k)
    from 1(1) [OF False this] show ?thesis using False by (simp add: bits.simps [of n] k)
  qed
qed

lemma bits_mult:
  assumes "0 \<le> a" "0 \<le> b"
  shows "bits (a * b) \<le> bits a + bits b"
proof -
  have "a * b < 2 ^ nat (bits a) * 2 ^ nat (bits b)"
    using assms bits_upper by (intro mult_strict_mono) auto
  then have "a * b < 2 ^ (nat (bits a) + nat (bits b))" by (simp add: power_add)
  from bits_le [OF this] bits_nonneg show ?thesis by simp
qed

text \<open>A whole number below \<open>2 ^ 53\<close> is a float64.\<close>

lemma f64_whole:
  assumes "0 < d" "0 \<le> n" "n < 2 ^ 53"
  shows "\<exists>e. 0 < e \<and> f64 (n * d, d) = (n * e, e)"
proof (cases "n = 0")
  case False
  define s0 where "s0 = 53 + bits d - bits (n * d)"
  define s where "s = (if 2 ^ 53 \<le> fst (scaled (n * d) d s0) div snd (scaled (n * d) d s0) then s0 - 1 else s0)"
  have "bits (n * d) \<le> bits n + bits d" using assms by (intro bits_mult) auto
  moreover have "bits n \<le> 53" using bits_le [of n 53] assms(3) by simp
  ultimately have s0: "0 \<le> s0" unfolding s0_def by linarith
  have "0 \<le> s"
  proof (cases "s0 = 0")
    case True
    then show ?thesis using assms by (simp add: s_def scaled_def)
  next
    case False
    with s0 show ?thesis by (simp add: s_def)
  qed
  have sc: "scaled (n * d) d s = (n * d * 2 ^ nat s, d)" using \<open>0 \<le> s\<close> by (simp add: scaled_def)
  have "f64 (n * d, d) = (if n * d = 0 then (0, 1)
      else scaled (half_even (fst (scaled (n * d) d s)) (snd (scaled (n * d) d s))) 1 (- s))"
    by (simp only: f64_def s_def s0_def Let_def split_beta prod.case fst_conv snd_conv)
  also have "\<dots> = scaled (half_even (n * d * 2 ^ nat s) d) 1 (- s)"
    unfolding sc using False assms(1) by simp
  also have "half_even (n * d * 2 ^ nat s) d = n * 2 ^ nat s"
  proof -
    have "n * d * 2 ^ nat s = n * 2 ^ nat s * d" by (simp add: ac_simps)
    then show ?thesis using assms(1) by (simp add: half_even_def)
  qed
  also have "scaled (n * 2 ^ nat s) 1 (- s) = (n * 2 ^ nat s, 2 ^ nat s)"
    using \<open>0 \<le> s\<close> by (simp add: scaled_def)
  finally show ?thesis by (intro exI [of _ "2 ^ nat s"]) simp
qed (auto simp: f64_def intro!: exI [of _ 1])

text \<open>A quotient that is a whole number, and which.\<close>

definition whole :: "float64 \<Rightarrow> bool" where
  "whole v \<longleftrightarrow> 0 < snd v \<and> 0 \<le> fst v \<and> fst v mod snd v = 0"

definition count_of :: "float64 \<Rightarrow> int" where
  "count_of v = fst v div snd v"

lemma wholeE:
  assumes "whole v"
  obtains n d where "v = (n * d, d)" "0 < d" "0 \<le> n" "count_of v = n"
proof
  show "v = (count_of v * snd v, snd v)"
    using assms by (simp add: whole_def count_of_def prod_eq_iff dvd_eq_mod_eq_0 [symmetric])
  show "0 < snd v" "0 \<le> count_of v" "count_of v = count_of v"
    using assms by (auto simp: whole_def count_of_def pos_imp_zdiv_nonneg_iff)
qed

lemma whole_pair: "0 < d \<Longrightarrow> 0 \<le> n \<Longrightarrow> whole (n * d, d) \<and> count_of (n * d, d) = n"
  by (simp add: whole_def count_of_def)

lemma f64_add_whole:
  assumes "whole x" "whole y" "count_of x + count_of y < 2 ^ 53"
  shows "whole (f64_add x y) \<and> count_of (f64_add x y) = count_of x + count_of y"
proof -
  from assms(1) obtain n d where x: "x = (n * d, d)" "0 < d" "0 \<le> n" "count_of x = n" by (rule wholeE)
  from assms(2) obtain k c where y: "y = (k * c, c)" "0 < c" "0 \<le> k" "count_of y = k" by (rule wholeE)
  have "f64_add x y = f64 ((n + k) * (d * c), d * c)"
    by (simp add: f64_add_def x y algebra_simps)
  with f64_whole [of "d * c" "n + k"] x y assms(3) obtain e where
    "0 < e" "f64_add x y = ((n + k) * e, e)" by auto
  with whole_pair x y show ?thesis by simp
qed

section \<open>Merging by labels\<close>

abbreviation label_map :: "metric \<Rightarrow> string \<Rightarrow> string option" where
  "label_map m \<equiv> map_of (labelsOf m)"

text \<open>Within one family every metric has the same label names.\<close>

definition same_names :: "metric list \<Rightarrow> bool" where
  "same_names ms \<longleftrightarrow> (\<exists>D. \<forall>m \<in> set ms. dom (label_map m) = D)"

lemma labelsOf_distinct: "distinct (map fst (labelsOf m))"
proof -
  have "distinct (map fst ls) \<Longrightarrow> distinct (map fst (foldl (\<lambda>ls (k, v). AList.update k v ls) ls kvs))" for ls kvs
    by (induction kvs arbitrary: ls) (auto simp: distinct_update)
  from this [of "[]"] show ?thesis by (simp add: labelsOf_def)
qed

lemma sameLabels_labelsOf:
  assumes "dom (label_map m) = dom (label_map m')"
  shows "sameLabels (labelsOf m) (labelsOf m') \<longleftrightarrow> label_map m = label_map m'"
  using assms by (intro sameLabels_same_keys labelsOf_distinct) (simp add: dom_map_of_conv_image_fst)

text \<open>
  What the two merging loops of the code share: the first row with the labels of the metric takes
  it up, and when there is none, the metric makes at most one row of its own.
\<close>

locale row_merge =
  fixes lab :: "'r \<Rightarrow> labels" and fresh :: "metric \<Rightarrow> 'r list" and add :: "'r \<Rightarrow> metric \<Rightarrow> 'r"
    and merge :: "'r list \<Rightarrow> metric \<Rightarrow> 'r list"
  assumes merge_Nil: "merge [] m = fresh m"
    and merge_Cons: "merge (r # rs) m =
      (if sameLabels (lab r) (labelsOf m) then add r m # rs else r # merge rs m)"
    and lab_add: "lab (add r m) = lab r"
    and lab_fresh: "r \<in> set (fresh m) \<Longrightarrow> lab r = labelsOf m"
    and fresh_length: "length (fresh m) \<le> 1"
begin

definition rows_of :: "(string \<Rightarrow> string option) \<Rightarrow> 'r list \<Rightarrow> 'r list" where
  "rows_of l rows = filter (\<lambda>r. map_of (lab r) = l) rows"

lemma labels_merge: "lab ` set (merge rows m) \<subseteq> insert (labelsOf m) (lab ` set rows)"
  by (induction rows) (auto simp: merge_Nil merge_Cons lab_add dest: lab_fresh)

lemma rows_of_merge:
  assumes "\<forall>r \<in> set rows. sameLabels (lab r) (labelsOf m) \<longleftrightarrow> map_of (lab r) = label_map m"
  shows "rows_of l (merge rows m) =
    (if label_map m = l then merge (rows_of l rows) m else rows_of l rows)"
  using assms
proof (induction rows)
  case Nil
  show ?case by (auto simp: rows_of_def merge_Nil lab_fresh intro: filter_True filter_False)
next
  case (Cons r rows)
  then have "rows_of l (merge rows m) = (if label_map m = l then merge (rows_of l rows) m else rows_of l rows)"
    by simp
  with Cons.prems show ?case by (auto simp: rows_of_def merge_Cons lab_add)
qed

lemma labels_fold:
  "lab ` set (foldl merge rows ms) \<subseteq> lab ` set rows \<union> labelsOf ` set ms"
proof (induction ms arbitrary: rows)
  case (Cons m ms)
  have "lab ` set (foldl merge rows (m # ms)) \<subseteq> lab ` set (merge rows m) \<union> labelsOf ` set ms"
    using Cons [of "merge rows m"] by simp
  also have "\<dots> \<subseteq> insert (labelsOf m) (lab ` set rows) \<union> labelsOf ` set ms"
    using labels_merge [of rows m] by (rule Un_mono) simp
  finally show ?case by simp
qed simp

text \<open>The rows of a label set are those that its own metrics make.\<close>

lemma rows_of_fold:
  assumes "same_names ms"
  shows "rows_of l (foldl merge [] ms) = foldl merge [] (filter (\<lambda>m. label_map m = l) ms)"
  using assms
proof (induction ms rule: rev_induct)
  case Nil
  show ?case by (simp add: rows_of_def)
next
  case (snoc m ms)
  then obtain D where D: "\<forall>m \<in> set (ms @ [m]). dom (label_map m) = D" by (auto simp: same_names_def)
  then have "same_names ms" by (auto simp: same_names_def)
  note IH = snoc.IH [OF this]
  have "sameLabels (lab r) (labelsOf m) \<longleftrightarrow> map_of (lab r) = label_map m"
    if r: "r \<in> set (foldl merge [] ms)" for r
  proof -
    from labels_fold [of "[]" ms] r obtain m' where "m' \<in> set ms" "lab r = labelsOf m'" by auto
    moreover have "dom (label_map m') = dom (label_map m)"
      using D \<open>m' \<in> set ms\<close> by simp
    ultimately show ?thesis by (simp add: sameLabels_labelsOf)
  qed
  then have "rows_of l (merge (foldl merge [] ms) m) =
      (if label_map m = l then merge (rows_of l (foldl merge [] ms)) m else rows_of l (foldl merge [] ms))"
    by (intro rows_of_merge ballI)
  with IH show ?case by simp
qed

end

section \<open>Counters and latencies\<close>

interpretation counters: row_merge lv_labels
  "\<lambda>m. [\<lparr>lv_labels = labelsOf m, lv_value = mt_value m\<rparr>]"
  "\<lambda>r m. r\<lparr>lv_value := f64_add (lv_value r) (mt_value m)\<rparr>"
  "\<lambda>rows m. merge_counter rows (labelsOf m) (mt_value m)"
  by unfold_locales (auto split: if_splits)

interpretation latencies: row_merge la_labels
  "\<lambda>m. if 0 < mt_count m then [\<lparr>la_labels = labelsOf m, la_count = mt_count m,
     la_avg_ms = average_ms (mt_sum m) (mt_count m)\<rparr>] else []"
  "\<lambda>r m. add_samples r (mt_count m) (mt_sum m)"
  "\<lambda>rows m. merge_histogram rows (labelsOf m) (mt_count m) (mt_sum m)"
  by unfold_locales (auto simp: add_samples_def Let_def split: if_splits)

text \<open>
  One row for each label set that occurs, with the sum of its samples; for latencies the sum is
  that of 64-bit counts, and a label set without samples has no row.
\<close>

definition counters_add_up :: "metric list \<Rightarrow> labeled_value list \<Rightarrow> bool" where
  "counters_add_up ms rows \<longleftrightarrow>
     (\<forall>l. let same = filter (\<lambda>m. label_map m = l) ms;
              found = filter (\<lambda>r. map_of (lv_labels r) = l) rows
          in if same = [] then found = []
             else \<exists>r. found = [r] \<and> whole (lv_value r) \<and>
               count_of (lv_value r) = (\<Sum>m\<leftarrow>same. count_of (mt_value m)))"

definition latencies_add_up :: "metric list \<Rightarrow> latency_summary list \<Rightarrow> bool" where
  "latencies_add_up ms rows \<longleftrightarrow>
     (\<forall>l. let cs = map mt_count (filter (\<lambda>m. label_map m = l) ms)
          in map la_count (filter (\<lambda>r. map_of (la_labels r) = l) rows) =
             (if set cs \<subseteq> {0} then [] else [sum_list cs]))"

text \<open>Whole samples whose sum float64 can hold.\<close>

definition countable :: "metric list \<Rightarrow> bool" where
  "countable ms \<longleftrightarrow> (\<forall>m \<in> set ms. whole (mt_value m)) \<and> (\<Sum>m\<leftarrow>ms. count_of (mt_value m)) < 2 ^ 53"

lemma count_of_nonneg: "whole v \<Longrightarrow> 0 \<le> count_of v"
  by (erule wholeE) simp

lemma countable_append: "countable (xs @ ys) \<Longrightarrow> countable xs"
  using sum_list_nonneg [of "map (\<lambda>m. count_of (mt_value m)) ys"]
  by (force simp: countable_def count_of_nonneg)

lemma countable_filter: "countable ms \<Longrightarrow> countable (filter P ms)"
proof -
  have "(\<forall>m \<in> set ms. whole (mt_value m)) \<Longrightarrow>
    (\<Sum>m\<leftarrow>filter P ms. count_of (mt_value m)) \<le> (\<Sum>m\<leftarrow>ms. count_of (mt_value m))"
    by (induction ms) (auto simp: add_increasing count_of_nonneg)
  then show "countable ms \<Longrightarrow> countable (filter P ms)" by (force simp: countable_def)
qed

lemma merge_same_counters:
  assumes "countable ms" "\<forall>m \<in> set ms. label_map m = l" "ms \<noteq> []"
  shows "\<exists>r. foldl (\<lambda>rows m. merge_counter rows (labelsOf m) (mt_value m)) [] ms = [r] \<and>
    lv_labels r \<in> labelsOf ` set ms \<and> whole (lv_value r) \<and>
    count_of (lv_value r) = (\<Sum>m\<leftarrow>ms. count_of (mt_value m))"
  using assms
proof (induction ms rule: rev_induct)
  case (snoc m ms)
  show ?case
  proof (cases "ms = []")
    case True
    with snoc.prems show ?thesis by (simp add: countable_def)
  next
    case False
    with snoc countable_append obtain r where r:
      "foldl (\<lambda>rows m. merge_counter rows (labelsOf m) (mt_value m)) [] ms = [r]"
      "lv_labels r \<in> labelsOf ` set ms" "whole (lv_value r)"
      "count_of (lv_value r) = (\<Sum>m\<leftarrow>ms. count_of (mt_value m))" by auto
    from r(2) snoc.prems(2) obtain m' where m': "lv_labels r = labelsOf m'" "label_map m' = label_map m"
      by auto
    then have "sameLabels (lv_labels r) (labelsOf m)" by (simp add: sameLabels_labelsOf)
    moreover have "whole (f64_add (lv_value r) (mt_value m)) \<and>
      count_of (f64_add (lv_value r) (mt_value m)) = count_of (lv_value r) + count_of (mt_value m)"
      using r snoc.prems(1) by (intro f64_add_whole) (auto simp: countable_def)
    ultimately show ?thesis using r by simp
  qed
qed simp

lemma counters_merge:
  assumes "same_names ms" "countable ms"
  shows "counters_add_up ms (foldl (\<lambda>rows m. merge_counter rows (labelsOf m) (mt_value m)) [] ms)"
  unfolding counters_add_up_def Let_def counters.rows_of_def [symmetric] counters.rows_of_fold [OF assms(1)]
proof (intro allI)
  fix l
  let ?same = "filter (\<lambda>m. label_map m = l) ms"
  show "if ?same = [] then foldl (\<lambda>rows m. merge_counter rows (labelsOf m) (mt_value m)) [] ?same = []
    else \<exists>r. foldl (\<lambda>rows m. merge_counter rows (labelsOf m) (mt_value m)) [] ?same = [r] \<and>
      whole (lv_value r) \<and> count_of (lv_value r) = (\<Sum>m\<leftarrow>?same. count_of (mt_value m))"
  proof (cases "?same = []")
    case False
    from merge_same_counters [OF countable_filter [OF assms(2)] _ False, of l] False
    show ?thesis by auto
  qed simp
qed

lemma merge_same_latencies:
  assumes "\<forall>m \<in> set ms. label_map m = l"
  shows "\<exists>rows. foldl (\<lambda>rows m. merge_histogram rows (labelsOf m) (mt_count m) (mt_sum m)) [] ms = rows \<and>
    la_labels ` set rows \<subseteq> labelsOf ` set ms \<and>
    map la_count rows = (if mt_count ` set ms \<subseteq> {0} then [] else [sum_list (map mt_count ms)])"
  using assms
proof (induction ms rule: rev_induct)
  case (snoc m ms)
  then obtain rows where r:
    "foldl (\<lambda>rows m. merge_histogram rows (labelsOf m) (mt_count m) (mt_sum m)) [] ms = rows"
    "la_labels ` set rows \<subseteq> labelsOf ` set ms"
    "map la_count rows = (if mt_count ` set ms \<subseteq> {0} then [] else [sum_list (map mt_count ms)])" by auto
  show ?case
  proof (cases rows)
    case Nil
    then have z: "mt_count ` set ms \<subseteq> {0}" using r(3) by (simp split: if_splits)
    then have "sum_list (map mt_count ms) = 0" by (induction ms) auto
    with z r(1) Nil show ?thesis by (auto simp: word_gt_0)
  next
    case (Cons r' rs)
    then have rs: "rs = []" "la_count r' = sum_list (map mt_count ms)" "\<not> mt_count ` set ms \<subseteq> {0}"
      using r(3) by (auto split: if_splits)
    from r(2) Cons snoc.prems obtain m' where "la_labels r' = labelsOf m'" "label_map m' = label_map m"
      by auto
    then have "sameLabels (la_labels r') (labelsOf m)" by (simp add: sameLabels_labelsOf)
    with r rs Cons show ?thesis by (auto simp: add_samples_def Let_def)
  qed
qed simp

lemma latencies_merge:
  assumes "same_names ms"
  shows "latencies_add_up ms
    (foldl (\<lambda>rows m. merge_histogram rows (labelsOf m) (mt_count m) (mt_sum m)) [] ms)"
  unfolding latencies_add_up_def Let_def latencies.rows_of_def [symmetric] latencies.rows_of_fold [OF assms]
    set_map
proof (intro allI)
  fix l
  have "\<forall>m \<in> set (filter (\<lambda>m. label_map m = l) ms). label_map m = l" by simp
  from merge_same_latencies [OF this] show
    "map la_count (foldl (\<lambda>rows m. merge_histogram rows (labelsOf m) (mt_count m) (mt_sum m)) []
        (filter (\<lambda>m. label_map m = l) ms)) =
      (if mt_count ` set (filter (\<lambda>m. label_map m = l) ms) \<subseteq> {0} then []
       else [sum_list (map mt_count (filter (\<lambda>m. label_map m = l) ms))])"
    by blast
qed

section \<open>From the families to the rows\<close>

definition samples :: "string \<Rightarrow> metric_family list \<Rightarrow> metric list" where
  "samples name families = concat (map mf_metrics (filter (\<lambda>f. mf_name f = name) families))"

lemma samples_simps [simp]:
  "samples name [] = []"
  "samples name (f # fs) = (if mf_name f = name then mf_metrics f else []) @ samples name fs"
  by (simp_all add: samples_def)

lemma accumulate_rows:
  "su_created (accumulate s fs) = foldl (\<lambda>rows m. merge_counter rows (labelsOf m) (mt_value m))
     (su_created s) (samples ''notifications_created_total'' fs)"
  "su_delivered (accumulate s fs) = foldl (\<lambda>rows m. merge_counter rows (labelsOf m) (mt_value m))
     (su_delivered s) (samples ''notifications_delivered_total'' fs)"
  "su_attempts (accumulate s fs) = foldl (\<lambda>rows m. merge_counter rows (labelsOf m) (mt_value m))
     (su_attempts s) (samples ''delivery_attempts_total'' fs)"
  "su_delivery_latency (accumulate s fs) =
     foldl (\<lambda>rows m. merge_histogram rows (labelsOf m) (mt_count m) (mt_sum m))
       (su_delivery_latency s) (samples ''delivery_duration_seconds'' fs)"
  "su_http_latency (accumulate s fs) =
     foldl (\<lambda>rows m. merge_histogram rows (labelsOf m) (mt_count m) (mt_sum m))
       (su_http_latency s) (samples ''http_request_duration_seconds'' fs)"
  "su_lifetime (accumulate s fs) = su_lifetime s" "su_sources (accumulate s fs) = su_sources s"
  by (induction fs arbitrary: s)
    (simp_all add: accumulate_def visit_def mergeCounters_def mergeHistograms_def)

lemma accumulate_append: "accumulate (accumulate s fs) ws = accumulate s (fs @ ws)"
  by (simp add: accumulate_def)

text \<open>What the registry and the exposition of a worker are: families of counters and histograms.\<close>

definition readable :: "metric_family list \<Rightarrow> bool" where
  "readable fs \<longleftrightarrow>
     (\<forall>name \<in> {''notifications_created_total'', ''notifications_delivered_total'',
         ''delivery_attempts_total''}. same_names (samples name fs) \<and> countable (samples name fs)) \<and>
     (\<forall>name \<in> {''delivery_duration_seconds'', ''http_request_duration_seconds''}.
         same_names (samples name fs))"

definition busiest_first :: "latency_summary list \<Rightarrow> bool" where
  "busiest_first rows \<longleftrightarrow> sorted_wrt (\<lambda>a b. \<not> la_count a < la_count b) rows"

text \<open>The rows of a summary are what the families add up to.\<close>

definition summarises :: "metric_family list \<Rightarrow> metrics_summary \<Rightarrow> bool" where
  "summarises fs s \<longleftrightarrow>
     counters_add_up (samples ''notifications_created_total'' fs) (su_created s) \<and>
     counters_add_up (samples ''notifications_delivered_total'' fs) (su_delivered s) \<and>
     counters_add_up (samples ''delivery_attempts_total'' fs) (su_attempts s) \<and>
     latencies_add_up (samples ''delivery_duration_seconds'' fs) (su_delivery_latency s) \<and>
     (\<exists>rows. latencies_add_up (samples ''http_request_duration_seconds'' fs) rows \<and>
        busiest_first rows \<and> su_http_latency s = take 8 rows)"

lemma filter_permuted:
  assumes "mset xs = mset ys" "length (filter P ys) \<le> 1"
  shows "filter P xs = filter P ys"
proof -
  have m: "mset (filter P xs) = mset (filter P ys)" using assms(1) by (simp only: mset_filter)
  show ?thesis
  proof (cases "filter P ys")
    case Nil
    with m show ?thesis by simp
  next
    case (Cons r rs)
    with assms(2) have "filter P ys = [r]" by simp
    with m show ?thesis by (metis mset.simps(1,2) mset_single_iff)
  qed
qed

lemma counters_add_up_mset:
  assumes "counters_add_up ms rows" "mset rows' = mset rows"
  shows "counters_add_up ms rows'"
proof -
  have "length (filter (\<lambda>r. map_of (lv_labels r) = l) rows) \<le> 1" for l
    using assms(1) [unfolded counters_add_up_def Let_def, THEN spec [of _ l]] by (auto split: if_splits)
  from filter_permuted [OF assms(2) this] assms(1) show ?thesis
    by (simp only: counters_add_up_def Let_def)
qed

lemma latencies_add_up_mset:
  assumes "latencies_add_up ms rows" "mset rows' = mset rows"
  shows "latencies_add_up ms rows'"
proof -
  have "length (filter (\<lambda>r. map_of (la_labels r) = l) rows) \<le> 1" for l
  proof -
    have "length (map la_count (filter (\<lambda>r. map_of (la_labels r) = l) rows)) \<le> 1"
      using assms(1) [unfolded latencies_add_up_def Let_def, THEN spec [of _ l]] by simp
    then show ?thesis by simp
  qed
  from filter_permuted [OF assms(2) this] assms(1) show ?thesis
    by (simp only: latencies_add_up_def Let_def simp_thms)
qed

definition same_rows :: "metrics_summary \<Rightarrow> metrics_summary \<Rightarrow> bool" where
  "same_rows s s' \<longleftrightarrow> su_created s = su_created s' \<and> su_delivered s = su_delivered s' \<and>
     su_attempts s = su_attempts s' \<and> su_delivery_latency s = su_delivery_latency s' \<and>
     su_http_latency s = su_http_latency s'"

lemma sortSummary_summarises:
  assumes "sorts_documented e" "readable fs" "same_rows s' (accumulate empty_summary fs)"
  shows "summarises fs (sortSummary e s')"
proof -
  note rows = assms(3) [unfolded same_rows_def accumulate_rows empty_summary_def metrics_summary.simps]
  have vs: "mset (sort_values e rows) = mset rows" for rows
    using assms(1) by (simp add: sorts_documented_def)
  have ls: "mset (sort_latency e rows) = mset rows" "busiest_first (sort_latency e rows)" for rows
    using assms(1) by (simp_all add: sorts_documented_def busiest_first_def)
  have c: "counters_add_up (samples name fs) (foldl (\<lambda>rows m. merge_counter rows (labelsOf m) (mt_value m)) []
      (samples name fs))"
    if "name \<in> {''notifications_created_total'', ''notifications_delivered_total'',
         ''delivery_attempts_total''}" for name
    using assms(2) that by (intro counters_merge) (auto simp only: readable_def)
  have l: "latencies_add_up (samples name fs)
      (foldl (\<lambda>rows m. merge_histogram rows (labelsOf m) (mt_count m) (mt_sum m)) [] (samples name fs))"
    if "name \<in> {''delivery_duration_seconds'', ''http_request_duration_seconds''}" for name
    using assms(2) that by (intro latencies_merge) (auto simp only: readable_def)
  show ?thesis
    unfolding summarises_def
  proof (intro conjI exI)
    show "counters_add_up (samples ''notifications_created_total'' fs) (su_created (sortSummary e s'))"
      using counters_add_up_mset [OF c vs] by (simp add: sortSummary_def rows)
    show "counters_add_up (samples ''notifications_delivered_total'' fs) (su_delivered (sortSummary e s'))"
      using counters_add_up_mset [OF c vs] by (simp add: sortSummary_def rows)
    show "counters_add_up (samples ''delivery_attempts_total'' fs) (su_attempts (sortSummary e s'))"
      using counters_add_up_mset [OF c vs] by (simp add: sortSummary_def rows)
    show "latencies_add_up (samples ''delivery_duration_seconds'' fs) (su_delivery_latency (sortSummary e s'))"
      using l by (simp add: sortSummary_def rows)
    show "latencies_add_up (samples ''http_request_duration_seconds'' fs) (sort_latency e (su_http_latency s'))"
      using latencies_add_up_mset [OF l ls(1)] by (simp add: rows)
    show "busiest_first (sort_latency e (su_http_latency s'))" by (rule ls)
    show "su_http_latency (sortSummary e s') = take 8 (sort_latency e (su_http_latency s'))"
      by (simp add: sortSummary_def maxHTTPRows_def)
  qed
qed

text \<open>The lifetime rows count the notifications of the table.\<close>

definition counts_table :: "database \<Rightarrow> status_count list \<Rightarrow> bool" where
  "counts_table d cs \<longleftrightarrow>
     (\<lambda>c. (sc_channel c, sc_status c)) ` set cs = (\<lambda>r. (channel r, status r)) ` set (notifications d) \<and>
     distinct (map (\<lambda>c. (sc_channel c, sc_status c)) cs) \<and>
     (\<forall>c \<in> set cs. sc_count c =
        length (filter (\<lambda>r. channel r = sc_channel c \<and> status r = sc_status c) (notifications d)))"

lemma CountNotificationStatuses_Inr:
  assumes "CountNotificationStatuses w = (Inr cs, w')"
  shows "counts_table (db w) cs"
proof -
  obtain rows w1 where "db_call sql_count_statuses w = (Inr rows, w1)" "cs = rows"
    using assms by (auto simp: CountNotificationStatuses_def split: prod.splits sum.splits
        dest: read_rows_Inr)
  from this(2) db_call_Inr [OF this(1)] show ?thesis
    by (auto simp: sql_count_statuses_def counts_table_def comp_def split_beta image_image)
qed

lemma add_worker_cases:
  assumes "add_worker e url lf s w = (s1, lf', w1)"
  obtains "s1 = s"
  | ws k where "worker_families e k = Some ws" "lf = 0 \<or> workerFetchCooldown \<le> fst (Now w) - lf"
      "s1 = (accumulate s ws)\<lparr>su_sources := su_sources s @ [''worker'']\<rparr>"
  using assms
  by (auto simp: add_worker_def fetchWorkerFamilies_def recordWorkerFetch_def workerFetchAllowed_def
      split: if_splits prod.splits option.splits)

lemma add_lifetime_cases:
  assumes "add_lifetime lt s w = (s1, w1)"
  obtains "s1 = s"
  | cs where "lt" "counts_table (db w) cs"
      "s1 = s\<lparr>su_lifetime := su_lifetime s @ cs, su_sources := su_sources s @ [''database'']\<rparr>"
  using assms
  by (auto simp: add_lifetime_def split: if_splits prod.splits sum.splits dest: CountNotificationStatuses_Inr)

lemma summary_serve_answer:
  assumes "sorts_documented e" "gather e (metrics w) = Inr fs" "readable fs"
    and "\<And>k ws. worker_families e k = Some ws \<Longrightarrow> readable (fs @ ws)"
    and "summary_serve e lt url lf w = (resp, lf', w')"
  shows "\<exists>s ws. resp = writeJSONResponse 200 (summary_json s) \<and> summarises (fs @ ws) s \<and>
    (if ''worker'' \<in> set (su_sources s) then \<exists>k. worker_families e k = Some ws else ws = []) \<and>
    (lf \<noteq> 0 \<and> fst (Now w) - lf < workerFetchCooldown \<longrightarrow> ''worker'' \<notin> set (su_sources s)) \<and>
    (if ''database'' \<in> set (su_sources s) then counts_table (db w) (su_lifetime s) else su_lifetime s = [])"
proof -
  let ?s0 = "accumulate empty_summary fs"
  from assms(2,5) obtain s1 w1 s2 where p: "add_worker e url lf ?s0 w = (s1, lf', w1)"
    "add_lifetime lt s1 w1 = (s2, w')" "resp = writeJSONResponse 200 (summary_json (sortSummary e s2))"
    by (auto simp: summary_serve_def split: prod.splits)
  have db: "db w1 = db w" using quietD(1) [OF add_worker_quiet [OF p(1)]] by simp
  have "\<exists>ws. (if ''worker'' \<in> set (su_sources s1) then \<exists>k. worker_families e k = Some ws else ws = []) \<and>
      (lf \<noteq> 0 \<and> fst (Now w) - lf < workerFetchCooldown \<longrightarrow> ''worker'' \<notin> set (su_sources s1)) \<and> readable (fs @ ws) \<and> ''database'' \<notin> set (su_sources s1) \<and> su_lifetime s1 = [] \<and>
      same_rows s1 (accumulate empty_summary (fs @ ws))"
    using p(1)
  proof (cases rule: add_worker_cases)
    case 1
    then show ?thesis using assms(3) by (intro exI [of _ "[]"]) (simp add: accumulate_rows empty_summary_def same_rows_def)
  next
    case (2 ws k)
    then show ?thesis using assms(4) [OF 2(1)]
      by (intro exI [of _ ws]) (auto simp: accumulate_append same_rows_def accumulate_rows empty_summary_def)
  qed
  then obtain ws where ws: "if ''worker'' \<in> set (su_sources s1) then \<exists>k. worker_families e k = Some ws else ws = []"
    "lf \<noteq> 0 \<and> fst (Now w) - lf < workerFetchCooldown \<longrightarrow> ''worker'' \<notin> set (su_sources s1)"
    "readable (fs @ ws)" "''database'' \<notin> set (su_sources s1)" "su_lifetime s1 = []"
    "same_rows s1 (accumulate empty_summary (fs @ ws))" by blast
  have "same_rows s2 (accumulate empty_summary (fs @ ws))"
    using p(2) ws(6) by (cases rule: add_lifetime_cases) (simp_all add: same_rows_def)
  with assms(1) ws(3) have "summarises (fs @ ws) (sortSummary e s2)" by (rule sortSummary_summarises)
  moreover have "(''worker'' \<in> set (su_sources s2)) = (''worker'' \<in> set (su_sources s1))"
    "if ''database'' \<in> set (su_sources s2) then counts_table (db w) (su_lifetime s2) else su_lifetime s2 = []"
    using p(2) ws(4,5) db by (cases rule: add_lifetime_cases; simp)+
  ultimately show ?thesis
    using p(3) ws(1,2) by (intro exI [of _ "sortSummary e s2"] exI [of _ ws]) (simp add: sortSummary_def)
qed

end
