(* ===== verification/ApiScenarios.thy ===== *)
theory ApiScenarios
  imports Scenarios ApiHealth Boot ConsumerFacts SummaryFacts
begin

text \<open>
  Concrete inputs for the witnesses of the HTTP interface, the boot sequence and the consumers:
  an edge whose parsers are written out, requests, an environment, and consumers that have taken
  a message.
\<close>

section \<open>An edge\<close>

fun index_of :: "'a \<Rightarrow> 'a list \<Rightarrow> nat option" where
  "index_of x [] = None"
| "index_of x (y # ys) = (if x = y then Some 0 else map_option Suc (index_of x ys))"

definition exact_chi :: "(string \<times> string) list \<Rightarrow> string \<Rightarrow> string \<Rightarrow> chi_match" where
  "exact_chi table meth path =
     \<lparr>cm_route = index_of (meth, path) table, cm_param = [], cm_pattern = path,
      cm_reply = \<lparr>hs_status = 404, hs_body = NoBody\<rparr>\<rparr>"

text \<open>Cursors as two decimal numbers with a comma.\<close>

definition cursor_print :: "time \<Rightarrow> uuid \<Rightarrow> string" where
  "cursor_print t i = itoa (t + 366 * 86400 * second) @ CHR '','' # itoa (uint i)"

definition cursor_read :: "string \<Rightarrow> (time \<times> uuid) option" where
  "cursor_read s =
     (case dropWhile is_digit s of
        c # cs \<Rightarrow> if c = CHR '','' then
                    Some (decimal (takeWhile is_digit s) - 366 * 86400 * second, word_of_int (decimal cs))
                  else None
      | [] \<Rightarrow> None)"

definition calm_edge :: edge where
  "calm_edge =
     \<lparr>scan_create = (\<lambda>b. if b = [] then Incomplete else Decoded
        \<lparr>cq_recipient = ''+905551234567'', cq_channel = ''sms'', cq_content = b,
         cq_template = None, cq_priority = [], cq_scheduled_at = None, cq_idempotency_key = None\<rparr>),
      scan_batch = (\<lambda>b. Malformed), scan_template = (\<lambda>b. Malformed),
      scan_paused = (\<lambda>b. Decoded (b \<noteq> [])), scan_url = (\<lambda>b. Decoded b),
      scan_incoming = (\<lambda>b. Decoded \<lparr>im_to = [], im_channel = [], im_content = b\<rparr>),
      uuid_parse = (\<lambda>s. if s = ''one'' then Some 1 else None), time_parse = (\<lambda>s. None),
      time_format = (\<lambda>t. ''now''), url_parse = (\<lambda>u. Some (''http'', u)),
      cursor_json = cursor_print, cursor_unjson = cursor_read, chi = exact_chi,
      foreign_page = (\<lambda>name k. Served \<lparr>hs_status = 200, hs_body = TextBody name\<rparr>),
      openapi_yaml = ''openapi: 3.0.3'', dashboard_page = ''<html>'',
      ctx_done = (\<lambda>k. False), broker_channel = (\<lambda>k. True), queue_messages = (\<lambda>k q. Some 0),
      broker_closed = (\<lambda>k. False), gather = (\<lambda>m. Inr []), worker_families = (\<lambda>k. None),
      sort_values = (\<lambda>rows. rows), sort_latency = (\<lambda>rows. rows)\<rparr>"

lemma cursor_round: "- (366 * 86400 * second) \<le> t \<Longrightarrow> cursor_read (cursor_print t i) = Some (t, i)"
proof -
  define u where "u = t + 366 * 86400 * second"
  assume "- (366 * 86400 * second) \<le> t"
  then have t: "0 \<le> u" "t = u - 366 * 86400 * second" by (simp_all add: u_def)
  have d: "\<forall>c \<in> set (show_nat n). is_digit c" for n
    using show_nat_digits [of n] by (simp add: list_all_iff)
  have i: "itoa u = show_nat (nat u)" "itoa (uint i) = show_nat (nat (uint i))"
    using t by (simp_all add: itoa_def)
  have "\<not> is_digit (CHR '','')" by (simp add: is_digit_def)
  with d have "takeWhile is_digit (cursor_print t i) = show_nat (nat u)"
    "dropWhile is_digit (cursor_print t i) = CHR '','' # show_nat (nat (uint i))"
    unfolding cursor_print_def u_def [symmetric] i by (simp_all add: takeWhile_append2 dropWhile_append2)
  with t(1) show ?thesis by (simp add: cursor_read_def decimal_show_nat t(2))
qed

lemma calm_edge_codec: "cursor_codec calm_edge"
proof -
  have "cursor_print t i \<noteq> []" for t i by (simp add: cursor_print_def)
  then show ?thesis using cursor_round by (simp add: cursor_codec_def calm_edge_def json_time_def)
qed

text \<open>A registry and a worker that have counted the same label set.\<close>

definition created_family :: "int \<Rightarrow> metric_family" where
  "created_family n =
     \<lparr>mf_name = ''notifications_created_total'',
      mf_metrics = [\<lparr>mt_labels = [(''channel'', ''sms''), (''priority'', ''high'')],
        mt_value = (n, 1), mt_count = 0, mt_sum = (0, 1)\<rparr>]\<rparr>"

definition summary_edge :: edge where
  "summary_edge = calm_edge
     \<lparr>gather := (\<lambda>m. Inr [created_family 2]), worker_families := (\<lambda>k. Some [created_family 3]),
      sort_values := sort_key (\<lambda>r. label_text (lv_labels r)),
      sort_latency := (\<lambda>rows. rev (sort_key la_count rows))\<rparr>"

lemma summary_edge_sorts: "sorts_documented summary_edge"
proof -
  have "sorted_wrt (\<lambda>a b. \<not> label_text (lv_labels b) < label_text (lv_labels a))
      (sort_key (\<lambda>r. label_text (lv_labels r)) rows)"
    for rows :: "labeled_value list"
    using sorted_sort_key [of "\<lambda>r. label_text (lv_labels r)" rows]
    by (simp add: sorted_map not_less)
  moreover have "sorted_wrt (\<lambda>a b. \<not> la_count a < la_count b) (rev (sort_key la_count rows))"
    for rows :: "latency_summary list"
    using sorted_sort_key [of la_count rows] by (simp add: sorted_map not_less sorted_wrt_rev)
  ultimately show ?thesis by (simp add: sorts_documented_def summary_edge_def)
qed

lemma created_families_readable: "readable [created_family 2]" "readable [created_family 2, created_family 3]"
proof -
  have "same_names (concat (map mf_metrics (map created_family ns)))" for ns
    by (auto simp: same_names_def created_family_def labelsOf_def intro!: exI [of _ "{''channel'', ''priority''}"]
        split: if_splits)
  from this [of "[2]"] this [of "[2, 3]"] show "readable [created_family 2]"
    "readable [created_family 2, created_family 3]"
    by (simp_all add: readable_def created_family_def countable_def whole_def count_of_def same_names_def)
qed

section \<open>Requests\<close>

definition empty_post :: http_request where
  "empty_post = \<lparr>hr_method = ''POST'', hr_path = ''/api/v1/notifications'', hr_request_id = ''abc'',
     hr_query = [], hr_param = [], hr_body = [], hr_map_order = False\<rparr>"

definition list_two :: http_request where
  "list_two = \<lparr>hr_method = ''GET'', hr_path = ''/api/v1/notifications'', hr_request_id = [],
     hr_query = [(''limit'', ''2'')], hr_param = [], hr_body = [], hr_map_order = False\<rparr>"

definition idle_api :: api where
  "idle_api = new_api"

definition numbered_row :: "nat \<Rightarrow> notification" where
  "numbered_row k = (sms_row StatusQueued 0)\<lparr>nid := of_nat k, created_at := 1000 * int k,
     idempotency_key := None\<rparr>"

definition three_rows :: database where
  "three_rows = (one_row StatusQueued 0)\<lparr>notifications := map numbered_row [1, 2, 3]\<rparr>"

lemma three_rows_ok: "db_ok three_rows"
  by (auto simp: db_ok_def row_ok_def template_ok_def three_rows_def numbered_row_def sms_row_def
      Channel_Valid_def Channels_def Priority_Valid_def List.map_filter_simps unstarted_def max_int4_def
      timestamptz_def)

lemma three_rows_json:
  "r \<in> set (notifications three_rows) \<Longrightarrow>
     encodable (toNotificationResponse r) \<and> created_at r \<noteq> 0 \<and> nid r \<noteq> uuid_Nil"
  by (auto simp: three_rows_def numbered_row_def encodable_notification json_time_def sms_row_def)

lemma three_rows_length: "length (notifications three_rows) = 3"
  by (simp add: three_rows_def)

lemma list_two_no_cursor: "query_Get list_two ''cursor'' = []"
  by (simp add: query_Get_def list_two_def)

lemma calm_handle_pair: "r = (fst r, fst (snd r), snd (snd r))"
  by simp

lemma hello_storable:
  "storable_request calm_edge (calm no_rows) NotificationsCreate (empty_post\<lparr>hr_body := ''hello''\<rparr>)"
  by code_simp

section \<open>Booting\<close>

definition calm_boot :: "lookup \<Rightarrow> boot_env" where
  "calm_boot env =
     \<lparr>bt_lookup = env, bt_source = None, bt_migrator = (\<lambda>u. None), bt_up = UpApplied,
      bt_pool_New = (\<lambda>u. None), bt_dial = (\<lambda>u. None), bt_declare_fails = (\<lambda>k. False),
      bt_channel = None, bt_confirm = None, bt_event_channel = None\<rparr>"

definition zero_interval :: lookup where
  "zero_interval key = (if key = ''SCHEDULER_POLL_INTERVAL'' then ''0s'' else [])"

lemma calm_boot_starts:
  assumes "Load env = Inr c"
  shows "\<exists>T w'. boot (calm_boot env) e empty_topology (calm d) = (Inr (started c e), T, w')"
proof -
  obtain T where "DeclareTopology (\<lambda>k. False) empty_topology = (None, T)"
    using run_declares_total by (metis prod.collapse)
  with assms show ?thesis
    by (simp add: boot_def calm_boot_def Migrate_def attempt_def bind_def postgres_Connect_def
        ping_postgres_def db_call_def Let_def EnsureWorkerControl_def sql_ensure_control_def
        rabbit_Connect_def NewPublisher_def)
qed

section \<open>Consumers\<close>

abbreviation sms_queue :: string where "sms_queue \<equiv> WorkQueueName ''sms''"

definition fresh_message :: publishing where
  "fresh_message = \<lparr>p_persistent = True, p_priority = 5, p_correlation_id = [], p_body = Message 1\<rparr>"

definition consumers0 :: consumers where
  "consumers0 = Run_start log_worker (calm (one_row StatusQueued 0)) 2
     (\<lambda>q. if q = sms_queue then [fresh_message] else [])"

definition consumers1 :: consumers where
  "consumers1 = subscribe sms_queue Subscribed (waitWhilePaused sms_queue consumers0)"

definition consumers2 :: consumers where
  "consumers2 = push_delivery sms_queue 0 (new_session log_worker) consumers1"

definition consumers3 :: consumers where
  "consumers3 = supervise_shutdown sms_queue
     (consumers2\<lparr>cs_ctx_done := True, cs_signalled := True\<rparr>)"

lemma consumers0_starts: "Run_starts consumers0"
  unfolding Run_starts_def consumers0_def
  by (intro exI conjI, rule refl) (simp_all add: log_worker_def New_worker_limiters_ok)

lemma consumers_phases:
  "in_phase consumers0 sms_queue Waiting"
  "in_phase (waitWhilePaused sms_queue consumers0) sms_queue Subscribing"
  "in_phase consumers1 sms_queue (Consuming (new_session log_worker))"
  "length (qs_ready (cs_queue consumers1 sms_queue)) = 1"
  "may_push consumers1 (new_session log_worker)"
  by code_simp+

lemma consumers1_reached: "consumer_step\<^sup>*\<^sup>* consumers0 consumers1"
  unfolding consumers1_def
  using consumer_step.wait [OF consumers_phases(1)] consumer_step.subscribe [OF consumers_phases(2)]
  by (meson converse_rtranclp_into_rtranclp r_into_rtranclp)

lemma consumers2_reached: "consumer_step\<^sup>*\<^sup>* consumers0 consumers2"
  unfolding consumers2_def
  by (rule rtranclp.rtrancl_into_rtrancl [OF consumers1_reached])
    (intro consumer_step.push consumers_phases; simp add: consumers_phases)

definition pushed_session :: session where
  "pushed_session = (new_session log_worker)\<lparr>ss_buffered := [fresh_message]\<rparr>"

lemma consumers2_state:
  "qs_phase (cs_queue consumers2 sms_queue) = Consuming pushed_session"
  "qs_arrived (cs_queue consumers2 sms_queue) = [fresh_message]"
  "qs_ready (cs_queue consumers2 sms_queue) = []"
  "qs_settled (cs_queue consumers2 sms_queue) = []"
  by code_simp+

lemma consumers3_reached: "consumer_step\<^sup>*\<^sup>* consumers0 consumers3"
proof -
  let ?s = "consumers2\<lparr>cs_ctx_done := True, cs_signalled := True\<rparr>"
  have "consumer_step consumers2 ?s" by (rule consumer_step.signal)
  moreover have "consumer_step ?s (supervise_shutdown sms_queue ?s)"
    by (rule consumer_step.shutdown) (simp_all add: in_phase_def consumers2_state)
  ultimately show ?thesis
    unfolding consumers3_def using consumers2_reached by (meson rtranclp.rtrancl_into_rtrancl)
qed

lemma consumers3_draining: "draining consumers3 sms_queue"
  by (simp add: draining_def in_phase_def consumers3_def supervise_shutdown_def in_session_def
      consumers2_state cancelSubscription_def pushed_session_def new_session_def)

section \<open>The live stream\<close>

definition hub_streaming :: hub where
  "hub_streaming = hub_event_case (Broadcast 1 ''sent''
     (hub_register_case 0 (NewHub\<lparr>hb_clients := (hb_clients NewHub)(0 := Some (new_client 1))\<rparr>)))"

lemma hub_streaming_reached: "hub_step\<^sup>*\<^sup>* NewHub hub_streaming"
proof -
  let ?parse = "\<lambda>s. Some 1 :: uuid option"
  let ?a = "NewHub\<lparr>hb_clients := (hb_clients NewHub)(0 := Some (ws_connect ?parse ''one''))\<rparr>"
  have c: "ws_connect ?parse ''one'' = new_client 1" by (simp add: ws_connect_def)
  have "hub_step NewHub ?a" by (rule hub_step.connect) (simp add: NewHub_def)
  moreover have "hub_step ?a (hub_register_case 0 ?a)"
    by (rule hub_step.register [where c = "new_client 1"]) (simp_all add: c new_client_def NewHub_def)
  moreover have "hub_step (hub_register_case 0 ?a) (Broadcast 1 ''sent'' (hub_register_case 0 ?a))"
    by (rule hub_step.broadcast)
  moreover have "hub_step (Broadcast 1 ''sent'' (hub_register_case 0 ?a)) hub_streaming"
    unfolding hub_streaming_def c [symmetric]
    by (rule hub_step.event) (simp add: Broadcast_def hub_register_case_def upd_client_def NewHub_def)
  ultimately show ?thesis by (meson rtranclp.rtrancl_into_rtrancl rtranclp.rtrancl_refl)
qed

lemma hub_streaming_client:
  "map_option wc_send (hb_clients hub_streaming 0) = Some [''sent'']"
  by code_simp

end
