(* ===== verification/Runs.thy ===== *)
theory Runs
  imports Operations ApiScenarios
begin

text \<open>
  Runs in an undisturbed environment: every database call and every publication succeeds. What
  happens then does happen: a claimable row is claimed, an accepted send is recorded; and a reply
  that the tables cannot hold is sent for again and again.
\<close>

section \<open>An undisturbed environment\<close>

definition undisturbed :: "world \<Rightarrow> bool" where
  "undisturbed w \<longleftrightarrow> (\<forall>k. db_fate w k = Succeeds \<and> publish_fate w k = Confirmed \<and> limiter_ok w k \<and>
     (\<forall>i. \<not> row_locked w k i))"

lemma undisturbedD:
  assumes "undisturbed w"
  shows "db_fate w k = Succeeds" "publish_fate w k = Confirmed" "limiter_ok w k" "\<not> row_locked w k i"
  using assms by (simp_all add: undisturbed_def)

lemma undisturbed_later: "later w w' \<Longrightarrow> undisturbed w \<Longrightarrow> undisturbed w'"
  by (simp add: undisturbed_def laterD)

lemma undisturbed_call:
  "undisturbed w \<Longrightarrow> db_call f w =
     (fst (f (db_clock w (steps w)) (db w)),
      w\<lparr>steps := Suc (steps w), db := snd (f (db_clock w (steps w)) (db w))\<rparr>)"
  by (simp add: db_call_def undisturbed_def Let_def split: prod.splits)

section \<open>Statements that add no row\<close>

definition adds_none :: "'a stmt \<Rightarrow> bool" where
  "adds_none f \<longleftrightarrow> (\<forall>t d. map nid (notifications (snd (f t d))) = map nid (notifications d))"

lemma map_nid_update:
  "keeps_identity f \<Longrightarrow>
     map nid (notifications (snd (update_returning P f d))) = map nid (notifications d)"
  by (simp add: notifications_update_returning update_where_def keeps_identityD)

lemma adds_none_statements [simp]:
  "adds_none (sql_claim i allowed)" "adds_none (sql_claim_due s l locked)" "adds_none (sql_touch_queued i)"
  "adds_none (sql_recover_stale s l locked)"
  by (simp_all add: adds_none_def snd_claim snd_claim_due snd_recover_stale sql_touch_queued_def
      map_nid_update split: prod.splits)

lemma adds_none_call:
  "adds_none f \<Longrightarrow> db_call f w = (r, w') \<Longrightarrow>
     map nid (notifications (db w')) = map nid (notifications (db w))"
  unfolding adds_none_def by (erule db_call_cases) (metis snd_conv)+

section \<open>Claiming\<close>

text \<open>The attempts column is an INTEGER: a row that has reached its end can no longer be claimed.\<close>

lemma claim_succeeds:
  assumes "undisturbed w" "db_ok (db w)" "find_row i (db w) = Some r"
    and "status r \<in> set src" "attempts r < max_int4"
  obtains w1 where "ClaimForProcessing i src w = (Inr (claimed (db_clock w (steps w)) r), w1)"
    and "find_row i (db w1) = Some (claimed (db_clock w (steps w)) r)" "steps w1 = Suc (steps w)"
proof -
  let ?t = "db_clock w (steps w)"
  obtain x d where s: "sql_claim i (map status_string src) ?t (db w) = (x, d)" by fastforce
  have "x = Inr (claimed ?t r) \<and> find_row i d = Some (claimed ?t r)"
  proof (cases x)
    case (Inl e)
    have "r' = r" if "r' \<in> set (notifications (db w))" "nid r' = i" for r'
      using that find_row_iff [OF assms(2), of i r'] assms(3) by simp
    then have "sql_claim i (map status_string src) ?t (db w) \<noteq> (Inl (PgError ''22003'' []), d)"
      using assms(5) by (auto simp: sql_claim_alt split: prod.splits list.splits)
    with sql_claim_Inl [OF assms(2) s [unfolded Inl]] s Inl assms(3,4) show ?thesis by auto
  next
    case (Inr n)
    with sql_claim_Inr [OF assms(2) s [unfolded Inr]] assms(3) show ?thesis by auto
  qed
  with undisturbed_call [OF assms(1), of "sql_claim i (map status_string src)"] s show thesis
    by (intro that [of "w\<lparr>steps := Suc (steps w), db := d\<rparr>"]) (simp_all add: ClaimForProcessing_def)
qed

lemma ClaimForProcessing_ids:
  "ClaimForProcessing i src w = (r, w') \<Longrightarrow>
     map nid (notifications (db w')) = map nid (notifications (db w))"
  by (auto simp: ClaimForProcessing_def split: prod.splits sum.splits if_splits
      dest!: adds_none_call [rotated] GetByID_db)

text \<open>A delivery of a claimable row reaches the sender.\<close>

lemma claim_reaches_deliver:
  assumes "undisturbed w" "db_ok (db w)" "find_row i (db w) = Some r"
    and "CanTransition (status r) StatusProcessing" "attempts r < max_int4"
    and "wk_limiters wk (channel r) = Some rate" "1 \<le> rate"
  obtains n w2 where "n = claimed (db_clock w (steps w)) r"
    and "processNotification wk ctx i w = deliver wk ctx i n w2"
    and "find_row i (db w2) = Some n" "db_ok (db w2)" "world_le w w2" "steps w < steps w2"
    and "requests w2 = requests w" "map nid (notifications (db w2)) = map nid (notifications (db w))"
proof -
  have "status r \<in> set (StatusesAllowedInto StatusProcessing)"
    using assms(4) by (cases "status r") (simp_all add: StatusesAllowedInto_def allStatuses_def)
  from claim_succeeds [OF assms(1-3) this assms(5)] obtain w1 where c:
    "ClaimForProcessing i (StatusesAllowedInto StatusProcessing) w =
       (Inr (claimed (db_clock w (steps w)) r), w1)"
    "find_row i (db w1) = Some (claimed (db_clock w (steps w)) r)" "steps w1 = Suc (steps w)" .
  note le = ClaimForProcessing_le [OF c(1)]
  have "limiter_ok w1 (steps w1)"
    using undisturbed_later [OF world_le_later [OF le] assms(1)] by (simp add: undisturbed_def)
  then have l: "limiter_Wait rate w1 = (Inr (), w1\<lparr>steps := Suc (steps w1)\<rparr>)"
    using assms(7) by (simp add: limiter_Wait_def)
  show thesis
    by (rule that [OF refl, of "w1\<lparr>steps := Suc (steps w1)\<rparr>"])
      (use ClaimForProcessing_ids [OF c(1)] c l assms(2,6) world_le_db_ok [OF le] ClaimForProcessing_frame(1) [OF c(1)] in
        \<open>auto simp: processNotification_def intro: world_le_trans [OF le]\<close>)
qed

section \<open>A provider that takes everything\<close>

definition provider_accepts :: "world \<Rightarrow> bool" where
  "provider_accepts w \<longleftrightarrow> (\<forall>u. url_ok w u) \<and>
     (\<forall>k rq. \<exists>code body c. provider_reply w k rq = Reply code body c \<and> 200 \<le> code \<and> code < 300) \<and>
     (\<forall>b i. json_message_id w b = Some i \<longrightarrow> pg_text i) \<and> (\<forall>i. pg_text (uuid_text w i))"

lemma provider_accepts_later: "later w w' \<Longrightarrow> provider_accepts w \<Longrightarrow> provider_accepts w'"
  by (simp add: provider_accepts_def laterD)

lemma pg_text_Nil [simp]: "pg_text []"
  by (simp add: pg_text_def)

lemma Webhook_accepted:
  assumes "provider_accepts w" "Webhook_Send s n w = (r, w')"
  shows "\<exists>sr. r = Inr sr \<and> pg_text (sr_message_id sr) \<and> length (requests w') = Suc (length (requests w))"
proof -
  from assms(1) obtain code body c where "provider_reply w (steps w) (request_for s n) = Reply code body c"
    "200 \<le> code" "code < 300" "url_ok w (ws_url s)" unfolding provider_accepts_def by blast
  moreover from assms(1) have "pg_text (parseProviderMessageID v b)" if "json_message_id v = json_message_id w"
    for v b
    using that by (auto simp: provider_accepts_def parseProviderMessageID_def split: option.split)
  ultimately show ?thesis
    using assms(2) by (auto simp: Webhook_Send_def client_Do_def Let_def)
qed

lemma Switchable_accepted:
  assumes "provider_accepts w" "Switchable_Send s n w = (r, s', w')"
  shows "\<exists>sr. r = Inr sr \<and> pg_text (sr_message_id sr)"
proof -
  obtain x s1 w1 where t: "currentTarget s w = (x, s1, w1)" by (rule prod_cases3)
  have "provider_accepts w1"
    using provider_accepts_later [OF world_le_later [OF quietD(5) [OF currentTarget_quiet [OF t]]] assms(1)] .
  note web = Webhook_accepted [OF this]
  have "provider_accepts w1 \<Longrightarrow> pg_text (uuid_text w1 j)" for j by (simp add: provider_accepts_def)
  with \<open>provider_accepts w1\<close> have log: "\<exists>sr. r = Inr sr \<and> pg_text (sr_message_id sr)"
    if "Log_Send n w1 = (r, w')" for r w'
    using that by (auto simp: Log_Send_def uuid_New_def)
  show ?thesis
  proof (cases x)
    case (Some target)
    with assms(2) t show ?thesis
      by (auto simp: Switchable_Send_def split: prod.splits dest!: web)
  next
    case None
    with assms(2) t show ?thesis
      by (cases "sw_fallback s1")
        (auto simp: Switchable_Send_def fallback_Send_def split: prod.splits dest!: web log)
  qed
qed

section \<open>Writing the outcome\<close>

lemma MarkSent_succeeds:
  assumes "undisturbed w" "db_ok (db w)" "find_row i (db w) = Some n" "status n = StatusProcessing"
    and "pg_text p" "MarkSent i p u w = (r, w')"
  shows "r = Inr () \<and> find_row i (db w') = Some (sent_row p u (db_clock w (steps w)) n)"
proof -
  obtain x d where "sql_mark_sent i p u (db_clock w (steps w)) (db w) = (x, d)" by fastforce
  moreover from this obtain rows where "x = Inr rows"
    using assms(5) by (auto simp: sql_mark_sent_def split: prod.splits)
  ultimately have s: "sql_mark_sent i p u (db_clock w (steps w)) (db w) = (Inr rows, d)" by simp
  from sql_mark_sent_counted [OF assms(2) s] assms(3,4) have
    "rows \<noteq> 0" "find_row i d = Some (sent_row p u (db_clock w (steps w)) n)"
    by (auto simp: counted_def sent_row_def)
  with undisturbed_call [OF assms(1), of "sql_mark_sent i p u"] s assms(6) show ?thesis
    by (auto simp: MarkSent_def)
qed

text \<open>A text that no column can hold is refused whatever the environment does.\<close>

lemma recordOutcome_unstorable:
  assumes "\<not> pg_gotext t" "recordOutcome i to t w = (r, w')"
  shows "\<exists>e. r = Inl e \<and> cause e \<noteq> ErrInvalidTransition \<and> db w' = db w"
  using assms
  by (auto simp: recordOutcome_def db_call_def sql_record_outcome_def Let_def
      split: prod.splits sum.splits fate.splits)

lemma handleSendFailure_unstorable:
  assumes "\<not> pg_gotext (error_text e)" "handleSendFailure wk ctx n e w = (r, w')"
  shows "isl r \<and> db w' = db w"
proof -
  obtain a w1 where m: "recordOutcome (nid n) (failure_status wk n e) (error_text e) w = (a, w1)"
    by fastforce
  from recordOutcome_unstorable [OF assms(1) m] m assms(2) show ?thesis
    by (auto simp: handleSendFailure_def MarkRetrying_def MarkFailed_def failure_status_def
        split: if_splits)
qed

text \<open>A send that fails leaves the outcome to \<open>handleSendFailure\<close>.\<close>

lemma deliver_failed:
  assumes "Switchable_Send (wk_sender wk) n (snd (Now w)) = (Inl e, s', w2)"
    and "deliver wk ctx i n w = (r, wk', w')"
  obtains w4 where "handleSendFailure wk' ctx n e w4 = (r, w')" "db w4 = db w" "requests w4 = requests w2"
    "world_le w w4" "wk' = wk\<lparr>wk_sender := s'\<rparr>"
proof -
  obtain t w1 where n1: "Now w = (t, w1)" by fastforce
  obtain u w3 where n3: "Now w2 = (u, w3)" by fastforce
  have s: "Switchable_Send (wk_sender wk) n w1 = (Inl e, s', w2)" using assms(1) n1 by simp
  have f: "db w3 = db w" "requests w3 = requests w2"
    using Now_frame [OF n1] switch.send_db [OF s] Now_frame [OF n3] by auto
  have le: "world_le w w3"
    using Now_le [OF n1] switch.send_le [OF s] Now_le [OF n3] by (blast intro: world_le_trans)
  show thesis
    by (rule that [of "recordAttempt (wk\<lparr>wk_sender := s'\<rparr>) (channel n)
        (if IsRetryable e then ''retryable'' else ''permanent'') (u - t) w3"])
      (use assms(2) s n1 n3 f le in \<open>auto simp: deliver_def Let_def split: prod.splits
        intro: world_le_trans [OF le]\<close>)
qed

section \<open>Accepted, therefore delivered\<close>

lemma deliver_accepted:
  assumes "undisturbed w" "provider_accepts w" "db_ok (db w)" "find_row i (db w) = Some n"
    and "status n = StatusProcessing" "deliver wk ctx i n w = (r, wk', w')"
  shows "r = Inr () \<and> (\<exists>p u t. find_row i (db w') = Some (sent_row p u t n))"
proof -
  obtain t w1 where n1: "Now w = (t, w1)" by fastforce
  obtain x s' w2 where s: "Switchable_Send (wk_sender wk) n w1 = (x, s', w2)" by (rule prod_cases3)
  obtain u w3 where n3: "Now w2 = (u, w3)" by fastforce
  from Switchable_accepted [OF _ s] provider_accepts_later [OF world_le_later [OF Now_le [OF n1]] assms(2)]
  obtain sr where sr: "x = Inr sr" "pg_text (sr_message_id sr)" by blast
  define w4 where "w4 = recordAttempt (wk\<lparr>wk_sender := s'\<rparr>) (channel n) ''success'' (u - t) w3"
  obtain sentAt w5 where n5: "Now w4 = (sentAt, w5)" by fastforce
  have "world_le w w4"
    unfolding w4_def using Now_le [OF n1] switch.send_le [OF s] Now_le [OF n3] recordAttempt_frame(4)
    by (blast intro: world_le_trans)
  then have le: "world_le w w5" using Now_le [OF n5] by (rule world_le_trans)
  have d5: "db w5 = db w"
    using Now_frame [OF n1] switch.send_db [OF s] Now_frame [OF n3] Now_frame [OF n5] by (simp add: w4_def)
  obtain m w6 where mk: "MarkSent i (sr_message_id sr) sentAt w5 = (m, w6)" by fastforce
  from MarkSent_succeeds [OF undisturbed_later [OF world_le_later [OF le] assms(1)] _ _ assms(5) sr(2) mk]
    assms(3,4) d5 have m: "m = Inr ()" "\<exists>t. find_row i (db w6) = Some (sent_row (sr_message_id sr) sentAt t n)"
    by auto
  have "r = Inr () \<and> db w' = db w6"
    using assms(6) n1 s n3 n5 mk m(1) sr(1) by (auto simp: deliver_def Let_def w4_def [symmetric])
  with m(2) show ?thesis by auto
qed

lemma claimable_is_delivered:
  assumes "undisturbed w" "provider_accepts w" "db_ok (db w)" "find_row i (db w) = Some r"
    and "CanTransition (status r) StatusProcessing" "attempts r < max_int4"
    and "wk_limiters wk (channel r) = Some rate" "1 \<le> rate"
    and "processNotification wk ctx i w = (x, wk', w')"
  shows "x = Inr () \<and> (\<exists>row. find_row i (db w') = Some row \<and> status row = StatusSent \<and>
    same_identity r row \<and> attempts row = attempts r + 1)"
proof -
  obtain n w2 where c: "n = claimed (db_clock w (steps w)) r"
    "processNotification wk ctx i w = deliver wk ctx i n w2" "find_row i (db w2) = Some n"
    "db_ok (db w2)" "world_le w w2"
    using claim_reaches_deliver [OF assms(1,3-8)] by metis
  note l = world_le_later [OF c(5)]
  have "status n = StatusProcessing" using c(1) by simp
  from deliver_accepted [OF undisturbed_later [OF l assms(1)] provider_accepts_later [OF l assms(2)]
      c(4,3) this assms(9) [unfolded c(2)]]
  show ?thesis by (auto simp: c(1) sent_row_def same_identity_def claimed_def)
qed

lemma PublishCreated_succeeds:
  assumes "undisturbed w" "PublishCreated ctx n w = (x, w')"
  shows "x = Inr ()"
  using assms
  by (auto simp: PublishCreated_def publishNotification_def publishConfirmed_def undisturbed_def
      dest!: broker_publish_eq split: prod.splits)

lemma publishForDelivery_succeeds:
  assumes u: "undisturbed w" and ok: "db_ok (db w)" and row: "find_row (nid n) (db w) = Some r"
    and st: "status r = StatusPending" and p: "publishForDelivery ctx n w = (n', w')"
  shows "n' = n\<lparr>status := StatusQueued\<rparr>"
proof -
  obtain x w1 where c: "PublishCreated ctx n w = (x, w1)" by fastforce
  note x = PublishCreated_succeeds [OF u c]
  have u1: "undisturbed w1" using undisturbed_later [OF world_le_later [OF PublishCreated_effect(4) [OF c]] u] .
  have d1: "db w1 = db w" using PublishCreated_effect(1) [OF c] .
  obtain y w2 where y: "UpdateStatus (nid n) StatusQueued [StatusPending] w1 = (y, w2)" by fastforce
  let ?f = "sql_update_status (nid n) StatusQueued (map status_string [StatusPending])"
  obtain z d where z: "?f (db_clock w1 (steps w1)) (db w1) = (z, d)" by fastforce
  moreover from this obtain rows where "z = Inr rows"
    by (auto simp: sql_update_status_def Let_def split: prod.splits)
  ultimately have s: "?f (db_clock w1 (steps w1)) (db w1) = (Inr rows, d)" by simp
  have "rows \<noteq> 0"
    using sql_update_status_counted [OF ok s [unfolded d1]] row st by (auto simp: counted_def)
  with y s undisturbed_call [OF u1, of ?f] have "y = Inr ()" by (simp add: UpdateStatus_def)
  with p c x y show ?thesis by (auto simp: publishForDelivery_def Let_def)
qed

lemma Service_Create_queues:
  assumes u: "undisturbed w" and ok: "db_ok (db w)" and c: "Service_Create sv ctx inp w = (Inr res, w')"
    and new: "\<not> cr_replayed res" "ci_scheduled_at inp = None"
  shows "\<exists>row. find_row (nid (cr_notification res)) (db w') = Some row \<and> status row = StatusQueued \<and>
    attempts row = 0 \<and> channel row = ci_channel inp \<and> recipient row = ci_recipient inp \<and>
    created_publication ctx ((cr_notification res)\<lparr>status := StatusPending\<rparr>) \<in> set (published w') \<and>
    channel (cr_notification res) = ci_channel inp"
  using c
proof (cases rule: Service_Create_cases)
  case (replayed key)
  with new show ?thesis by simp
next
  case (created n now w3 w4 rows)
  let ?w5 = "recordCreated sv n w4"
  have d4: "db ?w5 = (db w)\<lparr>notifications := rows\<rparr>" using created by simp
  have row: "find_row (nid n) (db ?w5) = Some (inserted n)"
    using find_row_insert [of n "db w" rows] created d4 by simp
  have "world_le w3 w4" using Create_le [OF created(4,9)] .
  then have le: "world_le w ?w5"
    using quietD(5) [OF created(2)] by (blast intro: world_le_trans recordCreated_frame)
  have p: "publishForDelivery ctx n ?w5 = (cr_notification res, w')" "status n = StatusPending"
    using created new(2) by auto
  have st: "status (inserted n) = StatusPending" using p(2) by (simp add: inserted_def in_columns_def)
  have q: "cr_notification res = n\<lparr>status := StatusQueued\<rparr>"
    using publishForDelivery_succeeds [OF undisturbed_later [OF world_le_later [OF le] u]
        world_le_db_ok [OF le ok] row st p(1)] .
  have "status (cr_notification res) \<noteq> status n" using q p(2) by simp
  then have "cr_notification res \<noteq> n" by auto
  with publishForDelivery_spec [OF world_le_db_ok [OF le ok] p(1)] row obtain t where
    "created_publication ctx n \<in> set (published w')"
    "find_row (nid n) (db w') = Some ((inserted n)\<lparr>status := StatusQueued, updated_at := t\<rparr>)"
    by auto
  moreover have "(cr_notification res)\<lparr>status := StatusPending\<rparr> = n" using q p(2) by simp
  ultimately show ?thesis
    using q created by (simp add: inserted_def in_columns_def)
qed

section \<open>A reply that no column can hold\<close>

lemma utf8_valid_ascii_append: "(\<forall>c \<in> set a. byte c < 128) \<Longrightarrow> utf8_valid (a @ s) = utf8_valid s"
  by (induction a) (simp_all add: utf8_valid.simps(2) rune_size_def)

lemma pg_text_ascii_append:
  "(\<forall>c \<in> set a. 0 < byte c \<and> byte c < 128) \<Longrightarrow> pg_text (a @ s) = pg_text s"
  by (auto simp: pg_text_def utf8_valid_ascii_append list_all_iff)

lemma digit_ascii: "is_digit c \<Longrightarrow> 0 < byte c \<and> byte c < 128"
proof -
  have "(of_char c :: int) = int (byte c)" by (simp add: of_char_def)
  then show "is_digit c \<Longrightarrow> 0 < byte c \<and> byte c < 128" unfolding is_digit_def by linarith
qed

lemma itoa_ascii: "\<forall>c \<in> set (itoa i). 0 < byte c \<and> byte c < 128"
  using show_nat_digits digit_ascii by (auto simp: itoa_def list_all_iff)

lemma send_error_storable: "pg_gotext (error_text (SendError code rt [Plain s])) = pg_text s"
  using pg_text_ascii_append [of "''provider returned '' @ itoa code @ '': ''" s] itoa_ascii
  by (auto simp: pg_gotext_def SendError_Error_def)

definition provider_answers :: "world \<Rightarrow> int \<Rightarrow> string \<Rightarrow> bool" where
  "provider_answers w code body \<longleftrightarrow> (\<forall>u. url_ok w u) \<and> (\<forall>k rq. provider_reply w k rq = Reply code body True)"

definition rejection :: "int \<Rightarrow> string \<Rightarrow> error" where
  "rejection code body = SendError code (code = 429 \<or> 500 \<le> code) [Plain (readErrorBody body True)]"

lemma rejection_storable: "pg_gotext (error_text (rejection code body)) = pg_text (readErrorBody body True)"
  unfolding rejection_def by (rule send_error_storable)

lemma Webhook_rejected:
  assumes "provider_answers w code body" "\<not> (200 \<le> code \<and> code < 300)" "Webhook_Send s n w = (r, w')"
  shows "r = Inl (rejection code body) \<and> length (requests w') = Suc (length (requests w))"
  using assms by (auto simp: Webhook_Send_def client_Do_def provider_answers_def rejection_def Let_def split: if_splits)

lemma currentTarget_fallback: "currentTarget s w = (x, s', w') \<Longrightarrow> sw_fallback s' = sw_fallback s"
  by (auto simp: currentTarget_def Let_def split: prod.splits sum.splits if_splits)

lemma Switchable_rejected:
  assumes "provider_answers w code body" "\<not> (200 \<le> code \<and> code < 300)" "sw_fallback s = WebhookFallback h"
    and "Switchable_Send s n w = (r, s', w')"
  shows "r = Inl (rejection code body) \<and> length (requests w') = Suc (length (requests w)) \<and>
    sw_fallback s' = WebhookFallback h"
proof -
  obtain x s1 w1 where t: "currentTarget s w = (x, s1, w1)" by (rule prod_cases3)
  note q = currentTarget_quiet [OF t]
  have "provider_answers w1 code body"
    using assms(1) laterD [OF world_le_later [OF quietD(5) [OF q]]] by (simp add: provider_answers_def)
  note web = Webhook_rejected [OF this assms(2)]
  show ?thesis
    using assms(3,4) t currentTarget_fallback [OF t] quietD(3) [OF q]
    by (cases x) (auto simp: Switchable_Send_def fallback_Send_def split: prod.splits dest!: web)
qed

section \<open>The scheduler's polls\<close>

text \<open>A poll adds no row and reaches no provider.\<close>

definition no_more :: "world \<Rightarrow> world \<Rightarrow> bool" where
  "no_more w w' \<longleftrightarrow> map nid (notifications (db w')) = map nid (notifications (db w)) \<and>
     requests w' = requests w"

lemma no_more_refl [simp]: "no_more w w"
  by (simp add: no_more_def)

lemma no_more_trans: "no_more a b \<Longrightarrow> no_more b c \<Longrightarrow> no_more a c"
  by (simp add: no_more_def)

lemma no_more_length: "no_more w w' \<Longrightarrow> length (notifications (db w')) = length (notifications (db w))"
  unfolding no_more_def by (metis length_map)

lemma no_more_quiet: "quiet w w' \<Longrightarrow> no_more w w'"
  by (simp add: no_more_def quietD)

lemma no_more_call: "adds_none f \<Longrightarrow> db_call f w = (r, w') \<Longrightarrow> no_more w w'"
  by (simp add: no_more_def adds_none_call db_call_frame)

lemma no_more_publish:
  "PublishCreated ctx n w = (x, w') \<Longrightarrow> no_more w w'"
  "PublishEvent ev w = (x, w') \<Longrightarrow> no_more w w'"
  by (simp_all add: no_more_def PublishCreated_effect PublishEvent_effect)

lemma no_more_collected: "adds_none f \<Longrightarrow> collected m l f w = (r, w') \<Longrightarrow> no_more w w'"
  by (auto simp: collected_def split: prod.splits sum.splits
      dest!: no_more_call collect_quiet no_more_quiet intro: no_more_trans)

lemma publish_due_no_more: "no_more w (snd (publish_due ctx ns k w))"
proof (induction ns arbitrary: k w)
  case (Cons n ns)
  obtain x w1 where p: "PublishCreated ctx n w = (x, w1)" by fastforce
  obtain t w2 where t: "Now w1 = (t, w2)" by fastforce
  obtain y w3 where e: "PublishEvent (queued_event n t) w2 = (y, w3)" by fastforce
  have "no_more w w1" "no_more w w3"
    using no_more_publish(1) [OF p] no_more_quiet [OF Now_quiet [OF t]] no_more_publish(2) [OF e]
    by (blast intro: no_more_trans)+
  with Cons p t e show ?case by (cases x) (auto intro: no_more_trans)
qed simp

lemma republish_all_no_more: "no_more w (republish_all ctx ns w)"
proof (induction ns arbitrary: w)
  case (Cons n ns)
  obtain x w1 where p: "PublishCreated ctx n w = (x, w1)" by fastforce
  obtain y w2 where t: "TouchQueued (nid n) w1 = (y, w2)" by fastforce
  from t have "no_more w1 w2"
    by (auto simp: TouchQueued_def split: prod.splits sum.splits dest!: no_more_call [rotated])
  with Cons p t no_more_publish(1) [OF p] show ?case by (cases x) (auto intro: no_more_trans)
qed simp

lemma publish_recovered_no_more: "no_more w (publish_recovered ctx ns w)"
proof (induction ns arbitrary: w)
  case (Cons n ns)
  obtain x w1 where p: "PublishCreated ctx n w = (x, w1)" by fastforce
  with Cons no_more_publish(1) [OF p] show ?case by (auto intro: no_more_trans)
qed simp

lemma ClaimDueForQueue_no_more: "ClaimDueForQueue s l w = (r, w') \<Longrightarrow> no_more w w'"
  "RecoverStaleProcessing s l w = (r, w') \<Longrightarrow> no_more w w'"
  by (auto simp: collecting intro: no_more_collected [rotated])

lemma sweeps_no_more:
  "no_more w (queueDue sc ctx w)" "no_more w (republishStale sc ctx w)"
  "no_more w (recoverStaleProcessing sc ctx w)"
  by (auto simp: queueDue_def republishStale_def recoverStaleProcessing_def split: prod.splits sum.splits
      dest!: no_more_quiet [OF reads_quiet(5)] ClaimDueForQueue_no_more
      intro: no_more_trans [OF _ publish_due_no_more] no_more_trans [OF _ republish_all_no_more]
        no_more_trans [OF _ publish_recovered_no_more])

lemma RunOnce_no_more: "no_more w (RunOnce sc ctx w)"
  unfolding RunOnce_def by (blast intro: no_more_trans sweeps_no_more)

text \<open>
  The clock of the database moves on by more than the cutoff from one call to the next: then a
  poll finds whatever was left in processing before it.
\<close>

definition clock_jumps :: "world \<Rightarrow> duration \<Rightarrow> bool" where
  "clock_jumps w s \<longleftrightarrow> (\<forall>j k. j < k \<longrightarrow> db_clock w j + s < db_clock w k)"

lemma RunOnce_recovers:
  assumes u: "undisturbed w" and ok: "db_ok (db w)" and few: "length (notifications (db w)) \<le> 100"
    and row: "find_row i (db w) = Some r" "status r = StatusProcessing"
    and stale: "\<And>k. steps w \<le> k \<Longrightarrow> updated_at r < db_clock w k - sc_stale_after sc"
  shows "\<exists>t. find_row i (db (RunOnce sc ctx w)) = Some (recovered_row t r)"
proof -
  define w1 where "w1 = queueDue sc ctx w"
  define w2 where "w2 = republishStale sc ctx w1"
  have le1: "world_le w w1" using queueDue_le by (simp add: w1_def)
  then have le2: "world_le w w2" using republishStale_le by (auto simp: w2_def intro: world_le_trans)
  have r1: "find_row i (db w1) = Some r"
    using queueDue_not_due [OF ok, of i sc ctx] row by (auto simp: w1_def due_def)
  have r2: "find_row i (db w2) = Some r"
    using republishStale_other [OF world_le_db_ok [OF le1 ok], of i sc ctx] r1 row(2) by (auto simp: w2_def)
  have "length (notifications (db w2)) = length (notifications (db w))"
    using no_more_trans [OF sweeps_no_more(1) sweeps_no_more(2), THEN no_more_length]
    by (simp add: w2_def w1_def)
  then have few2: "length (filter P (notifications (db w2))) \<le> 100" for P
    using few length_filter_le [of P "notifications (db w2)"] by linarith
  note l = laterD [OF world_le_later [OF le2]]
  note u2 = undisturbedD [OF undisturbed_later [OF world_le_later [OF le2] u]]
  have "stale_in StatusProcessing (sc_stale_after sc) (db_clock w2 (steps w2)) r"
    using row(2) stale [OF l(14)] l(4) by (simp add: stale_in_def)
  from recoverStaleProcessing_stale [OF world_le_db_ok [OF le2 ok] r2 this few2 u2(1) u2(1) u2(2) u2(4), of ctx]
  show ?thesis by (auto simp: RunOnce_def w1_def [symmetric] w2_def [symmetric])
qed

section \<open>A claimable row before a provider that rejects\<close>

definition exposed :: "int \<Rightarrow> string \<Rightarrow> uuid \<Rightarrow> notification \<Rightarrow> worker \<Rightarrow> world \<Rightarrow> bool" where
  "exposed code body i r wk w \<longleftrightarrow>
     db_ok (db w) \<and> undisturbed w \<and> find_row i (db w) = Some r \<and>
     CanTransition (status r) StatusProcessing \<and>
     (\<exists>h. sw_fallback (wk_sender wk) = WebhookFallback h) \<and>
     (\<exists>rate \<ge> 1. wk_limiters wk (channel r) = Some rate) \<and>
     provider_answers w code body \<and> \<not> (200 \<le> code \<and> code < 300)"

lemma exposed_later:
  assumes "exposed code body i r wk w" "world_le w w'" "find_row i (db w') = Some r'"
    and "CanTransition (status r') StatusProcessing" "channel r' = channel r"
    and "\<exists>h. sw_fallback (wk_sender wk') = WebhookFallback h" "wk_limiters wk' = wk_limiters wk"
  shows "exposed code body i r' wk' w'"
  using assms world_le_db_ok [OF assms(2)] laterD [OF world_le_later [OF assms(2)]]
  by (simp add: exposed_def undisturbed_def provider_answers_def)

text \<open>A delivery claims the row, makes one request and comes to the recording of the failure.\<close>

lemma exposed_delivery:
  assumes p: "exposed code body i r wk w" and a: "attempts r < max_int4"
    and d: "processNotification wk ctx i w = (x, wk', w')"
  obtains w4 where "handleSendFailure wk' ctx (claimed (db_clock w (steps w)) r) (rejection code body) w4 = (x, w')"
    and "find_row i (db w4) = Some (claimed (db_clock w (steps w)) r)" "world_le w w4" "steps w < steps w4"
    and "length (requests w4) = Suc (length (requests w))"
    and "map nid (notifications (db w4)) = map nid (notifications (db w))"
    and "\<exists>h. sw_fallback (wk_sender wk') = WebhookFallback h" "wk_limiters wk' = wk_limiters wk"
    and "wk_max_attempts wk' = wk_max_attempts wk"
proof -
  from p obtain h rate where h: "sw_fallback (wk_sender wk) = WebhookFallback h"
    "wk_limiters wk (channel r) = Some rate" "1 \<le> rate" by (auto simp: exposed_def)
  from p have c: "undisturbed w" "db_ok (db w)" "find_row i (db w) = Some r"
    "CanTransition (status r) StatusProcessing" by (simp_all add: exposed_def)
  from claim_reaches_deliver [OF c a h(2,3), where ctx = ctx] obtain n w2 where w2:
    "n = claimed (db_clock w (steps w)) r" "processNotification wk ctx i w = deliver wk ctx i n w2"
    "find_row i (db w2) = Some n" "world_le w w2" "steps w < steps w2" "requests w2 = requests w"
    "map nid (notifications (db w2)) = map nid (notifications (db w))"
    by metis
  obtain t w3 where t: "Now w2 = (t, w3)" by fastforce
  have le: "world_le w w3" using w2(4) Now_le [OF t] by (rule world_le_trans)
  obtain y s' v where s: "Switchable_Send (wk_sender wk) n w3 = (y, s', v)" by (rule prod_cases3)
  have b: "provider_answers w3 code body" "\<not> (200 \<le> code \<and> code < 300)"
    using p laterD [OF world_le_later [OF le]] unfolding exposed_def provider_answers_def by metis+
  from Switchable_rejected [OF b h(1) s] have y: "y = Inl (rejection code body)"
    "length (requests v) = Suc (length (requests w3))" "sw_fallback s' = WebhookFallback h" by auto
  from s t y(1) have "Switchable_Send (wk_sender wk) n (snd (Now w2)) = (Inl (rejection code body), s', v)"
    by simp
  from deliver_failed [OF this d [unfolded w2(2)]] obtain w4 where w4:
    "handleSendFailure wk' ctx n (rejection code body) w4 = (x, w')" "db w4 = db w2"
    "requests w4 = requests v" "world_le w2 w4" "wk' = wk\<lparr>wk_sender := s'\<rparr>" .
  have "steps w < steps w4" using laterD(14) [OF world_le_later [OF w4(4)]] w2(5) by linarith
  then show thesis
    using that [of w4] w4 w2 y Now_frame [OF t] by (auto intro: world_le_trans)
qed

section \<open>Sent again and again\<close>

text \<open>
  A reply that cannot be stored, a clock that jumps and few rows: then a delivery leaves the row
  in processing, the next poll recovers it, and everything is as before but for one attempt.
\<close>

definition poisoned :: "int \<Rightarrow> string \<Rightarrow> scheduler \<Rightarrow> uuid \<Rightarrow> notification \<Rightarrow> worker \<Rightarrow> world \<Rightarrow> bool" where
  "poisoned code body sc i r wk w \<longleftrightarrow>
     exposed code body i r wk w \<and> clock_jumps w (sc_stale_after sc) \<and>
     length (notifications (db w)) \<le> 100 \<and> \<not> pg_text (readErrorBody body True)"

lemma poisoned_delivery:
  assumes p: "poisoned code body sc i r wk w" and a: "attempts r < max_int4"
    and d: "processNotification wk ctx i w = (x, wk', w')"
  shows "isl x \<and> find_row i (db w') = Some (claimed (db_clock w (steps w)) r) \<and>
    length (requests w') = Suc (length (requests w)) \<and>
    map nid (notifications (db w')) = map nid (notifications (db w)) \<and>
    steps w < steps w' \<and> (\<exists>h. sw_fallback (wk_sender wk') = WebhookFallback h) \<and>
    wk_limiters wk' = wk_limiters wk"
proof -
  from p have e: "exposed code body i r wk w" and np: "\<not> pg_text (readErrorBody body True)"
    by (simp_all add: poisoned_def)
  from exposed_delivery [OF e a d] obtain w4 where w4:
    "handleSendFailure wk' ctx (claimed (db_clock w (steps w)) r) (rejection code body) w4 = (x, w')"
    "find_row i (db w4) = Some (claimed (db_clock w (steps w)) r)" "steps w < steps w4"
    "length (requests w4) = Suc (length (requests w))"
    "map nid (notifications (db w4)) = map nid (notifications (db w))"
    "\<exists>h. sw_fallback (wk_sender wk') = WebhookFallback h" "wk_limiters wk' = wk_limiters wk"
    by metis
  have "\<not> pg_gotext (error_text (rejection code body))" using np by (simp only: rejection_storable not_False_eq_True)
  from handleSendFailure_unstorable [OF this w4(1)] handleSendFailure_requests [OF w4(1)]
    laterD(14) [OF world_le_later [OF handleSendFailure_le [OF w4(1)]]] w4
  show ?thesis by simp
qed

lemma poisoned_round:
  assumes p: "poisoned code body sc i r wk w" and a: "attempts r < max_int4"
    and m: "decode_message (p_body msg) = Some i"
    and d: "handleDelivery wk ctx msg w = (x, wk', w')"
    and w'': "w'' = RunOnce sc ctx2 w'"
  shows "\<exists>r'. poisoned code body sc i r' wk' w'' \<and> attempts r' = attempts r + 1 \<and>
    status r' = StatusRetrying \<and> length (requests w'') = Suc (length (requests w))"
proof -
  let ?t = "db_clock w (steps w)"
  obtain y where "processNotification wk (if p_correlation_id msg \<noteq> [] then p_correlation_id msg else ctx) i w =
      (y, wk', w')"
    using d m by (auto simp: handleDelivery_def Let_def split: prod.splits sum.splits)
  note h = poisoned_delivery [OF p a this]
  have le: "world_le w w'" using handleDelivery_le [OF d] .
  note l = laterD [OF world_le_later [OF le]]
  have ok: "db_ok (db w)" "undisturbed w" "clock_jumps w (sc_stale_after sc)"
    "length (notifications (db w)) \<le> 100" using p by (simp_all add: poisoned_def exposed_def)
  have len: "length (notifications (db w')) = length (notifications (db w))"
    using h by (metis length_map)
  have "updated_at (claimed ?t r) < db_clock w' k - sc_stale_after sc" if "steps w' \<le> k" for k
  proof -
    have "steps w < k" using that h by linarith
    then have "?t + sc_stale_after sc < db_clock w k"
      using ok(3) unfolding clock_jumps_def by blast
    then show ?thesis by (simp add: claimed_def l(4))
  qed
  from RunOnce_recovers [OF undisturbed_later [OF world_le_later [OF le] ok(2)] world_le_db_ok [OF le ok(1)] _ _ _ this]
  obtain t where row: "find_row i (db w'') = Some (recovered_row t (claimed ?t r))"
    using h ok(4) len by (auto simp: w'')
  have le2: "world_le w w''" unfolding w'' using le RunOnce_le by (rule world_le_trans)
  have "exposed code body i (recovered_row t (claimed ?t r)) wk' w''"
    by (rule exposed_later [OF _ le2 row])
      (use p h in \<open>auto simp: poisoned_def recovered_row_def CanTransition_iff\<close>)
  moreover have "length (notifications (db w'')) = length (notifications (db w))"
    using no_more_length [OF RunOnce_no_more] len by (simp add: w'')
  ultimately have "poisoned code body sc i (recovered_row t (claimed ?t r)) wk' w''"
    using p laterD(4) [OF world_le_later [OF le2]] by (simp add: poisoned_def clock_jumps_def)
  with h RunOnce_no_more [of w' sc ctx2] show ?thesis
    by (intro exI [of _ "recovered_row t (claimed ?t r)"])
      (auto simp: recovered_row_def no_more_def w'')
qed

lemma poisoned_rounds:
  assumes "poisoned code body sc i r wk w" "attempts r + int k \<le> max_int4"
    and "decode_message (p_body msg) = Some i"
    and "history sv sc (concat (replicate k [OpDelivery ctx msg, OpPoll ctx2])) (wk, w) = (wk', w')"
  shows "\<exists>r'. find_row i (db w') = Some r' \<and> attempts r' = attempts r + int k \<and>
    (if k = 0 then r' = r else status r' = StatusRetrying) \<and>
    length (requests w') = length (requests w) + k"
  using assms
proof (induction k arbitrary: r wk w)
  case 0
  then show ?case by (simp add: poisoned_def exposed_def history_def)
next
  case (Suc k)
  obtain x wk1 w1 where d: "handleDelivery wk ctx msg w = (x, wk1, w1)" by (rule prod_cases3)
  from poisoned_round [OF Suc.prems(1) _ Suc.prems(3) d refl, of ctx2] Suc.prems(2) obtain r1 where
    r1: "poisoned code body sc i r1 wk1 (RunOnce sc ctx2 w1)" "attempts r1 = attempts r + 1"
    "status r1 = StatusRetrying" "length (requests (RunOnce sc ctx2 w1)) = Suc (length (requests w))"
    by auto
  have "history sv sc (concat (replicate k [OpDelivery ctx msg, OpPoll ctx2])) (wk1, RunOnce sc ctx2 w1) = (wk', w')"
    using Suc.prems(4) d by (simp add: history_def)
  from Suc.IH [OF r1(1) _ Suc.prems(3) this] r1(2) Suc.prems(2) obtain r' where
    "find_row i (db w') = Some r'" "attempts r' = attempts r1 + int k"
    "if k = 0 then r' = r1 else status r' = StatusRetrying"
    "length (requests w') = length (requests (RunOnce sc ctx2 w1)) + k"
    by auto
  with r1 show ?case by (intro exI [of _ r']) (auto split: if_splits)
qed

section \<open>Retries escalate and end\<close>

lemma recordOutcome_succeeds:
  assumes "undisturbed w" "db_ok (db w)" "find_row i (db w) = Some n" "status n = StatusProcessing"
    and "pg_gotext e" "recordOutcome i to e w = (r, w')"
  shows "r = Inr () \<and> find_row i (db w') = Some (outcome_row to e (db_clock w (steps w)) n)"
proof -
  obtain x d where "sql_record_outcome i to e (db_clock w (steps w)) (db w) = (x, d)" by fastforce
  moreover from this obtain rows where "x = Inr rows"
    using assms(5) by (auto simp: sql_record_outcome_def split: prod.splits)
  ultimately have s: "sql_record_outcome i to e (db_clock w (steps w)) (db w) = (Inr rows, d)" by simp
  from sql_record_outcome_counted [OF assms(2) s] assms(3,4) have
    "rows \<noteq> 0" "find_row i d = Some (outcome_row to e (db_clock w (steps w)) n)"
    by (auto simp: counted_def outcome_row_def)
  with undisturbed_call [OF assms(1), of "sql_record_outcome i to e"] s assms(6) show ?thesis
    by (auto simp: recordOutcome_def)
qed

lemma publishConfirmed_succeeds:
  "undisturbed w \<Longrightarrow> publishConfirmed ctx x k p w = (r, w') \<Longrightarrow> r = Inr ()"
  by (auto simp: publishConfirmed_def undisturbed_def dest!: broker_publish_eq split: prod.splits)

text \<open>What a notification leaves at the broker: the retry of an attempt, and the last word.\<close>

definition waits_on_tier :: "uuid \<Rightarrow> int \<Rightarrow> world \<Rightarrow> bool" where
  "waits_on_tier i a w \<longleftrightarrow> (\<exists>p \<in> set (published w).
     pub_exchange p = tier_name (TierForAttempt a) \<and> p_body (pub_message p) = Message i)"

definition dead_lettered :: "uuid \<Rightarrow> world \<Rightarrow> bool" where
  "dead_lettered i w \<longleftrightarrow> (\<exists>p \<in> set (published w). \<exists>reason.
     pub_exchange p = DeadLetterExchange \<and> p_body (pub_message p) = DeadLetterMessage i reason)"

lemma broker_facts_stay:
  "world_le w w' \<Longrightarrow> waits_on_tier i a w \<Longrightarrow> waits_on_tier i a w'"
  "world_le w w' \<Longrightarrow> dead_lettered i w \<Longrightarrow> dead_lettered i w'"
  unfolding waits_on_tier_def dead_lettered_def using in_snoc_published by blast+

lemma handleSendFailure_succeeds:
  assumes u: "undisturbed w" and ok: "db_ok (db w)" and row: "find_row (nid n) (db w) = Some n"
    and st: "status n = StatusProcessing" and e: "pg_gotext (error_text e)"
    and h: "handleSendFailure wk ctx n e w = (r, w')"
  shows "r = Inr () \<and>
    (\<exists>t. find_row (nid n) (db w') = Some (outcome_row (failure_status wk n e) (error_text e) t n)) \<and>
    (if failure_status wk n e = StatusRetrying then waits_on_tier (nid n) (attempts n) w'
     else dead_lettered (nid n) w')"
proof -
  let ?s = "failure_status wk n e"
  obtain a w1 where m: "recordOutcome (nid n) ?s (error_text e) w = (a, w1)" by fastforce
  from recordOutcome_succeeds [OF u ok row st e m] have a: "a = Inr ()"
    "\<exists>t. find_row (nid n) (db w1) = Some (outcome_row ?s (error_text e) t n)" by auto
  have u1: "undisturbed w1"
  proof (rule undisturbed_later [OF world_le_later u])
    show "world_le w w1"
      using m MarkRetrying_le MarkFailed_le
      by (cases "?s = StatusRetrying") (auto simp: failure_status_def MarkRetrying_def MarkFailed_def split: if_splits)
  qed
  show ?thesis
  proof (cases "IsRetryable e \<and> attempts n < wk_max_attempts wk")
    case True
    then have s: "?s = StatusRetrying" by (simp add: failure_status_def)
    obtain b w2 where p: "PublishRetry ctx n (attempts n) w1 = (b, w2)" by fastforce
    then have b: "b = Inr ()"
      unfolding PublishRetry_def publishNotification_def by (rule publishConfirmed_succeeds [OF u1])
    have "waits_on_tier (nid n) (attempts n) w2"
      using PublishRetry_effect(5) [OF p b] by (simp add: waits_on_tier_def notification_message_def)
    then have "waits_on_tier (nid n) (attempts n) (emitEvent n StatusRetrying (error_text e) w2)"
      by (rule broker_facts_stay(1) [OF emitEvent_frame(3)])
    with h m a s True p b PublishRetry_effect(1) [OF p] show ?thesis
      by (auto simp: handleSendFailure_def MarkRetrying_def)
  next
    case False
    then have s: "?s = StatusFailed" by (simp add: failure_status_def)
    let ?v = "emitEvent n StatusFailed (error_text e) (recordDelivered wk (channel n) StatusFailed w1)"
    obtain b w2 where p: "PublishDeadLetter ctx n (failure_reason n (wk_max_attempts wk) e) ?v = (b, w2)"
      by fastforce
    have "world_le w1 ?v" by (intro le_before) simp
    from undisturbed_later [OF world_le_later [OF this] u1] have "b = Inr ()"
      using p unfolding PublishDeadLetter_def by (rule publishConfirmed_succeeds)
    then have "dead_lettered (nid n) w2"
      using publishConfirmed_effect(5) [OF p [unfolded PublishDeadLetter_def]] by (auto simp: dead_lettered_def)
    with h m a s False p PublishDeadLetter_effect(1) [OF p] show ?thesis
      by (auto simp: handleSendFailure_def MarkFailed_def Let_def)
  qed
qed

lemma failing_delivery:
  assumes p: "exposed code body i r wk w" and c: "code = 429 \<or> 500 \<le> code" "pg_text (readErrorBody body True)"
    and a: "attempts r < wk_max_attempts wk" "wk_max_attempts wk \<le> max_int4"
    and d: "processNotification wk ctx i w = (x, wk', w')"
  shows "x = Inr () \<and> length (requests w') = Suc (length (requests w)) \<and>
    (\<exists>r'. find_row i (db w') = Some r' \<and> attempts r' = attempts r + 1 \<and>
       last_error r' = Some (error_text (rejection code body)) \<and> world_le w w' \<and>
       (if attempts r + 1 < wk_max_attempts wk
        then status r' = StatusRetrying \<and> waits_on_tier i (attempts r + 1) w' \<and> exposed code body i r' wk' w'
        else status r' = StatusFailed \<and> dead_lettered i w') \<and>
       wk_max_attempts wk' = wk_max_attempts wk)"
proof -
  have a': "attempts r < max_int4" using a by linarith
  let ?n = "claimed (db_clock w (steps w)) r" and ?e = "rejection code body"
  from exposed_delivery [OF p a' d] obtain w4 where w4:
    "handleSendFailure wk' ctx ?n ?e w4 = (x, w')" "find_row i (db w4) = Some ?n" "world_le w w4"
    "length (requests w4) = Suc (length (requests w))"
    "\<exists>h. sw_fallback (wk_sender wk') = WebhookFallback h" "wk_limiters wk' = wk_limiters wk"
    "wk_max_attempts wk' = wk_max_attempts wk"
    by metis
  have ok: "db_ok (db w4)" "undisturbed w4" "nid ?n = i"
    using p world_le_db_ok [OF w4(3)] undisturbed_later [OF world_le_later [OF w4(3)]] db_ok_rowD
    by (auto simp: exposed_def)
  have e: "pg_gotext (error_text ?e)" "IsRetryable ?e"
    using c by (simp_all add: rejection_storable) (simp add: rejection_def IsRetryable_def)
  have fs: "failure_status wk' ?n ?e =
      (if attempts r + 1 < wk_max_attempts wk then StatusRetrying else StatusFailed)"
    using e(2) w4(7) by (simp add: failure_status_def)
  from handleSendFailure_succeeds [OF ok(2,1) _ _ e(1) w4(1)] w4(2) ok(3) fs obtain t where
    o: "x = Inr ()" "find_row i (db w') = Some (outcome_row (failure_status wk' ?n ?e) (error_text ?e) t ?n)"
    "if attempts r + 1 < wk_max_attempts wk then waits_on_tier i (attempts r + 1) w' else dead_lettered i w'"
    by (auto split: if_splits)
  have le: "world_le w w'" using w4(3) handleSendFailure_le [OF w4(1)] by (rule world_le_trans)
  have "exposed code body i (outcome_row StatusRetrying (error_text ?e) t ?n) wk' w'"
    if "attempts r + 1 < wk_max_attempts wk"
    by (rule exposed_later [OF p le]) (use o(2) fs that w4(5,6) in \<open>auto simp: outcome_row_def CanTransition_iff\<close>)
  with o fs le w4 handleSendFailure_requests [OF w4(1)] show ?thesis by auto
qed

lemma handleDelivery_process:
  assumes "decode_message (p_body msg) = Some i" "handleDelivery wk ctx msg w = (s, wk', w')"
  obtains ctx' x where "processNotification wk ctx' i w = (x, wk', w')" "s = Acked \<longleftrightarrow> x = Inr ()"
  using assms by (fastforce simp: handleDelivery_def Let_def split: prod.splits sum.splits if_splits)

lemma idle_deliveries:
  assumes "db_ok (db w)" "\<not> claimable i (db w)" "\<forall>m \<in> set msgs. decode_message (p_body m) = Some i"
    and "history sv sc (map (OpDelivery ctx) msgs) (wk, w) = (wk', w')"
  shows "db w' = db w \<and> requests w' = requests w"
  using assms
proof (induction msgs arbitrary: wk w)
  case (Cons m msgs)
  obtain s wk1 w1 where h: "handleDelivery wk ctx m w = (s, wk1, w1)" by (rule prod_cases3)
  with Cons.prems(3) obtain ctx' x where "processNotification wk ctx' i w = (x, wk1, w1)"
    by (auto elim: handleDelivery_process)
  from processNotification_unclaimable [OF Cons.prems(1,2) this] have
    "db w1 = db w" "requests w1 = requests w" by auto
  with Cons.IH [of w1 wk1] Cons.prems h show ?case by (simp add: history_def)
qed (simp add: history_def)

lemma retries_end:
  assumes "exposed code body i r wk w" "code = 429 \<or> 500 \<le> code" "pg_text (readErrorBody body True)"
    and "attempts r < wk_max_attempts wk" "wk_max_attempts wk \<le> max_int4"
    and "\<forall>m \<in> set msgs. decode_message (p_body m) = Some i"
    and "wk_max_attempts wk \<le> attempts r + int (length msgs)"
    and "history sv sc (map (OpDelivery ctx) msgs) (wk, w) = (wk', w')"
  shows "int (length (requests w')) = int (length (requests w)) + (wk_max_attempts wk - attempts r) \<and>
    (\<exists>r'. find_row i (db w') = Some r' \<and> status r' = StatusFailed \<and> attempts r' = wk_max_attempts wk \<and>
       last_error r' = Some (error_text (rejection code body))) \<and>
    (\<forall>a. attempts r < a \<and> a < wk_max_attempts wk \<longrightarrow> waits_on_tier i a w') \<and> dead_lettered i w'"
  using assms
proof (induction msgs arbitrary: r wk w)
  case (Cons m msgs)
  obtain s wk1 w1 where h: "handleDelivery wk ctx m w = (s, wk1, w1)" by (rule prod_cases3)
  with Cons.prems(6) obtain ctx' x where "processNotification wk ctx' i w = (x, wk1, w1)"
    by (auto elim: handleDelivery_process)
  from failing_delivery [OF Cons.prems(1-5) this] obtain r1 where r1:
    "length (requests w1) = Suc (length (requests w))" "find_row i (db w1) = Some r1"
    "attempts r1 = attempts r + 1" "last_error r1 = Some (error_text (rejection code body))" "world_le w w1"
    "if attempts r + 1 < wk_max_attempts wk
     then status r1 = StatusRetrying \<and> waits_on_tier i (attempts r + 1) w1 \<and> exposed code body i r1 wk1 w1
     else status r1 = StatusFailed \<and> dead_lettered i w1"
    "wk_max_attempts wk1 = wk_max_attempts wk"
    by auto
  have rest: "history sv sc (map (OpDelivery ctx) msgs) (wk1, w1) = (wk', w')"
    using Cons.prems(8) h by (simp add: history_def)
  then have le: "world_le w1 w'" using history_le [of "(wk1, w1)" sv sc "map (OpDelivery ctx) msgs"] by simp
  show ?case
  proof (cases "attempts r + 1 < wk_max_attempts wk")
    case True
    from Cons.IH [OF _ Cons.prems(2,3) _ _ _ _ rest, of r1] r1 True Cons.prems(5-7) have
      ih: "int (length (requests w')) = int (length (requests w1)) + (wk_max_attempts wk - attempts r1)"
      "\<exists>r'. find_row i (db w') = Some r' \<and> status r' = StatusFailed \<and> attempts r' = wk_max_attempts wk \<and>
         last_error r' = Some (error_text (rejection code body))"
      "\<forall>a. attempts r1 < a \<and> a < wk_max_attempts wk \<longrightarrow> waits_on_tier i a w'" "dead_lettered i w'"
      by auto
    have "waits_on_tier i a w'" if "attempts r < a" "a < wk_max_attempts wk" for a
    proof (cases "a = attempts r + 1")
      case True
      with r1(6) broker_facts_stay(1) [OF le] \<open>attempts r + 1 < wk_max_attempts wk\<close> show ?thesis by auto
    next
      case False
      with ih(3) r1(3) that show ?thesis by auto
    qed
    with ih r1(1,3) show ?thesis by auto
  next
    case False
    have ok: "db_ok (db w1)" using world_le_db_ok [OF r1(5)] Cons.prems(1) by (simp add: exposed_def)
    have "\<not> claimable i (db w1)" using r1(2,6) False by (auto simp: claimable_def CanTransition_iff)
    from idle_deliveries [OF ok this _ rest] Cons.prems(6) have
      "db w' = db w1" "requests w' = requests w1" by auto
    with r1 False Cons.prems(4) broker_facts_stay(2) [OF le] show ?thesis by auto
  qed
qed simp

section \<open>Created, therefore delivered\<close>

lemma created_is_delivered:
  assumes ok: "db_ok (db w)" and u: "undisturbed w" and pa: "provider_accepts w"
    and c: "Service_Create sv ctx inp w = (Inr res, w1)" and new: "\<not> cr_replayed res" "ci_scheduled_at inp = None"
    and le: "world_le w1 v" and q: "find_row (nid (cr_notification res)) (db v) = Some q"
      "CanTransition (status q) StatusProcessing" "attempts q < max_int4"
    and lim: "wk_limiters wk (ci_channel inp) = Some rate" "1 \<le> rate"
  shows "(\<exists>row. find_row (nid (cr_notification res)) (db w1) = Some row \<and> status row = StatusQueued) \<and>
    (\<exists>pub \<in> set (published w1).
      route declared (pub_exchange pub) (pub_key pub) = [WorkQueueName (ci_channel inp)] \<and>
      (\<exists>wk' w2 row. handleDelivery wk ctx0 (pub_message pub) v = (Acked, wk', w2) \<and>
         find_row (nid (cr_notification res)) (db w2) = Some row \<and> status row = StatusSent \<and>
         attempts row = attempts q + 1 \<and> recipient row = ci_recipient inp))"
proof -
  let ?i = "nid (cr_notification res)"
  let ?pub = "created_publication ctx ((cr_notification res)\<lparr>status := StatusPending\<rparr>)"
  from Service_Create_queues [OF u ok c new] obtain row where row:
    "find_row ?i (db w1) = Some row" "status row = StatusQueued" "channel row = ci_channel inp"
    "recipient row = ci_recipient inp" "?pub \<in> set (published w1)"
    "channel (cr_notification res) = ci_channel inp"
    by blast
  note cl = Service_Create_le [OF c]
  have ok1: "db_ok (db w1)" using world_le_db_ok [OF cl ok] .
  have lv: "later w v" using later_trans [OF world_le_later [OF cl] world_le_later [OF le]] .
  have "same_identity row q"
    using world_le_evolves [OF le ok1] row(1) q(1) row_evolves_identity unfolding db_evolves_def
    by (metis option.inject)
  then have ch: "channel q = ci_channel inp" "recipient q = ci_recipient inp"
    using row(3,4) by (simp_all add: same_identity_def)
  have "ci_channel inp \<in> set Channels"
    using db_ok_rowD [OF ok1 row(1)] row(3) by (auto simp: row_ok_def Channel_Valid_def)
  from mq.direct [OF this] have "route declared (pub_exchange ?pub) (pub_key ?pub) = [WorkQueueName (ci_channel inp)]"
    using row(6) by (simp add: created_publication_def)
  moreover obtain s wk' w2 where h: "handleDelivery wk ctx0 (pub_message ?pub) v = (s, wk', w2)"
    by (rule prod_cases3)
  have "decode_message (p_body (pub_message ?pub)) = Some ?i"
    by (simp add: created_publication_def notification_message_def)
  from handleDelivery_process [OF this h] obtain ctx' x where p:
    "processNotification wk ctx' ?i v = (x, wk', w2)" "s = Acked \<longleftrightarrow> x = Inr ()" .
  from claimable_is_delivered [OF undisturbed_later [OF lv u] provider_accepts_later [OF lv pa]
      world_le_db_ok [OF le ok1] q _ lim(2) p(1)] lim(1) ch p(2)
  obtain r' where "s = Acked" "find_row ?i (db w2) = Some r'" "status r' = StatusSent"
    "same_identity q r'" "attempts r' = attempts q + 1"
    by auto
  moreover from this ch have "recipient r' = ci_recipient inp" by (simp add: same_identity_def)
  ultimately show ?thesis using row h by blast
qed

section \<open>Concrete runs\<close>

definition message1 :: publishing where
  "message1 = \<lparr>p_persistent = True, p_priority = 5, p_correlation_id = [], p_body = Message 1\<rparr>"

definition input1 :: create_input where
  "input1 = \<lparr>ci_recipient = ''+905551234567'', ci_channel = ''sms'', ci_content = ''hi'',
     ci_template = None, ci_priority = [], ci_scheduled_at = None,
     ci_idempotency_key = Some ''k''\<rparr>"

definition api_service :: service where
  "api_service = \<lparr>sv_has_templates = True, sv_instrumented = True\<rparr>"

definition create1 :: "create_result result \<times> world" where
  "create1 = Service_Create api_service [] input1 (calm no_rows)"

lemma calm_undisturbed: "undisturbed (calm d)"
  by (simp add: undisturbed_def)

lemma calm_accepts: "provider_accepts (calm d)"
proof -
  have "pg_text ''id''" by code_simp
  then show ?thesis by (auto simp: provider_accepts_def)
qed

definition webhook_worker :: worker where
  "webhook_worker = New_worker (newSender ''p'' (10 * second)) True 4 100 10"

lemma webhook_worker_simps [simp]:
  "wk_sender webhook_worker = newSender ''p'' (10 * second)" "wk_max_attempts webhook_worker = 4"
  "wk_limiters webhook_worker ''sms'' = Some 100"
  by (simp_all add: webhook_worker_def New_worker_def Channels_def)

text \<open>A provider that answers always the same, and a database an hour later at every call.\<close>

definition rejecting :: "int \<Rightarrow> string \<Rightarrow> database \<Rightarrow> world" where
  "rejecting code body d =
     (calm d)\<lparr>db_clock := (\<lambda>k. int k * (3600 * second)), provider_reply := (\<lambda>k rq. Reply code body True)\<rparr>"

lemma rejecting_simps [simp]:
  "db (rejecting code body d) = d" "requests (rejecting code body d) = []"
  "undisturbed (rejecting code body d)" "provider_answers (rejecting code body d) code body"
  "clock_jumps (rejecting code body d) (sc_stale_after minute_scheduler)"
proof -
  have "int j * (3600 * second) + 60 * second < int k * (3600 * second)" if "j < k" for j k
  proof -
    have "(int j + 1) * (3600 * second) \<le> int k * (3600 * second)"
      by (rule mult_right_mono) (use that in simp_all)
    then show ?thesis by (simp add: distrib_right)
  qed
  then show "clock_jumps (rejecting code body d) (sc_stale_after minute_scheduler)"
    by (simp add: clock_jumps_def rejecting_def minute_scheduler_def)
qed (simp_all add: rejecting_def undisturbed_def provider_answers_def)

text \<open>An error page of 513 bytes whose last character, a two-byte one, is cut by the limit of 512.\<close>

definition cut_page :: string where
  "cut_page = replicate 511 (CHR ''x'') @ [CHR 0xC5, CHR 0x9F]"

lemma cut_page_valid: "utf8_valid cut_page"
proof -
  have "utf8_valid [CHR 0xC5, CHR 0x9F]" by code_simp
  then show ?thesis by (simp add: cut_page_def utf8_valid_prefix)
qed

lemma cut_page_unstorable: "\<not> pg_text (readErrorBody cut_page True)"
proof -
  have "\<not> utf8_valid [CHR 0xC5]" by code_simp
  moreover have "readErrorBody cut_page True = replicate 511 (CHR ''x'') @ [CHR 0xC5]"
    by (simp add: readErrorBody_def cut_page_def maxErrorBytes_def)
  ultimately show ?thesis by (simp add: pg_text_def utf8_valid_prefix)
qed

definition nul_post :: http_request where
  "nul_post = empty_post\<lparr>hr_body := [CHR 0x00]\<rparr>"

definition nul_creation :: create_request where
  "nul_creation = \<lparr>cq_recipient = ''+905551234567'', cq_channel = ''sms'', cq_content = [CHR 0x00],
     cq_template = None, cq_priority = [], cq_scheduled_at = None, cq_idempotency_key = None\<rparr>"

lemma nul_post_decodes:
  "Decode_limited (scan_create calm_edge) maxRequestBodyBytes (hr_body nul_post) = Inr nul_creation"
  by (simp add: Decode_limited_def Decode_def nul_post_def nul_creation_def calm_edge_def maxRequestBodyBytes_def)

lemma nul_post_valid: "valid_creation nul_creation"
proof -
  have "matches e164Pattern ''+905551234567''" by code_simp
  then have "valid_phone ''+905551234567''" by (simp only: e164Pattern_iff)
  moreover have "rune_count [CHR 0x00] \<le> 160" by code_simp
  ultimately show ?thesis
    by (simp add: valid_creation_def nul_creation_def recipient_ok_def content_ok_def Channels_def)
qed

lemma nul_post_unstorable: "\<not> storable_create w nul_creation"
  by (simp add: storable_create_def nul_creation_def pg_text_def)

end
