(* ===== verification/Spec2Isabelle.thy ===== *)
theory Spec2Isabelle
  imports Runs
begin

text \<open>
  The verification library of the notifier service, a Go program that accepts notifications over
  HTTP, keeps them in PostgreSQL, hands them to workers through RabbitMQ and delivers them to a
  webhook. The definitions are translated from the sources under src/ and keep their names.

  THE PROGRAM. One binary (cmd/notifier/main.go) runs as api, worker or both. The api process
  serves HTTP (internal/api), creates and cancels notifications (internal/service), publishes
  them (internal/queue/rabbit) and runs the scheduler (internal/scheduler), which queues what is
  due and rescues what was lost. The worker process (internal/worker) consumes one work queue per
  channel, claims the row of a message (internal/storage/postgres), sends it through a sender
  (internal/delivery) and records the outcome. Status events fan out to WebSocket clients
  (internal/api/hub.go). The processes share the database and the broker, nothing else.

  THE WORLD. Theory World holds what the processes share: the database of theory Database, the
  publications that the broker has taken, the requests that a provider has got, the metrics. All
  that lies outside the repository is an environment that answers by the number of the
  interaction: each database call succeeds, is refused, or is carried out with its reply lost;
  each publication is confirmed, refused, nacked, lost, or taken with the confirm lost; clocks,
  identifiers, the rate limiter, the provider and text/template answer as they like. A theorem
  about all worlds is a theorem about all patterns of failure. The relation world_le says what an
  operation may do to the world: keep the tables consistent, move rows along the declared status
  transitions, and take back nothing published or requested.

  THEORIES AND SOURCES.
    Prelude, Reachability: shared types, lists, the locale of invariants of a step relation.
    Logging: internal/observability (logger.go, ctxlog.go).
    GoRegexp, Utf8, Strconv, Base64: what the sources use of regexp, unicode/utf8, strconv, time
      and encoding/base64, written out and executable.
    Errors, Domain: internal/domain (errors.go, notification.go, validate.go, template.go,
      list.go); Validation says what the validation accepts.
    Database, Statements, Lifecycle: the tables of the migrations and every SQL statement of
      internal/storage/postgres as a function on them, with what a column takes (pg_text,
      in_columns) and what it rounds to (timestamptz); the lifecycle of a row; the statements
      other components issue.
    Repository, RepositoryFacts: the repository methods over fallible calls, the reading of rows
      included.
    Rabbit, Publisher: internal/queue/rabbit (topology.go, message.go, publisher.go).
    Metrics: internal/observability/metrics.go.
    Delivery: internal/delivery and newSender of main.go.
    Worker, WorkerFacts: internal/worker/worker.go and the handling of one delivery.
    Consumer, ConsumerFacts: internal/worker/consume.go, the supervisors, sessions and handler
      pools as a machine over the queues.
    System, SystemFacts: many handlers in the pieces between their database calls, interleaved
      with each other and with every statement of the other components.
    Service, Batch with their Facts: internal/service and internal/template.
    Scheduler, SchedulerFacts: internal/scheduler.
    Config: internal/config and the constructors that main.go feeds with it.
    Http, ApiNotifications, ApiControl, Summary, Router: internal/api and internal/mockprovider,
      internal/queue/rabbit/inspect.go; requests, handlers, the static pages, routes, middleware. ApiFacts,
      ApiHealth, SummaryFacts and Crawl hold what is proved of them.
    Hub: internal/api/hub.go as a machine.
    Boot: cmd/notifier/main.go from the configuration to the components of the role, and
      internal/queue/rabbit/events.go.
    Operations: any history of service calls, HTTP requests, polls and deliveries.
    Runs: a notification from its creation to its end, through all components: delivered by a
      provider that accepts, retried and failed by one that rejects, sent without end when the
      rejection cannot be stored.
    Scenarios, ApiScenarios: concrete worlds, requests and states for the witnesses.

  INTERFACES. Where one component relies on another there is a locale, interpreted on the model:
  delivery_store (RepositoryFacts) is the store that a handler claims from and records in,
  transition_store (Statements) what every statement keeps of it, sender (Delivery) what the
  switch relies on, regexp_engine (GoRegexp) what validation relies on, message_routing (Rabbit)
  what publishing and consuming rely on, row_merge (SummaryFacts) what the two merging loops of
  the summary share, machine (Reachability) a step relation with its invariants, for the
  consumers and the live stream.

  WHAT IS SHOWN, in the order of the properties below. Delivery under concurrency: at most one
  acceptance without a recovery, and the double delivery that a slow worker makes possible. One
  message, its outcome and the senders; the whole run of a notification against a provider that
  accepts, that rejects, and whose rejection no column can hold. Routing. The services, validation, batches
  and templates. The scheduler. Every component and every history keeps to the state machine.
  The HTTP interface, its errors, its pagination and the summary of the metrics. Configuration and start. Consuming, pausing
  and draining. The live stream.

  BOUNDS AND FUEL. The recursion of every definition is structural or has a measure, with these
  exceptions: run_handler takes fuel, and 5 is enough for any handler (theorem
  pieces_are_processNotification); the scheduler and the depth poller run for a given number of
  ticks; crawl takes fuel, and one more than the number of notifications is enough (theorem
  crawl_reads_everything_once). strip_prefixes takes the length of its text as fuel, which is
  enough because each turn removes at least a byte. Attempts are bounded by the INTEGER column
  (max_int4), sample counts are 64-bit words, identifiers 128-bit words, times and durations
  integers of nanoseconds; ParseDuration and Atoi check the range of int64.

  NOT MODELLED, AND WHY. The transports and their libraries (pgx, amqp091, net/http, chi,
  coder/websocket, golang-migrate, the Prometheus registry, encoding/json, text/template) are
  code outside the repository: what the sources rely on is a parameter, with a named hypothesis
  where a theorem needs a law (cursor_codec, sorts_documented, readable). Log lines are output
  only; of logging the level and the correlation identifier of a context are kept. The tables round times to
  microseconds and refuse NUL and invalid UTF-8 in a text column, as PostgreSQL does; its limit on
  the size of an index row is left out. Times are encoded in UTC, so that the answer to a creation
  whose scheduled time has an offset shows the same instant in another form. A handler of the
  consumer machine runs in one step; System is where its pieces interleave. A timed-out request
  context shows as refused calls. The float64 of the summary are finite and not negative, as
  counts and durations are, and an addition after a multiplication is not fused, which some
  processors do. The embedded OpenAPI document and dashboard page are bytes of the environment.
\<close>

section \<open>Delivery under concurrency\<close>







section \<open>Handling one message\<close>

text \<open>
  C5: A message for a claimable notification is acknowledged only when the outcome is in the
  table: the row is sent, retrying or failed with one attempt more and its identity unchanged,
  and for a retry the message is on the tier of that attempt.
\<close>

theorem acknowledged_means_recorded:
  assumes "db_ok (db w)" and "decode_message (p_body p) = Some i"
    and "find_row i (db w) = Some r" and "CanTransition (status r) StatusProcessing"
    and "handleDelivery wk ctx0 p w = (Acked, wk', w')"
  shows "\<exists>r'. find_row i (db w') = Some r' \<and> same_identity r r' \<and> attempts r' = attempts r + 1 \<and>
    status r' \<in> {StatusSent, StatusRetrying, StatusFailed} \<and>
    (status r' = StatusRetrying \<longrightarrow>
      (\<exists>n ctx. nid n = i \<and> attempts n = attempts r' \<and> channel n = channel r \<and>
         retry_publication ctx n \<in> set (published w')))"
proof -
  define ctx where "ctx = (if p_correlation_id p \<noteq> [] then p_correlation_id p else ctx0)"
  have "processNotification wk ctx i w = (Inr (), wk', w')"
    using assms(2,5) by (auto simp: handleDelivery_def ctx_def split: prod.splits sum.splits if_splits)
  from processNotification_acked [OF assms(1,3,4) this] show ?thesis
    by (fastforce simp: settled_as_def)
qed

theorem acknowledged_means_recorded_witness:
  "\<exists>r'. find_row 1 (db (snd (snd (handleDelivery log_worker [] message1 (calm (one_row StatusQueued 0)))))) =
     Some r' \<and> attempts r' = 1"
proof -
  let ?h = "handleDelivery log_worker [] message1 (calm (one_row StatusQueued 0))"
  have "fst ?h = Acked" by code_simp
  then have h: "?h = (Acked, fst (snd ?h), snd (snd ?h))" by (simp add: prod_eq_iff)
  from acknowledged_means_recorded [OF _ _ _ _ h, of 1 "sms_row StatusQueued 0"] show ?thesis
    by (auto simp: message1_def CanTransition_iff)
qed

text \<open>
  C6: A message for a notification that cannot be claimed (cancelled, finished, scheduled, being
  processed, or unknown) changes no row, publishes nothing and reaches no provider.
\<close>

theorem unclaimable_message_has_no_effect:
  assumes "db_ok (db w)" and "\<not> claimable i (db w)"
    and "processNotification wk ctx i w = (r, wk', w')"
  shows "db w' = db w \<and> requests w' = requests w \<and> published w' = published w"
  using processNotification_unclaimable [OF assms] by simp

theorem unclaimable_message_has_no_effect_witness:
  "requests (snd (snd (processNotification log_worker [] 1 (calm (one_row StatusSent 1))))) = []"
proof -
  obtain r wk' w' where p: "processNotification log_worker [] 1 (calm (one_row StatusSent 1)) = (r, wk', w')"
    by (rule prod_cases3)
  from unclaimable_message_has_no_effect [OF _ _ p] p show ?thesis
    by (simp add: claimable_def CanTransition_iff)
qed

text \<open>
  C7: Cancelling is final. After a successful cancellation the row is cancelled, and whatever
  happens later, a message for it reaches no provider and leaves the row as it is.
\<close>

theorem cancelled_is_never_sent:
  assumes "db_ok (db w)" and "Service_Cancel i w = (Inr n, w1)" and "world_le w1 w2"
    and "processNotification wk ctx i w2 = (r, wk', w3)"
  shows "status n = StatusCancelled \<and> find_row i (db w3) = Some n \<and> requests w3 = requests w2"
proof -
  from Service_Cancel_Inr [OF assms(1,2)] have n: "status n = StatusCancelled"
    "find_row i (db w1) = Some n" by auto
  have ok1: "db_ok (db w1)" using world_le_db_ok [OF Service_Cancel_le [OF assms(2)] assms(1)] .
  have n2: "find_row i (db w2) = Some n"
    using world_le_terminal [OF assms(3) ok1 n(2)] n(1) by (simp add: terminal_iff)
  have "\<not> claimable i (db w2)" using n(1) n2 by (simp add: claimable_def CanTransition_iff)
  from processNotification_unclaimable [OF world_le_db_ok [OF assms(3) ok1] this assms(4)] n(1) n2
  show ?thesis by simp
qed

theorem cancelled_is_never_sent_witness:
  "\<exists>n w1. Service_Cancel 1 (calm (one_row StatusQueued 0)) = (Inr n, w1) \<and> status n = StatusCancelled"
proof -
  let ?c = "Service_Cancel 1 (calm (one_row StatusQueued 0))"
  have "\<not> isl (fst ?c)" by code_simp
  then obtain n w1 where c: "?c = (Inr n, w1)" using Inr_result by blast
  obtain r wk' w3 where p: "processNotification log_worker [] 1 w1 = (r, wk', w3)"
    by (rule prod_cases3)
  from cancelled_is_never_sent [OF _ c world_le_refl p] c show ?thesis by simp
qed

text \<open>
  C8: A delivery that ends well records what the provider answered: on success the row is sent
  with the provider's message identifier; on failure the row carries the error's text and is
  retrying exactly when the error is retryable and attempts are left, failed otherwise.
\<close>

theorem outcome_matches_answer:
  assumes "db_ok (db w)" and "find_row i (db w) = Some n" and "status n = StatusProcessing"
    and "deliver wk ctx i n w = (Inr (), wk', w')"
  shows "\<exists>answer s' w2. Switchable_Send (wk_sender wk) n (snd (Now w)) = (answer, s', w2) \<and>
    (case answer of
       Inr sr \<Rightarrow> \<exists>u t. find_row i (db w') = Some (n\<lparr>status := StatusSent,
         provider_message_id := Some (sr_message_id sr), sent_at := Some u, updated_at := t\<rparr>)
     | Inl e \<Rightarrow> \<exists>t. find_row i (db w') = Some (n\<lparr>
         status := (if IsRetryable e \<and> attempts n < wk_max_attempts wk then StatusRetrying
                    else StatusFailed),
         last_error := Some (error_text e), updated_at := t\<rparr>))"
proof -
  from deliver_acked [OF assms] obtain x s' w1 w2 where x: "Now w = (fst (Now w), w1)"
    "Switchable_Send (wk_sender wk) n w1 = (x, s', w2)" "delivered_as wk ctx i n x w'"
    by blast
  from x(1) have "w1 = snd (Now w)" by (metis snd_conv)
  with x(2,3) show ?thesis
    by (intro exI [of _ x] exI [of _ s'] exI [of _ w2] conjI; cases x)
      (auto simp: delivered_as_def sent_row_def outcome_row_def failure_status_def)
qed

theorem outcome_matches_answer_witness:
  "\<exists>row. find_row 1 (db (snd (snd (deliver log_worker [] 1 (sms_row StatusProcessing 1)
     (calm (one_row StatusProcessing 1)))))) = Some row"
proof -
  let ?d = "deliver log_worker [] 1 (sms_row StatusProcessing 1) (calm (one_row StatusProcessing 1))"
  have "\<not> isl (fst ?d)" by code_simp
  then have d: "?d = (Inr (), fst (snd ?d), snd (snd ?d))" using Inr_result [of ?d] by simp
  have "db_ok (db (calm (one_row StatusProcessing 1)))"
    and "find_row 1 (db (calm (one_row StatusProcessing 1))) = Some (sms_row StatusProcessing 1)"
    and "status (sms_row StatusProcessing 1) = StatusProcessing"
    by simp_all
  from outcome_matches_answer [OF this d] show ?thesis
    by (elim exE conjE) (rename_tac answer s' w2, case_tac answer, auto)
qed

section \<open>Senders\<close>

text \<open>
  C9: The classification of provider replies: a 2xx is a success that carries at most 300 bytes
  of the body; any other reply is an error whose text has between 1 and 512 bytes, retryable
  exactly for 429 and for 500 and above.
\<close>

theorem replies_are_classified:
  assumes "url_ok w (ws_url s)"
    and "provider_reply w (steps w) (request_for s n) = Reply code body complete"
  shows "(200 \<le> code \<and> code < 300 \<longrightarrow>
      (\<exists>sr. fst (Webhook_Send s n w) = Inr sr \<and> sr_status_code sr = code \<and>
         sr_body sr = take 300 body)) \<and>
    (\<not> (200 \<le> code \<and> code < 300) \<longrightarrow>
      (\<exists>e text. fst (Webhook_Send s n w) = Inl e \<and> as_send e = Some (code, IsRetryable e, [Plain text]) \<and>
         text \<noteq> [] \<and> length text \<le> 512 \<and> (IsRetryable e \<longleftrightarrow> code = 429 \<or> 500 \<le> code)))"
  using Webhook_Send_code [OF assms] readErrorBody_bounds [of body complete]
  by (simp add: readBodySnapshot_def maxResponseSnapshotBytes_def IsRetryable_def)

theorem replies_are_classified_witness:
  "\<exists>sr. fst (Webhook_Send (NewWebhookSender ''u'' 1) (sms_row StatusProcessing 1)
     (calm no_rows)) = Inr sr \<and> sr_status_code sr = 200"
  using replies_are_classified [of "calm no_rows" "NewWebhookSender ''u'' 1"
      "sms_row StatusProcessing 1" 200 "[]" True]
  by auto

text \<open>
  C10: A provider whose rejection cannot be stored (its first 512 bytes are not valid UTF-8, as when
  the cut falls inside a character, or they hold a NUL) is asked again and again. Each delivery
  fails after its request, each poll recovers the row, and neither the limit on attempts nor the
  classification of the reply ever ends it: any number of rounds makes that many requests.
\<close>

theorem unstorable_rejection_is_sent_forever:
  assumes "db_ok (db w)" and "undisturbed w" and "clock_jumps w (sc_stale_after sc)"
    and "length (notifications (db w)) \<le> 100"
    and "find_row i (db w) = Some r" and "CanTransition (status r) StatusProcessing"
    and "wk_sender wk = newSender u t" and "u \<noteq> []"
    and "wk_limiters wk (channel r) = Some rate" and "1 \<le> rate"
    and "provider_answers w code body" and "\<not> (200 \<le> code \<and> code < 300)"
    and "\<not> pg_text (readErrorBody body True)"
    and "decode_message (p_body msg) = Some i" and "attempts r + int k \<le> max_int4"
    and "history sv sc (concat (replicate k [OpDelivery ctx msg, OpPoll ctx2])) (wk, w) = (wk', w')"
  shows "length (requests w') = length (requests w) + k \<and>
    (\<exists>r'. find_row i (db w') = Some r' \<and> attempts r' = attempts r + int k \<and>
       (if k = 0 then r' = r else status r' = StatusRetrying))"
proof -
  have "poisoned code body sc i r wk w"
    unfolding poisoned_def exposed_def using assms(1-13)
    by (auto simp: newSender_def NewSwitchableSender_def)
  from poisoned_rounds [OF this assms(15,14,16)] show ?thesis by blast
qed

theorem unstorable_rejection_is_sent_forever_witness:
  "utf8_valid cut_page \<and> wk_max_attempts webhook_worker = 4 \<and>
   length (requests (snd (history api_service minute_scheduler
     (concat (replicate 1000 [OpDelivery [] message1, OpPoll []]))
     (webhook_worker, rejecting 400 cut_page (one_row StatusQueued 0))))) = 1000"
proof -
  let ?w = "rejecting 400 cut_page (one_row StatusQueued 0)"
  obtain wk' w' where h: "history api_service minute_scheduler
      (concat (replicate 1000 [OpDelivery [] message1, OpPoll []])) (webhook_worker, ?w) = (wk', w')"
    by fastforce
  have "length (requests w') = length (requests ?w) + 1000"
    using unstorable_rejection_is_sent_forever [OF _ _ _ _ _ _ _ _ _ _ _ _ cut_page_unstorable _ _ h,
        of 1 "sms_row StatusQueued 0" "''p''" "10 * second" 100 400]
    by (simp add: message1_def CanTransition_iff max_int4_def)
  with h cut_page_valid show ?thesis by simp
qed

text \<open>
  C11: The runtime override. In every sender that has evolved from \<open>newSender\<close> the target is the
  override that the control row holds now once the cached value is older than two seconds and
  the row can be read; until then it stays what it was.
\<close>

theorem override_takes_effect:
  assumes "switch_ok s" and "control (db w) = Some c"
  shows "fst (currentTarget s w) =
    (if clock w (steps w) - sw_cached_at s > 2 * second \<and> db_fate w (Suc (steps w)) = Succeeds then
       (if wc_provider_url c = [] then None
        else Some \<lparr>ws_url = wc_provider_url c, ws_timeout = sw_timeout s\<rparr>)
     else sw_webhook s) \<and>
    switch_ok (newSender u t) \<and>
    (\<forall>n r s' w'. Switchable_Send s n w = (r, s', w') \<longrightarrow> switch_ok s')"
  using currentTarget_fresh [OF assms(1) _ assms(2)] currentTarget_cached [of w s]
    Switchable_Send_ok assms(1) newSender_ok
  by (auto simp: overrideCacheTTL_def NewWebhookSender_def)

theorem override_takes_effect_witness:
  "fst (currentTarget (newSender ''p'' 1) (calm (one_row StatusQueued 0))) = None"
  using override_takes_effect [of "newSender ''p'' 1" "calm (one_row StatusQueued 0)"]
  by (simp add: newSender_ok) (simp add: newSender_def NewSwitchableSender_def)

section \<open>Queues\<close>



text \<open>
  C13: Retries escalate and end. Against a provider that keeps answering 429 or 5xx, a notification
  is sent once per delivery until its attempts reach the maximum: after each earlier attempt its
  message waits on the tier of that attempt, after the last the row is failed with the error's text
  and the notification is dead-lettered, and further messages for it reach no provider.
\<close>

theorem retries_escalate_and_end:
  assumes "db_ok (db w)" and "undisturbed w"
    and "find_row i (db w) = Some r" and "CanTransition (status r) StatusProcessing"
    and "wk_sender wk = newSender u t" and "u \<noteq> []"
    and "wk_limiters wk (channel r) = Some rate" and "1 \<le> rate"
    and "provider_answers w code body" and "code = 429 \<or> 500 \<le> code"
    and "pg_text (readErrorBody body True)"
    and "attempts r < wk_max_attempts wk" and "wk_max_attempts wk \<le> max_int4"
    and "\<forall>m \<in> set msgs. decode_message (p_body m) = Some i"
    and "wk_max_attempts wk \<le> attempts r + int (length msgs)"
    and "history sv sc (map (OpDelivery ctx) msgs) (wk, w) = (wk', w')"
  shows "int (length (requests w')) = int (length (requests w)) + (wk_max_attempts wk - attempts r) \<and>
    (\<exists>r'. find_row i (db w') = Some r' \<and> status r' = StatusFailed \<and> attempts r' = wk_max_attempts wk \<and>
       last_error r' = Some (error_text (rejection code body))) \<and>
    (\<forall>a. attempts r < a \<and> a < wk_max_attempts wk \<longrightarrow> waits_on_tier i a w') \<and> dead_lettered i w'"
proof -
  have "exposed code body i r wk w"
    unfolding exposed_def using assms(1-10) by (auto simp: newSender_def NewSwitchableSender_def)
  from retries_end [OF this assms(10-16)] show ?thesis .
qed

theorem retries_escalate_and_end_witness:
  "\<exists>wk' w'. history api_service minute_scheduler (map (OpDelivery []) (replicate 6 message1))
      (webhook_worker, rejecting 503 ''busy'' (one_row StatusQueued 0)) = (wk', w') \<and>
    length (requests w') = 4 \<and> waits_on_tier 1 3 w' \<and> dead_lettered 1 w'"
proof -
  let ?w = "rejecting 503 ''busy'' (one_row StatusQueued 0)"
  obtain wk' w' where h: "history api_service minute_scheduler
      (map (OpDelivery []) (replicate 6 message1)) (webhook_worker, ?w) = (wk', w')"
    by fastforce
  have b: "pg_text (readErrorBody ''busy'' True)" by code_simp
  have "int (length (requests w')) = int (length (requests ?w)) + 4 \<and> waits_on_tier 1 3 w' \<and> dead_lettered 1 w'"
    using retries_escalate_and_end [OF _ _ _ _ _ _ _ _ _ _ b _ _ _ _ h,
        of 1 "sms_row StatusQueued 0" "''p''" "10 * second" 100 503]
    by (simp add: message1_def CanTransition_iff max_int4_def)
  with h show ?thesis by simp
qed

section \<open>Creating, cancelling, listing\<close>

text \<open>
  C14: Idempotent creation. After a creation with a key has been answered, any later creation
  with the same key, whatever else it asks for and whatever happened in between, answers with
  the same notification as a replay and changes nothing.
\<close>

theorem same_key_same_notification:
  assumes "db_ok (db w)" and "Service_Create sv1 ctx1 inp1 w = (Inr res1, w1)"
    and "ci_idempotency_key inp1 = Some key" and "world_le w1 w2"
    and "Service_Create sv2 ctx2 inp2 w2 = (Inr res2, w3)"
    and "ci_idempotency_key inp2 = Some key"
  shows "cr_replayed res2 \<and> same_notification (cr_notification res1) (cr_notification res2) \<and>
    db w3 = db w2 \<and> published w3 = published w2"
  using Service_Create_idempotent [OF assms] .

theorem same_key_same_notification_witness:
  "\<exists>res1 res2 w3. create1 = (Inr res1, snd create1) \<and>
     Service_Create api_service [] input1 (snd create1) = (Inr res2, w3) \<and> cr_replayed res2"
proof -
  have "\<not> isl (fst create1)" by code_simp
  then obtain res1 where c1: "create1 = (Inr res1, snd create1)" using Inr_result by blast
  then have k1: "Service_Create api_service [] input1 (calm no_rows) = (Inr res1, snd create1)"
    by (simp only: create1_def)
  have "\<not> isl (fst (Service_Create api_service [] input1 (snd create1)))" by code_simp
  then obtain res2 w3 where c2: "Service_Create api_service [] input1 (snd create1) = (Inr res2, w3)"
    using Inr_result by blast
  have "ci_idempotency_key input1 = Some ''k''" by (simp add: input1_def)
  from same_key_same_notification [OF _ k1 this world_le_refl c2 this] c1 c2 show ?thesis by auto
qed

text \<open>
  C15: An answered creation is in the table: its row has the answered identity; an answer that
  says queued has a queued row and its message at the broker; a replay answers with a row that
  was there before.
\<close>

theorem answered_creation_is_stored:
  assumes "db_ok (db w)" and "Service_Create sv ctx inp w = (Inr res, w')"
  shows "\<exists>row. find_row (nid (cr_notification res)) (db w') = Some row \<and>
    same_notification (cr_notification res) row \<and>
    (cr_replayed res \<longrightarrow> find_row (nid (cr_notification res)) (db w) = Some (cr_notification res)) \<and>
    (\<not> cr_replayed res \<longrightarrow> find_row (nid (cr_notification res)) (db w) = None) \<and>
    (status (cr_notification res) = StatusQueued \<longrightarrow> \<not> cr_replayed res \<longrightarrow>
       status row = StatusQueued \<and> handed_over (nid row) w')"
proof -
  from Service_Create_stored [OF assms] obtain row where
    row: "find_row (nid (cr_notification res)) (db w') = Some row"
      "same_notification (cr_notification res) row"
      "status (cr_notification res) = StatusQueued \<longrightarrow> \<not> cr_replayed res \<longrightarrow>
       status row = StatusQueued \<and> created_publication ctx
         ((cr_notification res)\<lparr>status := StatusPending\<rparr>) \<in> set (published w')"
    by blast
  have "(if cr_replayed res then find_row (nid (cr_notification res)) (db w) = Some (cr_notification res)
      else find_row (nid (cr_notification res)) (db w) = None)"
    using assms(2)
  proof (cases rule: Service_Create_cases)
    case (replayed key)
    then show ?thesis using find_row_iff [OF assms(1)] by simp
  next
    case (created n now w3 w4 rows)
    then have "nid (cr_notification res) = nid n"
      using publishForDelivery_fields(2) by (cases "status n = StatusPending") auto
    with created show ?thesis
      by (auto simp: insert_row_Inr find_row_def find_by_None_iff')
  qed
  moreover have "handed_over (nid row) w'"
    if "created_publication ctx ((cr_notification res)\<lparr>status := StatusPending\<rparr>) \<in> set (published w')"
    using created_publication_handed_over [OF that] same_notification_fields(1) [OF row(2)] by simp
  ultimately show ?thesis using row by (auto split: if_splits)
qed

theorem answered_creation_is_stored_witness:
  "\<exists>res row. create1 = (Inr res, snd create1) \<and>
     find_row (nid (cr_notification res)) (db (snd create1)) = Some row"
proof -
  have "\<not> isl (fst create1)" by code_simp
  then obtain res where c: "create1 = (Inr res, snd create1)" using Inr_result by blast
  then have "Service_Create api_service [] input1 (calm no_rows) = (Inr res, snd create1)"
    by (simp only: create1_def)
  from answered_creation_is_stored [OF _ this] c show ?thesis by auto
qed

text \<open>
  C16: Cancelling succeeds only on a pending, scheduled or queued notification, whose row then
  is cancelled and otherwise unchanged; a refusal (409 or 404) means that the row was in none of
  these states, or missing, and nothing has changed.
\<close>

theorem cancel_is_guarded:
  assumes "db_ok (db w)" and "Service_Cancel i w = (r, w')"
  shows "(\<forall>n. r = Inr n \<longrightarrow> (\<exists>row t. find_row i (db w) = Some row \<and>
       status row \<in> {StatusPending, StatusScheduled, StatusQueued} \<and>
       n = row\<lparr>status := StatusCancelled, updated_at := t\<rparr> \<and> find_row i (db w') = Some n)) \<and>
    (\<forall>e. r = Inl e \<longrightarrow> e \<in> {ErrNotFound, ErrInvalidTransition} \<longrightarrow>
       db w' = db w \<and> published w' = published w \<and>
       (\<forall>row. find_row i (db w) = Some row \<longrightarrow>
          status row \<notin> {StatusPending, StatusScheduled, StatusQueued}) \<and>
       (e = ErrNotFound \<longrightarrow> find_row i (db w) = None))"
proof -
  have c: "set CancellableStatuses = {StatusPending, StatusScheduled, StatusQueued}"
    by (simp add: CancellableStatuses_def StatusesAllowedInto_def allStatuses_def CanTransition_iff)
  show ?thesis
    using Service_Cancel_Inr [OF assms(1), of i _ w'] Service_Cancel_refused [OF assms(1), of i _ w']
      assms(2)
    unfolding c by blast
qed

theorem cancel_is_guarded_witness:
  "fst (Service_Cancel 1 (calm (one_row StatusSent 1))) = Inl ErrInvalidTransition \<and>
   db (snd (Service_Cancel 1 (calm (one_row StatusSent 1)))) = one_row StatusSent 1"
proof -
  have "fst (Service_Cancel 1 (calm (one_row StatusSent 1))) = Inl ErrInvalidTransition"
    by code_simp
  with cancel_is_guarded [of "calm (one_row StatusSent 1)" 1,
      OF _ surjective_pairing [of "Service_Cancel 1 (calm (one_row StatusSent 1))"]]
  show ?thesis by simp
qed

text \<open>
  C17: A listing is exactly the matching rows, newest first with identifiers breaking ties, cut
  at a limit that is between 1 and 100 whatever was asked for, and it changes nothing.
\<close>

theorem listing_is_exact:
  assumes "db_ok (db w)" and "Service_List q w = (Inr ns, w')"
  shows "\<exists>rest. sorted_wrt (\<lambda>a b. (created_at b, nid b) < (created_at a, nid a)) (ns @ rest) \<and>
    set (ns @ rest) = {r \<in> set (notifications (db w)). list_matches q r} \<and>
    length ns \<le> 100 \<and> (0 < q_limit q \<longrightarrow> length ns \<le> nat (q_limit q)) \<and>
    (rest \<noteq> [] \<longrightarrow> 1 \<le> length ns) \<and> db w' = db w"
proof -
  define all where "all = newest_first (filter (list_matches q) (notifications (db w)))"
  define k where "k = nat (q_limit (clamp_limit q))"
  from Service_List_Inr [OF assms(2)] have ns: "ns = take k all" and d: "db w' = db w"
    by (simp_all add: all_def k_def quietD)
  have "newest_sorted all"
    unfolding all_def using db_ok_distinct [OF assms(1)]
    by (intro newest_first_sorted distinct_map_filter)
  moreover have "set all = {r \<in> set (notifications (db w)). list_matches q r}"
    by (simp add: all_def)
  moreover have "1 \<le> k" "k \<le> 100" "0 < q_limit q \<Longrightarrow> k \<le> nat (q_limit q)"
    using clamp_limit_bounds [of q]
    by (auto simp: k_def clamp_limit_def Let_def DefaultListLimit_def MaxListLimit_def)
  ultimately show ?thesis
    using d unfolding ns newest_sorted_def list_key_def
    by (intro exI [of _ "drop k all"]) auto
qed

definition all_query :: list_query where
  "all_query = \<lparr>q_status = [], q_channel = [], q_batch_id = None, q_from = None, q_to = None,
     q_limit = 0, q_cursor_created_at = None, q_cursor_id = None\<rparr>"

theorem listing_is_exact_witness:
  "\<exists>ns. Service_List all_query (calm (one_row StatusSent 1)) = (Inr ns, snd (Service_List all_query
     (calm (one_row StatusSent 1)))) \<and> length ns \<le> 100"
proof -
  have "\<not> isl (fst (Service_List all_query (calm (one_row StatusSent 1))))" by code_simp
  then obtain ns where l: "Service_List all_query (calm (one_row StatusSent 1)) =
      (Inr ns, snd (Service_List all_query (calm (one_row StatusSent 1))))"
    using Inr_result by blast
  from listing_is_exact [OF _ l] l show ?thesis by auto
qed

text \<open>
  C18: What is accepted is delivered. With a database, a broker and a provider that answer, an
  accepted notification that is not scheduled is queued at once, its message goes to the work queue
  of its channel, and whenever that message is handled while the row can still be claimed, the
  message is acknowledged and the row is sent, to the recipient of the request.
\<close>

theorem accepted_notifications_are_delivered:
  assumes "db_ok (db w)" and "undisturbed w" and "provider_accepts w"
    and "Service_Create sv ctx inp w = (Inr res, w1)" and "\<not> cr_replayed res"
    and "ci_scheduled_at inp = None"
    and "world_le w1 v" and "find_row (nid (cr_notification res)) (db v) = Some q"
    and "CanTransition (status q) StatusProcessing" and "attempts q < max_int4"
    and "wk_limiters wk (ci_channel inp) = Some rate" and "1 \<le> rate"
  shows "(\<exists>row. find_row (nid (cr_notification res)) (db w1) = Some row \<and> status row = StatusQueued) \<and>
    (\<exists>pub \<in> set (published w1).
      route declared (pub_exchange pub) (pub_key pub) = [WorkQueueName (ci_channel inp)] \<and>
      (\<exists>wk' w2 row. handleDelivery wk ctx0 (pub_message pub) v = (Acked, wk', w2) \<and>
         find_row (nid (cr_notification res)) (db w2) = Some row \<and> status row = StatusSent \<and>
         attempts row = attempts q + 1 \<and> recipient row = ci_recipient inp))"
  using created_is_delivered [OF assms] .

theorem accepted_notifications_are_delivered_witness:
  "\<exists>res pub. create1 = (Inr res, snd create1) \<and> pub \<in> set (published (snd create1)) \<and>
    route declared (pub_exchange pub) (pub_key pub) = [''notifications.sms''] \<and>
    fst (handleDelivery log_worker [] (pub_message pub) (snd create1)) = Acked"
proof -
  have "\<not> isl (fst create1)" by code_simp
  then obtain res where c: "create1 = (Inr res, snd create1)" using Inr_result by blast
  then have k: "Service_Create api_service [] input1 (calm no_rows) = (Inr res, snd create1)"
    by (simp only: create1_def)
  have "case fst create1 of Inr x \<Rightarrow> \<not> cr_replayed x \<and>
      (case find_row (nid (cr_notification x)) (db (snd create1)) of None \<Rightarrow> False
       | Some q \<Rightarrow> CanTransition (status q) StatusProcessing \<and> attempts q < max_int4) | Inl e \<Rightarrow> False"
    by code_simp
  then obtain q where q: "\<not> cr_replayed res" "find_row (nid (cr_notification res)) (db (snd create1)) = Some q"
    "CanTransition (status q) StatusProcessing" "attempts q < max_int4"
    by (subst (asm) c) (auto split: option.splits)
  have l: "wk_limiters log_worker (ci_channel input1) = Some 100" "ci_scheduled_at input1 = None"
    by code_simp+
  from accepted_notifications_are_delivered [OF _ calm_undisturbed calm_accepts k q(1) l(2) world_le_refl
      q(2-4) l(1), of "[]"] obtain pub wk' w2 where "pub \<in> set (published (snd create1))"
    "route declared (pub_exchange pub) (pub_key pub) = [WorkQueueName (ci_channel input1)]"
    "handleDelivery log_worker [] (pub_message pub) (snd create1) = (Acked, wk', w2)"
    by auto
  with c show ?thesis
    by (intro exI [of _ res] exI [of _ pub]) (simp add: input1_def WorkQueueName_def)
qed

section \<open>Batches\<close>

text \<open>
  C19: A batch that is answered has one result per input, in the order of the inputs; accepted
  and rejected add up; the accepted items are exactly the rows that the table gains; an item is
  rejected exactly when it carries errors and accepted exactly when it carries a notification,
  which is valid, made from the input in its place and stored under the identifier of the batch;
  one that says queued has a queued row and its message at the broker.
\<close>

theorem batch_answers_every_item:
  assumes "db_ok (db w)" and "CreateBatch sv ctx inps w = (Inr res, w')"
  shows "map bi_index (br_results res) = [0..<length inps] \<and>
    br_accepted res = length (filter (\<lambda>it. bi_status it = BatchItemAccepted) (br_results res)) \<and>
    br_accepted res + br_rejected res = length inps \<and>
    (\<forall>it \<in> set (br_results res). (bi_status it = BatchItemAccepted \<longleftrightarrow> bi_notification it \<noteq> None) \<and>
       (bi_status it = BatchItemRejected \<longleftrightarrow> bi_errors it \<noteq> [])) \<and>
    map nid (notifications (db w')) = map nid (notifications (db w)) @
      map nid (List.map_filter bi_notification (br_results res)) \<and>
    (\<forall>k < length inps. \<forall>n. bi_notification (br_results res ! k) = Some n \<longrightarrow>
       recipient n = ci_recipient (inps ! k) \<and> channel n = ci_channel (inps ! k) \<and>
       idempotency_key n = ci_idempotency_key (inps ! k) \<and> scheduled_at n = ci_scheduled_at (inps ! k) \<and>
       batch_id n = Some (br_batch_id res) \<and> (\<exists>now. ValidateNew n now = None) \<and>
       (\<exists>row. find_row (nid n) (db w') = Some row \<and> same_notification n row \<and>
          (status n = StatusQueued \<longrightarrow> status row = StatusQueued \<and> handed_over (nid n) w')))"
proof -
  have "handed_over i w'" if "\<exists>m. nid m = i \<and> created_publication ctx m \<in> set (published w')" for i
    using that created_publication_handed_over by blast
  with CreateBatch_stored [OF assms] have
    "\<forall>k < length inps. \<forall>n. bi_notification (br_results res ! k) = Some n \<longrightarrow>
       recipient n = ci_recipient (inps ! k) \<and> channel n = ci_channel (inps ! k) \<and>
       idempotency_key n = ci_idempotency_key (inps ! k) \<and> scheduled_at n = ci_scheduled_at (inps ! k) \<and>
       batch_id n = Some (br_batch_id res) \<and> (\<exists>now. ValidateNew n now = None) \<and>
       (\<exists>row. find_row (nid n) (db w') = Some row \<and> same_notification n row \<and>
          (status n = StatusQueued \<longrightarrow> status row = StatusQueued \<and> handed_over (nid n) w'))"
    by blast
  with CreateBatch_answer [OF assms] show ?thesis
    unfolding batch_answer_def result_ok_def by blast
qed

definition bad_input :: create_input where
  "bad_input = input1\<lparr>ci_recipient := ''nobody''\<rparr>"

definition batch1 :: "batch_result result \<times> world" where
  "batch1 = CreateBatch api_service [] [bad_input, input1] (calm no_rows)"

theorem batch_answers_every_item_witness:
  "\<exists>res. batch1 = (Inr res, snd batch1) \<and> map bi_index (br_results res) = [0, 1]"
proof -
  have "\<not> isl (fst batch1)" by code_simp
  then obtain res where c: "batch1 = (Inr res, snd batch1)" using Inr_result by blast
  then have "CreateBatch api_service [] [bad_input, input1] (calm no_rows) = (Inr res, snd batch1)"
    by (simp only: batch1_def)
  from batch_answers_every_item [OF _ this] c show ?thesis by (auto simp: upt_rec)
qed


section \<open>Validation and templates\<close>

text \<open>
  C21: Validation accepts exactly: a known channel and priority, a recipient of the channel's
  shape (an E.164 number, an address with one @ and a dotted host, anything for push), content
  that is present and within the channel's limit (160 runes, 512 bytes, 100 KiB), and a schedule
  in the future; otherwise it names the offending fields, each once and in order.
\<close>

theorem validation_is_exact:
  "(ValidateNew n now = None \<longleftrightarrow>
      channel n \<in> {''sms'', ''email'', ''push''} \<and> priority n \<in> {''high'', ''normal'', ''low''} \<and>
      recipient n \<noteq> [] \<and> (channel n = ''sms'' \<longrightarrow> valid_phone (recipient n)) \<and>
      (channel n = ''email'' \<longrightarrow> valid_email (recipient n)) \<and>
      content n \<noteq> [] \<and> (channel n = ''sms'' \<longrightarrow> rune_count (content n) \<le> 160) \<and>
      (channel n = ''push'' \<longrightarrow> length (content n) \<le> 512) \<and>
      (channel n = ''email'' \<longrightarrow> length (content n) \<le> 100 * 1024) \<and>
      (\<forall>t. scheduled_at n = Some t \<longrightarrow> now < t)) \<and>
   (\<forall>e. ValidateNew n now = Some e \<longrightarrow>
      (\<exists>errs. e = ValidationErrors errs \<and> map fe_field errs = bad_fields n now))"
  using ValidateNew_None_iff [of n now] ValidateNew_SomeE [of n now]
  by (auto simp: new_ok_def recipient_ok_def content_ok_def Channels_def Priority_Valid_def)

theorem validation_is_exact_witness:
  "ValidateNew (sms_row StatusPending 0) 0 = None \<and>
   bad_fields (sms_row StatusPending 0) 1 = [''scheduled_at'']"
proof -
  have "ValidateNew (sms_row StatusPending 0) 0 = None" by code_simp
  moreover obtain e where "ValidateNew (sms_row StatusPending 0) 1 = Some e"
    "map fe_field (the (as_validation e)) = [''scheduled_at'']"
  proof -
    have "map_option (\<lambda>e. map fe_field (the (as_validation e)))
        (ValidateNew (sms_row StatusPending 0) 1) = Some [''scheduled_at'']" by code_simp
    then show ?thesis using that by auto
  qed
  ultimately show ?thesis
    using validation_is_exact [of "sms_row StatusPending 0" 1] by auto
qed

text \<open>
  C22: The three patterns of the domain package, run by the matcher, accept exactly the texts
  that they describe: E.164 numbers, mail addresses, and template names of 2 to 64 characters.
\<close>

theorem patterns_mean_what_they_say:
  "(matches e164Pattern s \<longleftrightarrow> valid_phone s) \<and> (matches emailPattern s \<longleftrightarrow> valid_email s) \<and>
   (matches templateNamePattern s \<longleftrightarrow> valid_name s) \<and>
   (matches emailPattern s \<longrightarrow> count_list s (CHR ''@'') = 1)"
  using valid_email_one_at
  by (simp add: e164Pattern_iff emailPattern_iff templateNamePattern_iff)

theorem patterns_mean_what_they_say_witness:
  "matches emailPattern ''a@b.c'' \<and> count_list ''a@b.c'' (CHR ''@'') = 1"
proof -
  have "matches emailPattern ''a@b.c''" by code_simp
  with patterns_mean_what_they_say [of "''a@b.c''"] show ?thesis by blast
qed

text \<open>
  C23: Validation accepts texts that the table cannot hold. A creation that is valid in every
  respect but has a NUL (or bytes that are not UTF-8) in its recipient, content or key is answered
  with 500 by a database that works, and nothing is stored: the client's mistake is reported as
  the server's.
\<close>

theorem unstorable_text_is_an_internal_error:
  assumes "db_fate w (Suc (Suc (steps w))) = Succeeds"
    and "Decode_limited (scan_create e) maxRequestBodyBytes (hr_body req) = Inr p"
    and "valid_creation p" and "\<not> storable_create w p"
    and "notifications_create h e ctx req w = (resp, w')"
  shows "hs_status resp = 500 \<and> hs_body resp = Json (JObj [(''error'', JText [Plain ''internal error''])]) \<and>
    db w' = db w \<and> published w' = published w"
  using unstorable_creation [OF assms(1-4), of h ctx] assms(5)
  by (auto simp: writeErrorResponse_def writeJSONResponse_def omit_empty_def quietD)

theorem unstorable_text_is_an_internal_error_witness:
  "hs_status (fst (notifications_create \<lparr>nh_service = api_service, nh_max_batch_size = 1000\<rparr> calm_edge
     [] nul_post (calm no_rows))) = 500"
proof -
  obtain resp w' where c: "notifications_create \<lparr>nh_service = api_service, nh_max_batch_size = 1000\<rparr> calm_edge
     [] nul_post (calm no_rows) = (resp, w')" by fastforce
  from unstorable_text_is_an_internal_error [OF _ nul_post_decodes nul_post_valid nul_post_unstorable c] c
  show ?thesis by simp
qed

text \<open>
  C24: Rendering through the batch's cache is rendering afresh: a reference that resolves gives
  the execution of the stored body of the template of that name, for that channel, on the
  reference's variables; and every failure, an unreachable database included, is reported as a
  validation error of the request.
\<close>

theorem cached_rendering_is_rendering:
  assumes "resolver_ok (db w) rs" and "resolver_render rs ref ch w = (r, rs', w')"
  shows "(\<forall>s. r = Inr s \<longrightarrow> (\<exists>tm. find_by t_name (tr_name ref) (templates (db w)) = Some tm \<and>
       t_channel tm = ch \<and> tmpl_execute w (t_body tm) (tr_vars ref) = Inr s \<and>
       resolver_ok (db w) rs')) \<and>
    (\<forall>e. r = Inl e \<longrightarrow> (\<exists>f m. e = ValidationErrors [field_err f m])) \<and>
    db w' = db w \<and> resolver_ok (db w) newTemplateResolver"
  using resolver_render_Inr [OF _ assms(1), of ref ch _ rs' w'] resolver_render_Inl [of rs ref ch w _ rs' w']
    quietD(1) [OF resolver_render_quiet [OF assms(2)]] assms(2)
  by (auto simp: invalid_def)

definition template1 :: template where
  "template1 = \<lparr>t_id = 7, t_name = ''otp'', t_channel = ''sms'', t_body = ''code'',
     t_created_at = 0, t_updated_at = 0\<rparr>"

theorem cached_rendering_is_rendering_witness:
  "fst (resolver_render newTemplateResolver \<lparr>tr_name = ''otp'', tr_vars = []\<rparr> ''sms''
     (calm (no_rows\<lparr>templates := [template1]\<rparr>))) = Inr ''code''"
proof -
  let ?w = "calm (no_rows\<lparr>templates := [template1]\<rparr>)"
  let ?ref = "\<lparr>tr_name = ''otp'', tr_vars = []\<rparr>"
  obtain r rs' w' where p: "resolver_render newTemplateResolver ?ref ''sms'' ?w = (r, rs', w')"
    by (rule prod_cases3)
  have "\<not> isl (fst (resolver_render newTemplateResolver ?ref ''sms'' ?w))" by code_simp
  then obtain s where "r = Inr s" using p by (cases r) auto
  with cached_rendering_is_rendering [OF _ p] p show ?thesis by (auto simp: template1_def)
qed

section \<open>The scheduler\<close>

text \<open>
  C25: What is due goes out: when no more than 100 rows are due, one sweep over a reachable
  database and a broker that confirms queues every due row that no other scheduler has locked,
  and hands it to the broker.
\<close>

theorem due_notifications_are_queued:
  assumes "db_ok (db w)" and "find_row i (db w) = Some r"
    and "due (sc_stale_after sc) (db_clock w (steps w)) r"
    and "length (filter (due (sc_stale_after sc) (db_clock w (steps w))) (notifications (db w))) \<le> 100"
    and "db_fate w (steps w) = Succeeds" and "db_fate w (Suc (steps w)) = Succeeds"
    and "\<forall>j. publish_fate w j = Confirmed"
    and "\<not> row_locked w (steps w) i"
  shows "find_row i (db (queueDue sc ctx w)) =
      Some (r\<lparr>status := StatusQueued, updated_at := db_clock w (steps w)\<rparr>) \<and>
    handed_over i (queueDue sc ctx w)"
  using queueDue_due [OF assms(1-6) _ assms(8), of ctx] assms(7) by (simp add: queued_row_def)

theorem due_notifications_are_queued_witness:
  "handed_over 1 (queueDue minute_scheduler [] (calm (one_row StatusScheduled 0)))"
  using due_notifications_are_queued [of "calm (one_row StatusScheduled 0)" 1
      "sms_row StatusScheduled 0" minute_scheduler "[]"]
  by (simp add: due_def)

text \<open>
  C26: Nothing goes out early: a notification that is not due at the database's clock, such as
  one scheduled for later or a fresh pending one, is neither changed nor announced by the sweep.
\<close>

theorem nothing_is_queued_early:
  assumes "db_ok (db w)" and "find_row i (db w) = Some r"
    and "\<not> due (sc_stale_after sc) (db_clock w (steps w)) r"
  shows "find_row i (db (queueDue sc ctx w)) = Some r \<and>
    (\<exists>S. i \<notin> S \<and> announces S w (queueDue sc ctx w))"
  using queueDue_not_due [OF assms(1), of i sc ctx] assms(2,3) by simp

theorem nothing_is_queued_early_witness:
  "find_row 1 (db (queueDue minute_scheduler [] (calm (one_row StatusSent 1)))) =
     Some (sms_row StatusSent 1)"
  using nothing_is_queued_early [of "calm (one_row StatusSent 1)" 1 "sms_row StatusSent 1"
      minute_scheduler "[]"]
  by (simp add: due_def)

text \<open>
  C27: A notification stranded in processing longer than the cutoff goes back to retrying and is
  handed to the workers again by one recovery with a database and a broker that answer.
\<close>

theorem stranded_notifications_are_recovered:
  assumes "db_ok (db w)" and "find_row i (db w) = Some r"
    and "status r = StatusProcessing"
    and "updated_at r < db_clock w (steps w) - sc_stale_after sc"
    and "length (filter (stale_in StatusProcessing (sc_stale_after sc) (db_clock w (steps w)))
      (notifications (db w))) \<le> 100"
    and "db_fate w (steps w) = Succeeds" and "db_fate w (Suc (steps w)) = Succeeds"
    and "\<forall>j. publish_fate w j = Confirmed"
    and "\<not> row_locked w (steps w) i"
  shows "\<exists>r'. find_row i (db (recoverStaleProcessing sc ctx w)) = Some r' \<and>
    status r' = StatusRetrying \<and> attempts r' = attempts r \<and> same_identity r r' \<and>
    handed_over i (recoverStaleProcessing sc ctx w)"
proof -
  have "stale_in StatusProcessing (sc_stale_after sc) (db_clock w (steps w)) r"
    using assms(3,4) by (simp add: stale_in_def)
  from recoverStaleProcessing_stale [OF assms(1,2) this assms(5-7) _ assms(9), of ctx] assms(8)
  show ?thesis by (auto simp: recovered_row_def same_identity_def)
qed

theorem stranded_notifications_are_recovered_witness:
  "handed_over 1 (recoverStaleProcessing minute_scheduler [] (calm (one_row StatusProcessing 1)))"
  using stranded_notifications_are_recovered [of "calm (one_row StatusProcessing 1)" 1
      "sms_row StatusProcessing 1" minute_scheduler "[]"]
  by (auto simp: minute_scheduler_def stale_in_def)

text \<open>
  C28: A row that waits in retrying is not rescued: no sweep of a poll changes it or hands it to
  the broker, so when the message of a retry or of a recovery is lost, the notification stays in
  retrying whatever the number of polls.
\<close>

theorem retrying_rows_are_never_rescued:
  assumes "db_ok (db w)" and "find_row i (db w) = Some r" and "status r = StatusRetrying"
    and "Scheduler_Run sc ctx k w = (res, w')"
  shows "find_row i (db w') = Some r \<and> (\<exists>S. i \<notin> S \<and> announces S w w')"
proof (cases "sc_poll_interval sc \<le> 0")
  case True
  with assms(2,4) show ?thesis
    by (auto simp: Scheduler_Run_def announces_same intro!: exI [of _ "{}"])
next
  case False
  have "db_ok (db ((RunOnce sc ctx ^^ k) w)) \<and> find_row i (db ((RunOnce sc ctx ^^ k) w)) = Some r \<and>
      announces (- {i}) w ((RunOnce sc ctx ^^ k) w)"
  proof (induction k)
    case (Suc k)
    let ?v = "(RunOnce sc ctx ^^ k) w"
    from RunOnce_untouched [of ?v i r sc ctx] Suc assms(3) obtain S where
      S: "find_row i (db (RunOnce sc ctx ?v)) = Some r" "i \<notin> S" "announces S ?v (RunOnce sc ctx ?v)"
      by auto
    from S(3) have "announces (- {i}) ?v (RunOnce sc ctx ?v)"
      by (rule announces_mono) (use S(2) in auto)
    with Suc S(1) world_le_db_ok [OF RunOnce_le] show ?case by (auto intro: announces_trans)
  qed (use assms(1,2) in \<open>simp add: announces_same\<close>)
  with False assms(4) show ?thesis
    by (auto simp: Scheduler_Run_def intro!: exI [of _ "- {i}"])
qed

theorem retrying_rows_are_never_rescued_witness:
  "\<exists>S. 1 \<notin> S \<and> announces S (calm (one_row StatusRetrying 1))
     (snd (Scheduler_Run minute_scheduler [] 1 (calm (one_row StatusRetrying 1))))"
  using retrying_rows_are_never_rescued [of "calm (one_row StatusRetrying 1)" 1
      "sms_row StatusRetrying 1" minute_scheduler "[]" 1,
      OF _ _ _ surjective_pairing]
  by simp

section \<open>The state machine\<close>

text \<open>
  C29: Whatever the other components write, in any order and at any times, a notification moves
  along the state machine: its identity stays, its attempts never decrease, its status follows
  declared transitions, and once it is sent, failed or cancelled its row never changes again.
\<close>

theorem statements_follow_the_state_machine:
  assumes "\<forall>st \<in> fst ` set ss. issued st" and "db_ok d" and "find_row i d = Some r"
  shows "\<exists>r'. find_row i (foldl (\<lambda>d (st, t). exec st t d) d ss) = Some r' \<and> same_identity r r' \<and>
    CanTransition\<^sup>*\<^sup>* (status r) (status r') \<and> attempts r \<le> attempts r' \<and>
    (terminal (status r) \<longrightarrow> r' = r) \<and> db_ok (foldl (\<lambda>d (st, t). exec st t d) d ss)"
proof -
  have run: "foldl (\<lambda>d (st, t). exec st t d) d ss = others.run_all ss d"
    by (simp add: others.run_all_def)
  from others.run_all_path [OF assms] obtain r' where
    "find_row i (others.run_all ss d) = Some r'" "same_identity r r'"
    "CanTransition\<^sup>*\<^sup>* (status r) (status r')" "attempts r \<le> attempts r'" by blast
  moreover have "terminal (status r) \<Longrightarrow> find_row i (others.run_all ss d) = Some r"
    using others.run_all_terminal [OF assms] .
  ultimately show ?thesis
    using others.run_all_evolves [OF assms(1,2)] unfolding run by auto
qed

theorem statements_follow_the_state_machine_witness:
  "\<exists>r'. find_row 1 (exec (SCancel 1) 5 (one_row StatusQueued 0)) = Some r' \<and>
     CanTransition\<^sup>*\<^sup>* StatusQueued (status r')"
  using statements_follow_the_state_machine [of "[(SCancel 1, 5)]" "one_row StatusQueued 0" 1
      "sms_row StatusQueued 0"]
  by auto

text \<open>
  C30: Any history of operations of the API, the scheduler and the worker, under every pattern of
  failures, keeps the tables consistent, moves every row along the state machine and takes back
  nothing that was published or requested from a provider.
\<close>

theorem every_history_is_legal:
  assumes "db_ok (db w)" and "find_row i (db w) = Some r" and "history sv sc ops (wk, w) = (wk', w')"
  shows "db_ok (db w') \<and> (\<exists>r'. find_row i (db w') = Some r' \<and> same_identity r r' \<and>
      CanTransition\<^sup>*\<^sup>* (status r) (status r') \<and> attempts r \<le> attempts r' \<and>
      (terminal (status r) \<longrightarrow> r' = r)) \<and>
    (\<exists>ps. published w' = published w @ ps) \<and> (\<exists>rs. requests w' = requests w @ rs)"
proof -
  from history_le [of "(wk, w)" sv sc ops] assms(3) have le: "world_le w w'" by simp
  from world_le_evolves [OF le assms(1)] assms(2) obtain r' where
    "find_row i (db w') = Some r'" "row_evolves r r'" by (auto simp: db_evolves_def)
  then show ?thesis
    using world_le_db_ok [OF le assms(1)] le row_evolves_identity row_evolves_status
      row_evolves_attempts row_evolves_terminal
    by (auto simp: world_le_def)
qed

theorem every_history_is_legal_witness:
  "db_ok (db (snd (history \<lparr>sv_has_templates = True, sv_instrumented = True\<rparr> minute_scheduler
     [OpCancel 1, OpPoll [], OpGet 1]
     (log_worker, calm (one_row StatusQueued 0)))))"
  using every_history_is_legal [OF _ _ surjective_pairing, of "calm (one_row StatusQueued 0)" 1
      "sms_row StatusQueued 0"]
  by simp

section \<open>The HTTP interface\<close>

text \<open>
  C31: A request that the API answers with a 4xx has changed nothing: on either router, for any
  configuration and any pattern of failures, no row, no message, no provider request and nothing
  in the built-in provider's inbox.
\<close>

theorem client_error_changes_nothing:
  assumes "db_ok (db w)" and "400 \<le> hs_status resp" and "hs_status resp < 500"
    and "cfg = main_router c e \<or> cfg = main_ops_router e"
    and "ServeHTTP cfg e req a w = (rid, Served resp, a', w')"
  shows "db w' = db w \<and> published w' = published w \<and> requests w' = requests w \<and>
    ap_store a' = ap_store a"
  using ServeHTTP_refused [OF assms(5) _ assms(1)] main_routes_sound assms(2,3,4)
  by (auto simp: client_error_def untouched_def)

theorem client_error_changes_nothing_witness:
  "\<exists>resp a' w'. ServeHTTP (main_router default_config calm_edge) calm_edge empty_post idle_api
     (calm (one_row StatusQueued 0)) = (''abc'', Served resp, a', w') \<and> hs_status resp = 400 \<and>
     db w' = one_row StatusQueued 0"
proof -
  let ?r = "ServeHTTP (main_router default_config calm_edge) calm_edge empty_post idle_api
     (calm (one_row StatusQueued 0))"
  have "case fst (snd ?r) of Served resp \<Rightarrow> hs_status resp = 400 | Panicked b \<Rightarrow> False" by code_simp
  then obtain resp where resp: "fst (snd ?r) = Served resp" "hs_status resp = 400"
    by (auto split: outcome.splits)
  have "fst ?r = ''abc''" by code_simp
  with resp have r: "?r = (''abc'', Served resp, fst (snd (snd ?r)), snd (snd (snd ?r)))"
    by (simp add: prod_eq_iff)
  have "db (snd (snd (snd ?r))) = one_row StatusQueued 0"
    using client_error_changes_nothing [OF _ _ _ disjI1 [OF refl] r] resp(2) by simp
  with r resp(2) show ?thesis by blast
qed



text \<open>
  C33: A pagination token survives its trip through the client: what the listing hands out is not
  empty and decodes to the creation time and identifier it was made from, and a token without
  one of them is rejected. The JSON encoder is a parameter with its documented round trip.
\<close>

theorem tokens_round_trip:
  assumes "\<And>t i. json_time t \<Longrightarrow> cursor_json e t i \<noteq> [] \<and> cursor_unjson e (cursor_json e t i) = Some (t, i)"
    and "json_time t"
  shows "encodeCursor e t i \<noteq> [] \<and>
    (t \<noteq> 0 \<and> i \<noteq> uuid_Nil \<longrightarrow> decodeCursor e (encodeCursor e t i) = Inr (t, i)) \<and>
    (t = 0 \<or> i = uuid_Nil \<longrightarrow> isl (decodeCursor e (encodeCursor e t i))) \<and>
    (\<forall>raw. DecodeString (EncodeToString raw) = Some raw)"
proof -
  have "cursor_codec e" using assms(1) by (simp add: cursor_codec_def)
  from encodeCursor_nonempty [OF this assms(2)] decode_encodeCursor [OF this assms(2)] show ?thesis
    by simp
qed

theorem tokens_round_trip_witness:
  "decodeCursor calm_edge (encodeCursor calm_edge 42 7) = Inr (42, 7)"
proof -
  have "json_time 42" by (simp add: json_time_def)
  moreover have "cursor_json calm_edge t i \<noteq> [] \<and>
      cursor_unjson calm_edge (cursor_json calm_edge t i) = Some (t, i)" if "json_time t" for t i
    using calm_edge_codec that by (simp add: cursor_codec_def)
  ultimately show ?thesis using tokens_round_trip [of calm_edge 42 7] by simp
qed

text \<open>
  C34: Reading a listing page by page ends, after at most one request more than there are
  notifications, with all matching notifications in the order of the listing, each exactly once,
  whatever page size the client asks for, provided that the times of the rows can be encoded.
\<close>

theorem crawl_reads_everything_once:
  assumes "cursor_codec e" and "db_ok (db w)" and "\<And>k. db_fate w k = Succeeds"
    and "parseListQuery e req = Inr q" and "query_Get req ''cursor'' = []"
    and "ListQuery_Validate q = None"
    and "\<And>r. r \<in> set (notifications (db w)) \<Longrightarrow>
      encodable (toNotificationResponse r) \<and> created_at r \<noteq> 0 \<and> nid r \<noteq> uuid_Nil"
    and "length (notifications (db w)) < k"
  shows "fst (crawl h e req k [] w) =
    Some (map toNotificationResponse (newest_first (filter (list_matches q) (notifications (db w)))))"
proof -
  let ?xs = "newest_first (filter (list_matches q) (notifications (db w)))"
  have "length ?xs \<le> length (notifications (db w))" by (simp add: newest_first_def)
  with crawl_from [OF assms(1) assms(3) assms(4,5,6) _ _ refl, of 0 "[]" k w h] assms(2,7,8)
    db_ok_whole [OF assms(2)]
  show ?thesis by (auto simp: crawl_token_def db_ok_def)
qed

theorem crawl_reads_everything_once_witness:
  "\<exists>q. parseListQuery calm_edge list_two = Inr q \<and>
    fst (crawl \<lparr>nh_service = api_service, nh_max_batch_size = 1000\<rparr> calm_edge list_two 4 [] (calm three_rows)) =
      Some (map toNotificationResponse (newest_first (filter (list_matches q) (notifications three_rows))))"
proof -
  have "\<not> isl (parseListQuery calm_edge list_two)" by code_simp
  then obtain q where q: "parseListQuery calm_edge list_two = Inr q" by (auto simp: isl_def) (metis sum.exhaust)
  moreover have "case parseListQuery calm_edge list_two of Inr q \<Rightarrow> ListQuery_Validate q = None | _ \<Rightarrow> False"
    by code_simp
  ultimately show ?thesis
    using crawl_reads_everything_once [OF calm_edge_codec _ _ q, of "calm three_rows" 4
        "\<lparr>nh_service = api_service, nh_max_batch_size = 1000\<rparr>"]
    by (auto simp: three_rows_ok three_rows_json three_rows_length list_two_no_cursor)
qed



section \<open>Configuration and start\<close>

text \<open>
  C36: A process that starts has a checked configuration: every variable is unset and has its
  default or parses to the value used, and the limits are positive. Its components are those of
  the role, the control row exists, declaring the topology again would change nothing, and a
  worker has a limiter for every channel and at least one handler.
\<close>

theorem started_process_is_configured:
  assumes "boot b e T w = (Inr comps, T', w')"
  shows "\<exists>c. Load (bt_lookup b) = Inr c \<and> config_of (bt_lookup b) c \<and> comps = started c e \<and>
    control (db w') \<noteq> None \<and> DeclareTopology (\<lambda>_. False) T' = (None, T') \<and>
    (\<forall>wk p. QueueWorker wk p \<in> set comps \<longrightarrow> limiters_ok wk \<and> 1 \<le> wk_concurrency wk)"
proof -
  from assms obtain c where c: "config_of (bt_lookup b) c" "comps = started c e"
    "control (db w') \<noteq> None" "DeclareTopology (bt_declare_fails b) T = (None, T')"
    by (rule boot_Inr)
  moreover have "1 \<le> cf_worker_concurrency c" using c(1) by (simp add: config_of_def Let_def)
  moreover have "limiters_ok (main_worker c)" by (simp add: main_worker_def New_worker_limiters_ok)
  moreover have "wk_concurrency (main_worker c) = cf_worker_concurrency c"
    by (simp add: main_worker_def New_worker_def)
  moreover have "QueueWorker wk p \<in> set (started c e) \<Longrightarrow> wk = main_worker c" for wk p
    by (auto simp: started_def split: if_splits)
  ultimately show ?thesis
    using DeclareTopology_again [OF c(4)] by (auto simp: Load_Inr intro!: exI [of _ c])
qed

theorem started_process_is_configured_witness:
  "\<exists>c. Load (\<lambda>_. []) = Inr c \<and> config_of (\<lambda>_. []) c"
proof -
  have "Load (\<lambda>_. []) = Inr default_config" by code_simp
  from calm_boot_starts [OF this] obtain T w' where
    "boot (calm_boot (\<lambda>_. [])) calm_edge empty_topology (calm no_rows) =
      (Inr (started default_config calm_edge), T, w')" by blast
  from started_process_is_configured [OF this] show ?thesis by (auto simp: calm_boot_def)
qed

text \<open>
  C37: The configuration check has a hole: a poll interval of zero passes, the process boots and
  starts its scheduler, and the scheduler's ticker panics.
\<close>

theorem zero_poll_interval_is_fatal:
  "\<exists>c T w' sc. Load zero_interval = Inr c \<and>
    boot (calm_boot zero_interval) calm_edge empty_topology (calm no_rows) =
      (Inr (started c calm_edge), T, w') \<and>
    SchedulerLoop sc \<in> set (started c calm_edge) \<and> fst (Scheduler_Run sc [] ticks w') = Inl GoPanic"
proof -
  have l: "Load zero_interval = Inr (default_config\<lparr>cf_poll_interval := 0\<rparr>)" by code_simp
  from calm_boot_starts [OF l] obtain T w' where
    "boot (calm_boot zero_interval) calm_edge empty_topology (calm no_rows) =
      (Inr (started (default_config\<lparr>cf_poll_interval := 0\<rparr>) calm_edge), T, w')" by blast
  with l show ?thesis
    by (intro exI [of _ "default_config\<lparr>cf_poll_interval := 0\<rparr>"] exI [of _ T] exI [of _ w']
        exI [of _ "main_scheduler (default_config\<lparr>cf_poll_interval := 0\<rparr>)"])
      (simp add: started_def runsAPI_def default_config_def main_scheduler_def New_scheduler_def Scheduler_Run_def)
qed

section \<open>Consuming\<close>

text \<open>
  C38: No message is lost and no bound is passed, however pauses, shutdowns, broken channels and
  handlers interleave: every message that reached a queue is ready, held or settled; a session
  holds at most the prefetch count and handles at most the configured number at once; and a
  worker that has stopped without a signal reports an error.
\<close>

theorem no_message_is_lost:
  assumes "Run_starts s" and "consumer_step\<^sup>*\<^sup>* s s'"
  shows "mset (qs_arrived (cs_queue s' q)) = mset (qs_ready (cs_queue s' q)) +
      mset (held (cs_queue s' q)) + mset (qs_settled (cs_queue s' q)) \<and>
    (\<forall>ses. qs_phase (cs_queue s' q) = Consuming ses \<longrightarrow>
      length (busy_in (ss_slots ses)) \<le> nat (wk_concurrency (cs_worker s)) \<and>
      (0 < cs_prefetch s \<longrightarrow> length (unacked ses) \<le> cs_prefetch s)) \<and>
    (Run_returned s' \<and> \<not> cs_signalled s' \<longrightarrow> Run_result s' \<noteq> None)"
proof -
  have ok: "consumers_ok s'" using consumer.inv_reached [OF assms] .
  have "cs_ctx_done s'" if "Run_returned s'"
    using that consumers_okD(2) [OF ok, of sms_queue]
    by (auto simp: Run_returned_def Channels_def ended_ok_def split: phase.splits)
  moreover have "Run_result s' \<noteq> None" if "cs_errs s' \<noteq> []"
    using that by (simp add: Run_result_def split: list.split)
  moreover have "length (busy_in (ss_slots ses)) \<le> nat (wk_concurrency (cs_worker s)) \<and>
      (0 < cs_prefetch s \<longrightarrow> length (unacked ses) \<le> cs_prefetch s)"
    if "qs_phase (cs_queue s' q) = Consuming ses" for ses
    using that consumers_okD(1) [OF ok, of q] consumer_steps_prefetch [OF assms(2)]
      busy_in_length [of "ss_slots ses"]
    by (simp add: queue_ok_def session_ok_def)
  ultimately show ?thesis
    using consumers_okD(1,3) [OF ok] by (auto simp: queue_ok_def)
qed

theorem no_message_is_lost_witness:
  "length (unacked pushed_session) \<le> 2 \<and>
    mset (qs_arrived (cs_queue consumers2 sms_queue)) = {#fresh_message#}"
  using no_message_is_lost [OF consumers0_starts consumers2_reached, of sms_queue]
  by (simp add: consumers2_state consumers0_def Run_start_def)

text \<open>
  C39: Pausing drains. Once a subscription is being cancelled, no step starts another message of
  that queue; the session can always be brought to its end without an error, starting nothing
  and touching no other queue; and what it had not started is then ready again.
\<close>

theorem pausing_drains:
  assumes "Run_starts s0" and "consumer_step\<^sup>*\<^sup>* s0 s" and "draining s q"
  shows "(\<forall>s1. consumer_step s s1 \<longrightarrow>
      mset (handling (cs_queue s1 q)) \<subseteq># mset (handling (cs_queue s q))) \<and>
    (\<exists>s'. consumer_step\<^sup>*\<^sup>* s s' \<and> in_phase s' q Waiting \<and> cs_errs s' = cs_errs s \<and>
      (\<forall>p. p \<noteq> q \<longrightarrow> cs_queue s' p = cs_queue s p) \<and>
      (\<forall>ses. in_phase s q (Consuming ses) \<and> \<not> ss_lost ses \<longrightarrow>
        mset (qs_ready (cs_queue s q)) + mset (ss_buffered ses) \<subseteq># mset (qs_ready (cs_queue s' q))))"
proof -
  have ok: "consumers_ok s" using consumer.inv_reached [OF assms(1,2)] .
  from drains_to_the_end [OF ok assms(3)] obtain s' where s': "consumer_step\<^sup>*\<^sup>* s s'"
    "only_drains q s s'" "in_phase s' q Waiting" by blast
  have "consumers_ok s'" using consumer.inv_steps [OF s'(1) ok] .
  with s' draining_starts_nothing [OF ok _ assms(3)] drained_is_ready [OF ok _ s'(2,3)] show ?thesis
    by (auto simp: only_drains_def)
qed

theorem pausing_drains_witness:
  "\<exists>s'. consumer_step\<^sup>*\<^sup>* consumers3 s' \<and> in_phase s' sms_queue Waiting"
  using pausing_drains [OF consumers0_starts consumers3_reached consumers3_draining] by blast

section \<open>The live stream\<close>

text \<open>
  C40: What a WebSocket client has taken, with what waits in its buffer, is exactly the events
  that the hub handled while it was a member, restricted to the notification it asked for, in
  order and without gaps. Buffers stay within their bounds, and no member's channel is closed.
\<close>

theorem stream_is_the_filtered_log:
  assumes "hub_step\<^sup>*\<^sup>* NewHub h" and "hb_clients h k = Some c"
  shows "wc_taken c @ wc_send c = map he_payload
      (filter (\<lambda>ev. wc_filter c = uuid_Nil \<or> he_id ev = wc_filter c)
        (drop (wc_from c) (case wc_upto c of None \<Rightarrow> hb_log h | Some u \<Rightarrow> take u (hb_log h)))) \<and>
    length (wc_send c) \<le> 32 \<and> length (hb_broadcast h) \<le> 64 \<and>
    (wc_member c \<longleftrightarrow> wc_upto c = None) \<and> (wc_member c \<longrightarrow> \<not> wc_closed c \<and> \<not> hb_done h)"
proof -
  have ok: "hub_ok h" using live_stream.inv_reached [OF refl assms(1)] .
  have "wants f = (\<lambda>ev. f = uuid_Nil \<or> he_id ev = f)" for f
    by (auto simp: wants_def fun_eq_iff)
  with hub_okD [OF ok assms(2)] hub_ok_doneD [OF ok _ assms(2)] ok show ?thesis
    by (auto simp: client_ok_def client_events_def hub_ok_def clientSendBuffer_def broadcastBuffer_def)
qed

theorem stream_is_the_filtered_log_witness:
  "\<exists>c. hb_clients hub_streaming 0 = Some c \<and> length (wc_send c) \<le> 32"
proof -
  from hub_streaming_client obtain c where c: "hb_clients hub_streaming 0 = Some c" by auto
  from stream_is_the_filtered_log [OF hub_streaming_reached c] c show ?thesis by blast
qed

end
